(* ===== verification/Prelude.thy ===== *)
theory Prelude
  imports Main "HOL-Library.Char_ord" "HOL-Library.List_Lexorder" "HOL-Library.Multiset"
begin

text \<open>
  Shared vocabulary of the development.

  Strings of the source are \<open>string\<close> values, read as the bytes of their UTF-8 encoding: the few
  non-ASCII characters the user interface prints (the ellipsis, the arrows of the collapse buttons,
  the filled and hollow circles of the PIN display, the dash) are the byte constants below. Where the
  code indexes or measures a string it does so on ASCII data only.

  JavaScript's \<open>a || b\<close> on strings is \<open>or_else\<close>; \<open>String(n)\<close> on an integer is \<open>show_int\<close>;
  \<open>parseInt(s, 10)\<close> is \<open>parse_int\<close> (None for NaN); \<open>Number(s)\<close> on the digit strings the code
  feeds it is \<open>js_number\<close>. An absent optional string field and the empty string are identified
  where the code only tests them for truth. \<open>a.localeCompare(b)\<close> is used on cartridge barcodes only,
  which are over 0-9 and A-Z (internal/barcode); there it is the lexicographic order on characters,
  which the imported theories Char_ord and List_Lexorder give to \<open>string\<close>.

  The collections \<open>show_simps\<close> and \<open>js_simps\<close> carry the facts on numbers-as-strings and on the
  JavaScript idioms.
\<close>

named_theorems show_simps \<open>printing and reading numbers\<close>
named_theorems js_simps \<open>JavaScript idioms on strings and lists\<close>

section \<open>Non-ASCII characters of the user interface\<close>

definition ellipsis :: string where
  "ellipsis = [CHR 0xE2, CHR 0x80, CHR 0xA6]"

definition em_dash :: string where
  "em_dash = [CHR 0xE2, CHR 0x80, CHR 0x94]"

definition tri_up :: string where
  "tri_up = [CHR 0xE2, CHR 0x96, CHR 0xB2]"

definition tri_down :: string where
  "tri_down = [CHR 0xE2, CHR 0x96, CHR 0xBC]"

definition filled_circle :: string where
  "filled_circle = [CHR 0xE2, CHR 0x97, CHR 0x8F]"

definition hollow_circle :: string where
  "hollow_circle = [CHR 0xE2, CHR 0x97, CHR 0x8B]"

section \<open>Truthiness and defaults\<close>

definition or_else :: "string \<Rightarrow> string \<Rightarrow> string" where
  "or_else a b = (if a = [] then b else a)"

text \<open>\<open>xs || []\<close> for a list that may be missing or null.\<close>

definition or_nil :: "'a list option \<Rightarrow> 'a list" where
  "or_nil xs = (case xs of None \<Rightarrow> [] | Some ys \<Rightarrow> ys)"

lemma or_else_Nil [simp, js_simps]: "or_else [] b = b"
  by (simp add: or_else_def)

lemma or_else_Cons [simp, js_simps]: "or_else (c # cs) b = c # cs"
  by (simp add: or_else_def)

lemma or_nil_None [simp, js_simps]: "or_nil None = []"
  by (simp add: or_nil_def)

lemma or_nil_Some [simp, js_simps]: "or_nil (Some xs) = xs"
  by (simp add: or_nil_def)

text \<open>\<open>arr.find(p)\<close>.\<close>

definition js_find :: "('a \<Rightarrow> bool) \<Rightarrow> 'a list \<Rightarrow> 'a option" where
  "js_find p xs = List.find p xs"

text \<open>\<open>arr.splice(i, 1)\<close> for an index that \<open>parseInt\<close> read from an attribute.\<close>

definition remove_nth :: "nat \<Rightarrow> 'a list \<Rightarrow> 'a list" where
  "remove_nth i xs = take i xs @ drop (Suc i) xs"

lemma length_remove_nth: "i < length xs \<Longrightarrow> length (remove_nth i xs) = length xs - 1"
  by (simp add: remove_nth_def)

lemma set_remove_nth: "set (remove_nth i xs) \<subseteq> set xs"
  by (auto simp: remove_nth_def dest: in_set_takeD in_set_dropD)

lemma remove_nth_beyond: "length xs \<le> i \<Longrightarrow> remove_nth i xs = xs"
  by (simp add: remove_nth_def)

lemma nth_remove_nth:
  "j < length (remove_nth i xs) \<Longrightarrow> remove_nth i xs ! j = (if j < i then xs ! j else xs ! Suc j)"
  by (auto simp: remove_nth_def nth_append)

section \<open>Joining and splitting\<close>

fun join :: "string \<Rightarrow> string list \<Rightarrow> string" where
  "join sep [] = []"
| "join sep [x] = x"
| "join sep (x # y # ys) = x @ sep @ join sep (y # ys)"

fun split_on :: "char \<Rightarrow> string \<Rightarrow> string list" where
  "split_on c [] = [[]]"
| "split_on c (x # xs) =
     (if x = c then [] # split_on c xs
      else (case split_on c xs of [] \<Rightarrow> [[x]] | y # ys \<Rightarrow> (x # y) # ys))"

lemma split_on_not_Nil [simp]: "split_on c xs \<noteq> []"
  by (induction xs) (auto split: list.splits)

lemma split_on_absent: "c \<notin> set xs \<Longrightarrow> split_on c xs = [xs]"
  by (induction xs) auto

lemma split_on_sep: "c \<notin> set xs \<Longrightarrow> split_on c (xs @ c # ys) = xs # split_on c ys"
  by (induction xs) auto

text \<open>Splitting undoes joining when no piece holds the separator.\<close>

lemma split_on_join:
  "xs \<noteq> [] \<Longrightarrow> (\<forall>x\<in>set xs. c \<notin> set x) \<Longrightarrow> split_on c (join [c] xs) = xs"
proof (induction xs rule: induct_list012)
  case 1
  then show ?case by simp
next
  case (2 x)
  then show ?case by (simp add: split_on_absent)
next
  case (3 x y zs)
  then show ?case by (simp add: split_on_sep)
qed

section \<open>Decimal numbers\<close>

definition digit_char :: "nat \<Rightarrow> char" where
  "digit_char d = char_of (48 + d)"

definition is_digit :: "char \<Rightarrow> bool" where
  "is_digit c \<longleftrightarrow> 48 \<le> (of_char c :: nat) \<and> (of_char c :: nat) \<le> 57"

definition digit_val :: "char \<Rightarrow> nat" where
  "digit_val c = of_char c - 48"

fun show_nat :: "nat \<Rightarrow> string" where
  "show_nat n = (if n < 10 then [digit_char n] else show_nat (n div 10) @ [digit_char (n mod 10)])"

declare show_nat.simps [simp del]

definition show_int :: "int \<Rightarrow> string" where
  "show_int i = (if i < 0 then CHR ''-'' # show_nat (nat (- i)) else show_nat (nat i))"

definition dec_value :: "string \<Rightarrow> nat" where
  "dec_value ds = foldl (\<lambda>a c. a * 10 + digit_val c) 0 ds"

lemma of_char_digit_char: "d < 10 \<Longrightarrow> (of_char (digit_char d) :: nat) = 48 + d"
  by (simp add: digit_char_def)

lemma is_digit_digit_char [show_simps]: "d < 10 \<Longrightarrow> is_digit (digit_char d)"
  by (simp add: is_digit_def of_char_digit_char)

lemma digit_val_digit_char [show_simps]: "d < 10 \<Longrightarrow> digit_val (digit_char d) = d"
  by (simp add: digit_val_def of_char_digit_char)

lemma dec_value_snoc: "dec_value (ds @ [c]) = dec_value ds * 10 + digit_val c"
  by (simp add: dec_value_def)

lemma show_nat_not_Nil [simp]: "show_nat n \<noteq> []"
  by (subst show_nat.simps) simp

lemma show_nat_digits: "\<forall>c\<in>set (show_nat n). is_digit c"
proof (induction n rule: show_nat.induct)
  case (1 n)
  then show ?case
    by (subst show_nat.simps) (auto simp: is_digit_digit_char)
qed

lemma dec_value_show_nat [simp]: "dec_value (show_nat n) = n"
proof (induction n rule: show_nat.induct)
  case (1 n)
  show ?case
  proof (cases "n < 10")
    case True
    then show ?thesis
      by (subst show_nat.simps) (simp add: dec_value_def digit_val_digit_char)
  next
    case False
    with 1 have "dec_value (show_nat (n div 10)) = n div 10" by simp
    with False show ?thesis
      by (subst show_nat.simps) (simp add: dec_value_snoc digit_val_digit_char)
  qed
qed

lemma show_nat_inject [simp]: "show_nat m = show_nat n \<longleftrightarrow> m = n"
  by (metis dec_value_show_nat)

lemma not_digit_char [show_simps]:
  "\<not> is_digit CHR ''-''" "\<not> is_digit CHR ''+''" "\<not> is_digit CHR '':''"
  "\<not> is_digit CHR '' ''" "\<not> is_digit CHR ''.''" "\<not> is_digit CHR ''/''"
  by (simp_all add: is_digit_def)

lemma digit_not_in_show_nat: "\<not> is_digit c \<Longrightarrow> c \<notin> set (show_nat n)"
  using show_nat_digits by blast

lemma hd_show_nat: "is_digit (hd (show_nat n))"
  using show_nat_digits [of n] by (cases "show_nat n") auto

lemma show_int_nonneg: "0 \<le> i \<Longrightarrow> show_int i = show_nat (nat i)"
  by (simp add: show_int_def)

lemma show_int_of_nat [simp]: "show_int (int n) = show_nat n"
  by (simp add: show_int_def)

lemma show_int_not_Nil [simp]: "show_int i \<noteq> []"
  by (simp add: show_int_def)

lemma show_int_inject [simp]: "show_int i = show_int j \<longleftrightarrow> i = j"
proof
  assume eq: "show_int i = show_int j"
  have ne: "CHR ''-'' # show_nat m \<noteq> show_nat n" for m n
  proof
    assume "CHR ''-'' # show_nat m = show_nat n"
    then have "CHR ''-'' \<in> set (show_nat n)" by (metis list.set_intros(1))
    then show False by (simp add: digit_not_in_show_nat not_digit_char)
  qed
  show "i = j"
    using eq ne ne [symmetric] by (auto simp: show_int_def split: if_splits)
qed simp

lemma colon_not_in_show_int: "CHR '':'' \<notin> set (show_int i)"
  by (simp add: show_int_def digit_not_in_show_nat not_digit_char)

section \<open>parseInt and Number\<close>

definition js_space :: "char \<Rightarrow> bool" where
  "js_space c \<longleftrightarrow> c \<in> {CHR '' '', CHR 0x09, CHR 0x0A, CHR 0x0B, CHR 0x0C, CHR 0x0D}"

text \<open>An optional sign: whether it was a minus, and the rest of the text.\<close>

definition strip_sign :: "string \<Rightarrow> bool \<times> string" where
  "strip_sign s = (case s of [] \<Rightarrow> (False, [])
     | c # cs \<Rightarrow> if c = CHR ''-'' then (True, cs) else if c = CHR ''+'' then (False, cs) else (False, s))"

definition apply_sign :: "bool \<Rightarrow> nat \<Rightarrow> int" where
  "apply_sign neg n = (if neg then - int n else int n)"

definition parse_int :: "string \<Rightarrow> int option" where
  "parse_int s =
     (let (neg, u) = strip_sign (dropWhile js_space s); ds = takeWhile is_digit u
      in if ds = [] then None else Some (apply_sign neg (dec_value ds)))"

text \<open>
  \<open>Number(s)\<close> on texts that are blank or hold an optionally signed run of decimal digits between
  spaces; every other text is None, as NaN. It stands where the argument is an option value the code printed
  itself or a piece between the dots of a version; what a user types is read by \<open>js_value\<close> below.
\<close>

definition trim :: "string \<Rightarrow> string" where
  "trim s = rev (dropWhile js_space (rev (dropWhile js_space s)))"

definition js_number :: "string \<Rightarrow> int option" where
  "js_number s =
     (let t = trim s; (neg, u) = strip_sign t
      in if t = [] then Some 0
         else if u \<noteq> [] \<and> list_all is_digit u then Some (apply_sign neg (dec_value u)) else None)"

text \<open>
  \<open>Number(s)\<close> on a text the user typed, exactly: the value as a mantissa and a power of ten, None for NaN. A
  text is trimmed; blank is 0; an optional sign, digits with at most one point, an optional exponent; or a
  hexadecimal, octal or binary literal. What the program then does with the value is exact up to 15 digits:
  beyond, the rounding to a double and the overflow to Infinity are not modelled, and the properties on such
  numbers say so.
\<close>

definition read_exponent :: "string \<Rightarrow> int option" where
  "read_exponent r = (case r of [] \<Rightarrow> Some 0
     | c # cs \<Rightarrow>
         if c = CHR ''e'' \<or> c = CHR ''E''
         then (let (neg, u) = strip_sign cs in
               if u \<noteq> [] \<and> list_all is_digit u then Some (apply_sign neg (dec_value u)) else None)
         else None)"

text \<open>The digits after a point, and what follows them.\<close>

definition split_fraction :: "string \<Rightarrow> string \<times> string" where
  "split_fraction r = (case r of [] \<Rightarrow> ([], [])
     | c # cs \<Rightarrow> if c = CHR ''.'' then (takeWhile is_digit cs, dropWhile is_digit cs) else ([], r))"

definition read_decimal :: "string \<Rightarrow> (nat \<times> int) option" where
  "read_decimal u =
     (let whole = takeWhile is_digit u; (frac, rest) = split_fraction (dropWhile is_digit u)
      in if whole @ frac = [] then None
         else map_option (\<lambda>e. (dec_value (whole @ frac), e - int (length frac))) (read_exponent rest))"

definition radix_digit :: "char \<Rightarrow> nat" where
  "radix_digit c =
     (let n = (of_char c :: nat) in
      if 48 \<le> n \<and> n \<le> 57 then n - 48 else if 65 \<le> n \<and> n \<le> 70 then n - 55
      else if 97 \<le> n \<and> n \<le> 102 then n - 87 else 16)"

definition radix_of :: "char \<Rightarrow> nat option" where
  "radix_of c = map_of [(CHR ''x'', 16), (CHR ''X'', 16), (CHR ''o'', 8), (CHR ''O'', 8), (CHR ''b'', 2), (CHR ''B'', 2)] c"

definition read_radix :: "string \<Rightarrow> nat option" where
  "read_radix t = (case t of z # c # ds \<Rightarrow>
       if z = CHR ''0'' \<and> ds \<noteq> []
       then (case radix_of c of None \<Rightarrow> None
         | Some b \<Rightarrow> if list_all (\<lambda>d. radix_digit d < b) ds then Some (foldl (\<lambda>a d. a * b + radix_digit d) 0 ds) else None)
       else None
     | _ \<Rightarrow> None)"

definition js_value :: "string \<Rightarrow> (int \<times> int) option" where
  "js_value s =
     (let t = trim s in
      if t = [] then Some (0, 0)
      else case read_radix t of
        Some n \<Rightarrow> Some (int n, 0)
      | None \<Rightarrow> (let (neg, u) = strip_sign t in map_option (\<lambda>(m, e). (apply_sign neg m, e)) (read_decimal u)))"

lemma not_space_digit: "is_digit c \<Longrightarrow> \<not> js_space c"
  by (auto simp: js_space_def is_digit_def)

lemma takeWhile_digits_show_nat [show_simps]: "takeWhile is_digit (show_nat n) = show_nat n"
  using show_nat_digits by (simp add: takeWhile_eq_all_conv)

lemma dropWhile_space_show_nat [show_simps]: "dropWhile js_space (show_nat n) = show_nat n"
  by (metis dropWhile_eq_self_iff hd_show_nat not_space_digit)

lemma strip_sign_show_nat [show_simps]: "strip_sign (show_nat n) = (False, show_nat n)"
proof -
  obtain c cs where eq: "show_nat n = c # cs" by (cases "show_nat n") auto
  then have "is_digit c" using hd_show_nat [of n] by simp
  then show ?thesis using eq not_digit_char by (auto simp: strip_sign_def)
qed

lemma strip_sign_minus [simp]: "strip_sign (CHR ''-'' # cs) = (True, cs)"
  by (simp add: strip_sign_def)

lemma parse_int_show_nat [simp]: "parse_int (show_nat n) = Some (int n)"
  by (simp add: parse_int_def show_simps apply_sign_def)

lemma parse_int_show_int [simp]: "parse_int (show_int i) = Some i"
proof (cases "i < 0")
  case True
  have "\<not> js_space CHR ''-''" by (simp add: js_space_def)
  then show ?thesis
    using True by (simp add: show_int_def parse_int_def show_simps apply_sign_def)
next
  case False
  then show ?thesis by (simp add: show_int_nonneg)
qed

lemma trim_show_nat [show_simps]: "trim (show_nat n) = show_nat n"
proof -
  have "dropWhile js_space (rev (show_nat n)) = rev (show_nat n)"
    using show_nat_digits [of n] not_space_digit
    by (cases "rev (show_nat n)") (auto simp: rev_eq_Cons_iff)
  then show ?thesis by (simp add: trim_def show_simps)
qed

lemma js_number_show_nat [simp]: "js_number (show_nat n) = Some (int n)"
  using show_nat_digits [of n]
  by (simp add: js_number_def show_simps apply_sign_def list_all_iff)

lemma trim_minus_show_nat: "trim (CHR ''-'' # show_nat n) = CHR ''-'' # show_nat n"
proof -
  obtain c cs where eq: "rev (show_nat n) = c # cs" by (cases "rev (show_nat n)") auto
  then have "c \<in> set (show_nat n)" by (metis list.set_intros(1) set_rev)
  then have "\<not> js_space c" using show_nat_digits not_space_digit by blast
  moreover have "\<not> js_space CHR ''-''" by (simp add: js_space_def)
  ultimately show ?thesis using eq by (simp add: trim_def)
qed

lemma js_number_show_int [simp]: "js_number (show_int i) = Some i"
proof (cases "i < 0")
  case True
  then show ?thesis
    using show_nat_digits [of "nat (- i)"]
    by (simp add: show_int_def js_number_def trim_minus_show_nat apply_sign_def list_all_iff)
next
  case False
  then show ?thesis by (simp add: show_int_nonneg)
qed

lemma dec_value_bound: "list_all is_digit ds \<Longrightarrow> dec_value ds < 10 ^ length ds"
proof (induction ds rule: rev_induct)
  case Nil
  then show ?case by (simp add: dec_value_def)
next
  case (snoc c ds)
  then have "dec_value ds < 10 ^ length ds" "digit_val c \<le> 9" by (auto simp: digit_val_def is_digit_def)
  then show ?case by (simp add: dec_value_snoc)
qed

text \<open>An optional sign and digits: what a number field that holds an integer contains.\<close>

lemma trim_digits:
  assumes "list_all is_digit u" "u \<noteq> []" "\<not> js_space c"
  shows "trim u = u" "trim (c # u) = c # u"
proof -
  have *: "dropWhile js_space (rev u @ zs) = rev u @ zs" for zs
    using assms(1,2) not_space_digit by (cases u rule: rev_cases) auto
  have "dropWhile js_space u = u" using assms(1,2) not_space_digit by (cases u) auto
  with * [of "[]"] show "trim u = u" by (simp add: trim_def)
  show "trim (c # u) = c # u" using assms(3) * by (simp add: trim_def)
qed

lemma digits_no_radix: "list_all is_digit u \<Longrightarrow> read_radix u = None"
proof -
  assume u: "list_all is_digit u"
  have "radix_of c = None" if "is_digit c" for c
    using that by (auto simp: radix_of_def is_digit_def)
  with u show ?thesis by (auto simp: read_radix_def split: list.split)
qed

lemma read_decimal_digits: "list_all is_digit u \<Longrightarrow> u \<noteq> [] \<Longrightarrow> read_decimal u = Some (dec_value u, 0)"
  by (simp add: read_decimal_def split_fraction_def read_exponent_def takeWhile_eq_all_conv [THEN iffD2] list_all_iff
      dropWhile_eq_Nil_conv [THEN iffD2])

lemma js_value_digits:
  assumes "list_all is_digit u" "u \<noteq> []"
  shows "js_value u = Some (int (dec_value u), 0)" "js_value (CHR ''-'' # u) = Some (- int (dec_value u), 0)"
    "js_value (CHR ''+'' # u) = Some (int (dec_value u), 0)"
proof -
  obtain c cs where c: "u = c # cs" "is_digit c" using assms by (cases u) auto
  then have strip: "strip_sign u = (False, u)" using not_digit_char by (auto simp: strip_sign_def)
  have sp: "\<not> js_space CHR ''-''" "\<not> js_space CHR ''+''" by (simp_all add: js_space_def)
  have rx: "read_radix (CHR ''-'' # u) = None" "read_radix (CHR ''+'' # u) = None"
    by (simp_all add: read_radix_def split: list.split)
  show "js_value u = Some (int (dec_value u), 0)"
    using assms sp strip by (simp add: js_value_def trim_digits digits_no_radix read_decimal_digits apply_sign_def)
  show "js_value (CHR ''-'' # u) = Some (- int (dec_value u), 0)"
    using assms sp rx by (simp add: js_value_def trim_digits read_decimal_digits apply_sign_def)
  show "js_value (CHR ''+'' # u) = Some (int (dec_value u), 0)"
    using assms sp rx by (simp add: js_value_def trim_digits read_decimal_digits apply_sign_def strip_sign_def)
qed

lemma js_value_show_nat [simp]: "js_value (show_nat n) = Some (int n, 0)"
  using js_value_digits(1) [of "show_nat n"] show_nat_digits by (simp add: list_all_iff)

lemma js_value_show_int [simp]: "js_value (show_int i) = Some (i, 0)"
  using js_value_digits(2) [of "show_nat (nat (- i))"] show_nat_digits
  by (simp add: show_int_def list_all_iff)

definition integer_text :: "string \<Rightarrow> bool" where
  "integer_text s \<longleftrightarrow> s = [] \<or> (let u = snd (strip_sign s) in u \<noteq> [] \<and> length u \<le> 15 \<and> list_all is_digit u)"

lemma integer_text_cases:
  assumes "integer_text s" "s \<noteq> []"
  obtains u where "u \<noteq> []" "list_all is_digit u" "length u \<le> 15" "s = u \<or> s = CHR ''-'' # u \<or> s = CHR ''+'' # u"
proof -
  obtain u where u: "u = snd (strip_sign s)" by blast
  with assms have "u \<noteq> []" "list_all is_digit u" "length u \<le> 15" by (auto simp: integer_text_def Let_def)
  moreover have "s = u \<or> s = CHR ''-'' # u \<or> s = CHR ''+'' # u"
    using u assms(2) by (cases s) (auto simp: strip_sign_def split: if_splits)
  ultimately show thesis by (rule that)
qed

text \<open>Both readers give such a text a value of at most 15 digits.\<close>

lemma integer_text_value:
  assumes "integer_text s"
  shows "\<exists>i. js_value s = Some (i, 0) \<and> \<bar>i\<bar> < 10 ^ 15" and "pred_option (\<lambda>i. \<bar>i\<bar> < 10 ^ 15) (parse_int s)"
proof -
  have "(\<exists>i. js_value s = Some (i, 0) \<and> \<bar>i\<bar> < 10 ^ 15) \<and> pred_option (\<lambda>i. \<bar>i\<bar> < 10 ^ 15) (parse_int s)"
  proof (cases "s = []")
    case True
    then show ?thesis by (simp add: js_value_def trim_def parse_int_def strip_sign_def)
  next
    case False
    from assms this obtain u where u: "u \<noteq> []" "list_all is_digit u" "length u \<le> 15"
      and s: "s = u \<or> s = CHR ''-'' # u \<or> s = CHR ''+'' # u" by (rule integer_text_cases)
    have "dec_value u < 10 ^ length u" using u by (intro dec_value_bound)
    also have "(10 :: nat) ^ length u \<le> 10 ^ 15" using u(3) by (intro power_increasing) simp_all
    finally have bound: "\<bar>int (dec_value u)\<bar> < 10 ^ 15" by simp
    have take: "takeWhile is_digit u = u" using u(2) by (simp add: takeWhile_eq_all_conv list_all_iff)
    obtain c cs where c: "u = c # cs" "is_digit c" using u by (cases u) auto
    then have sp: "dropWhile js_space u = u" "strip_sign u = (False, u)"
      using not_space_digit not_digit_char by (auto simp: strip_sign_def)
    have sgn: "\<not> js_space CHR ''-''" "\<not> js_space CHR ''+''" by (simp_all add: js_space_def)
    from s show ?thesis
      using bound u(1) js_value_digits [OF u(2,1)] take sp sgn
      by (elim disjE) (simp_all add: parse_int_def apply_sign_def strip_sign_def Let_def del: takeWhile_eq_all_conv)
  qed
  then show "\<exists>i. js_value s = Some (i, 0) \<and> \<bar>i\<bar> < 10 ^ 15" "pred_option (\<lambda>i. \<bar>i\<bar> < 10 ^ 15) (parse_int s)"
    by blast+
qed

section \<open>Lines\<close>

text \<open>A text input drops line breaks from the value it is given.\<close>

definition line_break :: "char \<Rightarrow> bool" where
  "line_break c \<longleftrightarrow> c = CHR 0x0A \<or> c = CHR 0x0D"

definition one_line :: "string \<Rightarrow> bool" where
  "one_line s \<longleftrightarrow> \<not> list_ex line_break s"

definition input_text :: "string \<Rightarrow> string" where
  "input_text s = filter (\<lambda>c. \<not> line_break c) s"

lemma input_text_one_line [simp]: "one_line s \<Longrightarrow> input_text s = s"
  by (auto simp: one_line_def input_text_def list_ex_iff filter_id_conv)

lemma one_line_show_int [simp]: "one_line (show_int i)"
proof -
  have "\<not> line_break c" if "is_digit c" for c using that by (auto simp: line_break_def is_digit_def)
  then show ?thesis
    using show_nat_digits by (auto simp: one_line_def show_int_def list_ex_iff line_break_def)
qed

lemma one_line_Nil [simp]: "one_line []"
  by (simp add: one_line_def)

section \<open>Case\<close>

text \<open>\<open>toLowerCase\<close> on ASCII texts.\<close>

definition lower_char :: "char \<Rightarrow> char" where
  "lower_char c = (if 65 \<le> (of_char c :: nat) \<and> (of_char c :: nat) \<le> 90 then char_of ((of_char c :: nat) + 32) else c)"

definition lower :: "string \<Rightarrow> string" where
  "lower s = map lower_char s"

section \<open>Lists\<close>

lemma distinct_snoc [simp]: "distinct (xs @ [x]) \<longleftrightarrow> distinct xs \<and> x \<notin> set xs"
  by auto

lemma find_None_iff_filter: "List.find p xs = None \<longleftrightarrow> filter p xs = []"
  by (induction xs) auto

lemma find_append:
  "List.find P (xs @ ys) = (case List.find P xs of None \<Rightarrow> List.find P ys | Some x \<Rightarrow> Some x)"
  by (induction xs) auto

lemma find_SomeD: "List.find P xs = Some x \<Longrightarrow> x \<in> set xs \<and> P x"
  by (auto simp: find_Some_iff)

lemma distinct_map_filter_key: "distinct (map f xs) \<Longrightarrow> distinct (map f (filter p xs))"
  by (rule distinct_map_filter)

end
