(* ===== verification/Api_Types.thy ===== *)
theory Api_Types
  imports Prelude
begin

text \<open>
  The data the user interface works on.

  The first records are the JSON objects of the REST API (internal/library/types.go and
  internal/library/library.go give their fields and which of them may be missing): a field the code
  guards with \<open>|| []\<close> or \<open>&&\<close> is an option, an optional string or number the code only tests for
  truth is empty or 0 when absent. JSON integers are \<open>int\<close> (addresses, indices) or \<open>nat\<close> (sizes and
  counts). Objects used as dictionaries are maps; their keys are the names and addresses of library
  elements, assumed not to be property names every JavaScript object inherits (\<open>constructor\<close> and
  the like).

  \<open>app\<close> is the module-level \<open>state\<close> object of app.js.
\<close>

section \<open>Cartridges and elements\<close>

record volume =
  barcode :: string
  tape_set :: string
  capacity_bytes :: nat
  written_bytes :: nat
  full :: bool
  write_protected :: bool
  cleaning :: bool
  cleaning_state :: string
  cleaning_usage_count :: nat
  number_of_partitions :: nat
  load_count :: nat
  application_vendor :: string
  application_name :: string
  application_version :: string
  user_medium_text_label :: string
  encrypted :: bool

record slot =
  slot_address :: int
  slot_label :: string
  magazine_id :: string
  slot_volume :: "volume option"

record ioslot =
  io_address :: int
  io_label :: string
  mailbox_id :: string
  io_volume :: "volume option"

record drive =
  drive_index :: int
  device_path :: string
  drive_type :: string
  drive_volume :: "volume option"
  fault :: bool
  mounts_since_cleaning :: nat
  activity :: string

section \<open>Doors, arm, status\<close>

record door_status =
  open_magazines :: "string list option"
  open_mailboxes :: "string list option"
  phases :: "(string \<rightharpoonup> string) option"

record robotic_fault =
  fault_active :: bool
  fault_kind :: string
  fault_message :: string

text \<open>\<open>{kind, address, label}\<close>; the empty object \<open>{}\<close> has the empty kind.\<close>

record arm_position =
  arm_kind :: string
  arm_address :: int
  arm_label :: string

record arm_state =
  arm_busy :: bool
  position :: arm_position

definition no_position :: arm_position where
  "no_position = \<lparr>arm_kind = [], arm_address = 0, arm_label = []\<rparr>"

record status =
  st_name :: string
  slots :: "slot list option"
  ioslots :: "ioslot list option"
  drives :: "drive list option"
  outside_volumes :: "volume list option"
  offsite_volumes :: "volume list option"
  offsite_enabled :: bool
  doors :: "door_status option"
  robotic_fault :: "robotic_fault option"
  st_arm_state :: "arm_state option"
  busy_elements :: "string list option"
  cleaning_enabled :: bool
  cleaning_mount_threshold :: nat
  cleaning_max_uses :: nat
  magazine_pin_required :: bool
  mailbox_pin_required :: "(string \<Rightarrow> bool) option"
  tape_set_families :: "(string \<rightharpoonup> string) option"
  drive_type_families :: "(string \<rightharpoonup> string) option"

section \<open>Logical libraries\<close>

record logical_library =
  lib_name :: string
  lib_drives :: "drive list option"
  lib_slots :: "slot list option"
  lib_io_slots :: "ioslot list option"
  lib_color :: string
  lib_changer_model :: string

section \<open>Staged door actions\<close>

text \<open>One entry \<open>{action, address, barcode}\<close> of a magazine's or mailbox's queue.\<close>

record door_action =
  qa_action :: string
  qa_address :: int
  qa_barcode :: string

type_synonym door_queue = "door_action list"

section \<open>The state object of app.js\<close>

record app =
  role :: string
  username :: string
  status_of :: "status option"
  mailboxQueues :: "string \<rightharpoonup> door_queue"
  storageQueues :: "string \<rightharpoonup> door_queue"
  logicalLibraries :: "logical_library list"
  showLibraryColors :: bool
  hideUnassigned :: bool
  tapeSetFamily :: "string \<rightharpoonup> string"
  backupLastRun :: "string option"
  pendingDriveOps :: "int set"
  pendingRobotOps :: int
  pendingElementOps :: "string set"
  doorPhases :: "string \<rightharpoonup> string"
  busyElements :: "string set"
  armState :: "arm_state option"
  robotActivity :: "(string \<times> string) list"

text \<open>The initial value of \<open>state\<close>.\<close>

definition initial_app :: app where
  "initial_app = \<lparr>role = [], username = [], status_of = None, mailboxQueues = Map.empty,
     storageQueues = Map.empty, logicalLibraries = [], showLibraryColors = False,
     hideUnassigned = False, tapeSetFamily = Map.empty, backupLastRun = None,
     pendingDriveOps = {}, pendingRobotOps = 0, pendingElementOps = {}, doorPhases = Map.empty,
     busyElements = {}, armState = None, robotActivity = []\<rparr>"

text \<open>\<open>state.role === "admin" || state.role === "operator"\<close>, the guard of every control.\<close>

definition can_operate :: "('a) app_scheme \<Rightarrow> bool" where
  "can_operate s \<longleftrightarrow> role s = ''admin'' \<or> role s = ''operator''"

text \<open>The keys \<open>slot:N\<close>, \<open>ioslot:N\<close>, \<open>drive:N\<close> of the busy and pending sets.\<close>

definition slot_key :: "int \<Rightarrow> string" where
  "slot_key a = ''slot:'' @ show_int a"

definition ioslot_key :: "int \<Rightarrow> string" where
  "ioslot_key a = ''ioslot:'' @ show_int a"

definition drive_key :: "int \<Rightarrow> string" where
  "drive_key i = ''drive:'' @ show_int i"

lemma element_keys_inject [simp]:
  "slot_key a = slot_key b \<longleftrightarrow> a = b"
  "ioslot_key a = ioslot_key b \<longleftrightarrow> a = b"
  "drive_key a = drive_key b \<longleftrightarrow> a = b"
  by (simp_all add: slot_key_def ioslot_key_def drive_key_def)

lemma element_keys_distinct [simp]:
  "slot_key a \<noteq> ioslot_key b" "slot_key a \<noteq> drive_key b" "ioslot_key a \<noteq> drive_key b"
  "ioslot_key a \<noteq> slot_key b" "drive_key a \<noteq> slot_key b" "drive_key a \<noteq> ioslot_key b"
  by (simp_all add: slot_key_def ioslot_key_def drive_key_def)

end
