(* ===== verification/Keyed_Store.thy ===== *)
theory Keyed_Store
  imports Prelude
begin

text \<open>
  The interface three parts of app.js share: a small store that maps keys to values, written one key
  at a time by \<open>set_key\<close> and \<open>clear_key\<close>. The staged door queue of a magazine or mailbox
  (Staged_Queue), the door-phase object and the busy-element set that the event stream feeds
  (Live_Stream) provide it; what a client needs (the effect of a run of writes, and that the last
  write to a key decides) is proved here once.
\<close>

datatype ('k, 'v) store_op = Put 'k 'v | Drop 'k

fun write_key :: "('k, 'v) store_op \<Rightarrow> 'k" where
  "write_key (Put k v) = k"
| "write_key (Drop k) = k"

fun write_val :: "('k, 'v) store_op \<Rightarrow> 'v option" where
  "write_val (Put k v) = Some v"
| "write_val (Drop k) = None"

text \<open>The abstract effect of writes on a map.\<close>

definition map_write :: "('k, 'v) store_op \<Rightarrow> ('k \<rightharpoonup> 'v) \<Rightarrow> ('k \<rightharpoonup> 'v)" where
  "map_write w m = m(write_key w := write_val w)"

definition map_writes :: "('k, 'v) store_op list \<Rightarrow> ('k \<rightharpoonup> 'v) \<Rightarrow> ('k \<rightharpoonup> 'v)" where
  "map_writes ws m = fold map_write ws m"

lemma map_writes_simps [simp]:
  "map_writes [] m = m"
  "map_writes (w # ws) m = map_writes ws (map_write w m)"
  "map_writes (us @ ws) m = map_writes ws (map_writes us m)"
  by (simp_all add: map_writes_def)

lemma map_writes_other: "k \<notin> write_key ` set ws \<Longrightarrow> map_writes ws m k = m k"
  by (induction ws arbitrary: m) (auto simp: map_write_def)

lemma map_writes_agree:
  "k \<in> write_key ` set ws \<or> m k = n k \<Longrightarrow> map_writes ws m k = map_writes ws n k"
proof (induction ws arbitrary: m n)
  case Nil
  then show ?case by simp
next
  case (Cons w ws)
  show ?case
    unfolding map_writes_simps
    by (rule Cons.IH) (use Cons.prems in \<open>auto simp: map_write_def\<close>)
qed

lemma map_writes_idem: "map_writes ws (map_writes ws m) = map_writes ws m"
proof
  fix k
  show "map_writes ws (map_writes ws m) k = map_writes ws m k"
    by (rule map_writes_agree) (metis map_writes_other)
qed

text \<open>
  A snapshot taken in the middle of a run may be followed by the whole run again: the writes before
  the snapshot are replayed onto it, and the result is the same as without the replay.
\<close>

lemma map_writes_replay:
  "map_writes (us @ ws) (map_writes us m) = map_writes (us @ ws) m"
  by (simp add: map_writes_idem)

section \<open>The interface\<close>

locale keyed_store =
  fixes set_key :: "'k \<Rightarrow> 'v \<Rightarrow> 'm \<Rightarrow> 'm"
    and clear_key :: "'k \<Rightarrow> 'm \<Rightarrow> 'm"
    and get :: "'m \<Rightarrow> 'k \<Rightarrow> 'v option"
    and wf :: "'m \<Rightarrow> bool"
  assumes get_set: "wf m \<Longrightarrow> get (set_key k v m) = (get m)(k \<mapsto> v)"
    and get_clear: "wf m \<Longrightarrow> get (clear_key k m) = (get m)(k := None)"
    and wf_set: "wf m \<Longrightarrow> wf (set_key k v m)"
    and wf_clear: "wf m \<Longrightarrow> wf (clear_key k m)"
begin

definition apply_write :: "('k, 'v) store_op \<Rightarrow> 'm \<Rightarrow> 'm" where
  "apply_write w m = (case w of Put k v \<Rightarrow> set_key k v m | Drop k \<Rightarrow> clear_key k m)"

definition apply_writes :: "('k, 'v) store_op list \<Rightarrow> 'm \<Rightarrow> 'm" where
  "apply_writes ws m = fold apply_write ws m"

lemma apply_write_wf: "wf m \<Longrightarrow> wf (apply_write w m)"
  by (cases w) (simp_all add: apply_write_def wf_set wf_clear)

lemma get_apply_write: "wf m \<Longrightarrow> get (apply_write w m) = map_write w (get m)"
  by (cases w) (simp_all add: apply_write_def map_write_def get_set get_clear)

lemma apply_writes_wf: "wf m \<Longrightarrow> wf (apply_writes ws m)"
  by (induction ws arbitrary: m) (simp_all add: apply_writes_def apply_write_wf)

text \<open>A run of writes is the same run on the abstract map.\<close>

lemma get_apply_writes: "wf m \<Longrightarrow> get (apply_writes ws m) = map_writes ws (get m)"
proof (induction ws arbitrary: m)
  case Nil
  then show ?case by (simp add: apply_writes_def)
next
  case (Cons w ws)
  then have "get (apply_writes ws (apply_write w m)) = map_writes ws (map_write w (get m))"
    by (simp add: apply_write_wf get_apply_write)
  then show ?case by (simp add: apply_writes_def)
qed

text \<open>Writes to different keys commute.\<close>

lemma writes_commute:
  "wf m \<Longrightarrow> write_key u \<noteq> write_key w \<Longrightarrow>
     get (apply_write u (apply_write w m)) = get (apply_write w (apply_write u m))"
  by (simp add: get_apply_write apply_write_wf map_write_def fun_upd_twist)

text \<open>A key no write of the run names keeps its value.\<close>

lemma get_apply_writes_other:
  "wf m \<Longrightarrow> k \<notin> write_key ` set ws \<Longrightarrow> get (apply_writes ws m) k = get m k"
  by (simp add: get_apply_writes map_writes_other)

end

end
