(* ===== verification/Staged_Queue.thy ===== *)
theory Staged_Queue
  imports Api_Types Keyed_Store
begin

text \<open>
  The staged actions of an open door. While a magazine or mailbox door is open the operator queues
  one "load" or "pickup" per slot; closing the door sends the queue to the server, which applies it
  in one go (\<open>queueAction\<close>, the "Bulk load..." and "Pickup all" buttons of \<open>renderSlots\<close> in app.js;
  \<open>applyStorageActionsLocked\<close> in internal/library/library.go).

  The queue is a list, but it promises a map from addresses to actions: \<open>queue_get\<close> reads that map,
  and the interpretation \<open>dq\<close> of the keyed-store interface states the promise.
\<close>

section \<open>queueAction\<close>

definition queueAction :: "door_queue \<Rightarrow> string \<Rightarrow> int \<Rightarrow> string \<Rightarrow> door_queue" where
  "queueAction queue action address bc =
     (let next = filter (\<lambda>q. qa_address q \<noteq> address) queue
      in if action \<noteq> [] then next @ [\<lparr>qa_action = action, qa_address = address, qa_barcode = bc\<rparr>]
         else next)"

text \<open>What is staged for an address: the action and its barcode.\<close>

definition queue_get :: "door_queue \<Rightarrow> int \<Rightarrow> (string \<times> string) option" where
  "queue_get queue a =
     map_option (\<lambda>q. (qa_action q, qa_barcode q)) (List.find (\<lambda>q. qa_address q = a) queue)"

text \<open>Well-formed queues: one entry per address, and no entry with an empty action.\<close>

definition queue_wf :: "door_queue \<Rightarrow> bool" where
  "queue_wf queue \<longleftrightarrow> distinct (map qa_address queue) \<and> (\<forall>q\<in>set queue. qa_action q \<noteq> [])"

lemma queue_wf_Nil [simp]: "queue_wf []"
  by (simp add: queue_wf_def)

lemma queue_wf_queueAction: "queue_wf q \<Longrightarrow> queue_wf (queueAction q act a bc)"
  by (auto simp: queue_wf_def queueAction_def Let_def distinct_map_filter_key)

lemma find_filter_other:
  "a \<noteq> b \<Longrightarrow> List.find (\<lambda>q. qa_address q = a) (filter (\<lambda>q. qa_address q \<noteq> b) xs)
     = List.find (\<lambda>q. qa_address q = a) xs"
  by (induction xs) auto

lemma find_filter_same:
  "List.find (\<lambda>q. qa_address q = a) (filter (\<lambda>q. qa_address q \<noteq> a) xs) = None"
  by (simp add: find_None_iff)

lemma queue_get_queueAction:
  "queue_get (queueAction q act a bc) =
     (queue_get q)(a := (if act = [] then None else Some (act, bc)))"
  by (rule ext)
     (auto simp: queue_get_def queueAction_def Let_def find_append find_filter_same
        find_filter_other split: option.splits)

text \<open>The queue provides the keyed store over addresses.\<close>

definition stage :: "int \<Rightarrow> string \<times> string \<Rightarrow> door_queue \<Rightarrow> door_queue" where
  "stage a av q = queueAction q (fst av) a (snd av)"

definition unstage :: "int \<Rightarrow> door_queue \<Rightarrow> door_queue" where
  "unstage a q = queueAction q [] a []"

text \<open>
  The code stages only the actions "load" and "pickup"; a stored value has a non-empty action, so the
  store is over the pairs whose first part is one of the two. Here the value is the constructor.
\<close>

datatype staged = Load string | Pickup

fun staged_pair :: "staged \<Rightarrow> string \<times> string" where
  "staged_pair (Load b) = (''load'', b)"
| "staged_pair Pickup = (''pickup'', [])"

definition to_staged :: "string \<times> string \<Rightarrow> staged option" where
  "to_staged av = (if fst av = ''load'' then Some (Load (snd av))
                   else if av = (''pickup'', []) then Some Pickup else None)"

lemma to_staged_pair [simp]: "to_staged (staged_pair v) = Some v"
  by (cases v) (simp_all add: to_staged_def)

definition staged_get :: "door_queue \<Rightarrow> int \<Rightarrow> staged option" where
  "staged_get q a = Option.bind (queue_get q a) to_staged"

lemma staged_get_None: "\<forall>e\<in>set q. qa_address e \<noteq> a \<Longrightarrow> staged_get q a = None"
proof -
  assume "\<forall>e\<in>set q. qa_address e \<noteq> a"
  then have "List.find (\<lambda>e. qa_address e = a) q = None" by (simp add: find_None_iff)
  then show ?thesis by (simp add: staged_get_def queue_get_def)
qed

lemma staged_get_stage: "staged_get (stage a (staged_pair v) q) = (staged_get q)(a \<mapsto> v)"
  by (rule ext) (cases v; simp add: staged_get_def stage_def queue_get_queueAction to_staged_def)

lemma staged_get_unstage: "staged_get (unstage a q) = (staged_get q)(a := None)"
  by (rule ext) (simp add: staged_get_def unstage_def queue_get_queueAction)

interpretation dq: keyed_store "\<lambda>a v. stage a (staged_pair v)" unstage staged_get queue_wf
  by unfold_locales
     (simp only: staged_get_stage, simp only: staged_get_unstage,
      simp_all add: stage_def unstage_def queue_wf_queueAction)

lemma queue_wf_stage: "queue_wf q \<Longrightarrow> queue_wf (stage a v q)"
  by (simp add: stage_def queue_wf_queueAction)

section \<open>Bulk load and pickup all\<close>

text \<open>The empty slots of the group that no staged action names, by address.\<close>

definition bulkEmptySlots :: "door_queue \<Rightarrow> slot list \<Rightarrow> slot list" where
  "bulkEmptySlots queue group_slots =
     sort_key slot_address
       (filter (\<lambda>s. slot_volume s = None \<and> \<not> list_ex (\<lambda>e. qa_address e = slot_address s) queue)
          group_slots)"

text \<open>The loop over the selected barcodes: the i-th goes to the i-th free slot.\<close>

definition bulkLoadQueue :: "door_queue \<Rightarrow> slot list \<Rightarrow> string list \<Rightarrow> door_queue" where
  "bulkLoadQueue queue emptySlots barcodes =
     (let slotsToUse = take (length barcodes) emptySlots
      in fold (\<lambda>(bc, s) updated. queueAction updated ''load'' (slot_address s) bc)
           (zip (take (length slotsToUse) barcodes) slotsToUse) queue)"

text \<open>The loaded slots of the group with no pickup staged yet, by address.\<close>

definition pickupAllSlots :: "door_queue \<Rightarrow> slot list \<Rightarrow> slot list" where
  "pickupAllSlots queue group_slots =
     sort_key slot_address
       (filter (\<lambda>s. slot_volume s \<noteq> None \<and>
            \<not> list_ex (\<lambda>e. qa_address e = slot_address s \<and> qa_action e = ''pickup'') queue)
          group_slots)"

definition pickupAllQueue :: "door_queue \<Rightarrow> slot list \<Rightarrow> door_queue" where
  "pickupAllQueue queue loaded =
     fold (\<lambda>s updated. queueAction updated ''pickup'' (slot_address s) []) loaded queue"

lemma stage_load_fold:
  "fold (\<lambda>(bc, s) u. queueAction u ''load'' (slot_address s) bc) bss q =
     dq.apply_writes (map (\<lambda>(bc, s). Put (slot_address s) (Load bc)) bss) q"
  by (induction bss arbitrary: q)
     (auto simp: dq.apply_writes_def dq.apply_write_def stage_def)

lemma stage_pickup_fold:
  "pickupAllQueue q ss = dq.apply_writes (map (\<lambda>s. Put (slot_address s) Pickup) ss) q"
  unfolding pickupAllQueue_def
  by (induction ss arbitrary: q)
     (auto simp: dq.apply_writes_def dq.apply_write_def stage_def)

lemma map_writes_distinct:
  "distinct (map fst kvs) \<Longrightarrow> map_writes (map (\<lambda>(k, v). Put k v) kvs) m = m ++ map_of kvs"
proof (induction kvs arbitrary: m)
  case Nil
  then show ?case by simp
next
  case (Cons kv kvs)
  obtain k v where kv: "kv = (k, v)" by force
  have "k \<notin> dom (map_of kvs)" using Cons.prems by (simp add: kv dom_map_of_conv_image_fst)
  moreover have "map_writes (map (\<lambda>(k, v). Put k v) kvs) (m(k \<mapsto> v)) = m(k \<mapsto> v) ++ map_of kvs"
    using Cons by simp
  ultimately show ?case
    by (auto simp: kv map_write_def map_add_def fun_eq_iff split: option.splits)
qed

lemma bulkLoadQueue_get:
  assumes "queue_wf q" and "distinct (map slot_address free)"
  shows "staged_get (bulkLoadQueue q free bcs) =
           staged_get q ++ map_of (zip (map slot_address free) (map Load bcs))"
proof -
  let ?n = "length (take (length bcs) free)"
  let ?bss = "zip (take ?n bcs) (take (length bcs) free)"
  let ?kvs = "zip (map slot_address free) (map Load bcs)"
  have kvs: "?kvs = map (\<lambda>(bc, s). (slot_address s, Load bc)) ?bss"
    by (rule nth_equalityI) auto
  have "distinct (map fst ?kvs)"
    using assms(2) by (simp add: map_fst_zip_take distinct_take)
  then have "map_writes (map (\<lambda>(k, v). Put k v) ?kvs) (staged_get q) = staged_get q ++ map_of ?kvs"
    by (rule map_writes_distinct)
  moreover have "map (\<lambda>(k, v). Put k v) ?kvs = map (\<lambda>(bc, s). Put (slot_address s) (Load bc)) ?bss"
    unfolding kvs by (auto split: prod.splits)
  ultimately show ?thesis
    by (simp add: bulkLoadQueue_def Let_def stage_load_fold dq.get_apply_writes assms(1))
qed

lemma bulkLoadQueue_wf: "queue_wf q \<Longrightarrow> queue_wf (bulkLoadQueue q free bcs)"
  by (simp add: bulkLoadQueue_def Let_def stage_load_fold dq.apply_writes_wf)

lemma pickupAllQueue_wf: "queue_wf q \<Longrightarrow> queue_wf (pickupAllQueue q ss)"
  by (simp add: stage_pickup_fold dq.apply_writes_wf)

lemma pickupAllQueue_get:
  "queue_wf q \<Longrightarrow> staged_get (pickupAllQueue q ss) a =
     (if a \<in> slot_address ` set ss then Some Pickup else staged_get q a)"
proof (induction ss arbitrary: q)
  case Nil
  then show ?case by (simp add: pickupAllQueue_def)
next
  case (Cons s ss)
  let ?q = "queueAction q ''pickup'' (slot_address s) []"
  have "queue_wf ?q" using Cons.prems by (rule queue_wf_queueAction)
  then have "staged_get (pickupAllQueue ?q ss) a =
      (if a \<in> slot_address ` set ss then Some Pickup else staged_get ?q a)" by (rule Cons.IH)
  moreover have "staged_get ?q = (staged_get q)(slot_address s \<mapsto> Pickup)"
    using staged_get_stage [of "slot_address s" Pickup q] by (simp add: stage_def)
  ultimately show ?case by (simp add: pickupAllQueue_def)
qed

lemma distinct_sort_key_filter:
  "distinct (map slot_address ss) \<Longrightarrow> distinct (map slot_address (sort_key slot_address (filter P ss)))"
proof -
  assume "distinct (map slot_address ss)"
  then have "distinct (map slot_address (filter P ss))" by (rule distinct_map_filter_key)
  moreover have "mset (map slot_address (sort_key slot_address (filter P ss))) =
                 mset (map slot_address (filter P ss))" by simp
  ultimately show ?thesis by (metis mset_eq_imp_distinct_iff)
qed

lemma bulkEmptySlots_distinct:
  "distinct (map slot_address ss) \<Longrightarrow> distinct (map slot_address (bulkEmptySlots q ss))"
  by (simp add: bulkEmptySlots_def distinct_sort_key_filter)

lemma bulkEmptySlots_free:
  "s \<in> set (bulkEmptySlots q ss) \<Longrightarrow>
     s \<in> set ss \<and> slot_volume s = None \<and> staged_get q (slot_address s) = None"
  by (auto simp: bulkEmptySlots_def list_ex_iff staged_get_None)

section \<open>Staging on a rendered page\<close>

text \<open>
  The handlers of a door's cards and buttons are closures over the queue of the rendering that made them: a click writes
  the queue it was rendered with, changed, and asks for a refresh, which renders again once the status has come back. Only
  a drop on the outside grid reads the current queue. An accepted close empties it.
\<close>

record staging =
  sg_queue :: door_queue
  sg_shown :: door_queue

datatype queue_event =
    Rendered
  | Slot_Click "(int, staged) store_op"
  | Bulk_Load "slot list" "string list"
  | Pickup_All "slot list"
  | Outside_Drop int
  | Closed

fun click_queue :: "(int, staged) store_op \<Rightarrow> door_queue \<Rightarrow> door_queue" where
  "click_queue (Put a (Load b)) q = queueAction q ''load'' a b"
| "click_queue (Put a Pickup) q = queueAction q ''pickup'' a []"
| "click_queue (Drop a) q = queueAction q [] a []"

fun take_event :: "queue_event \<Rightarrow> staging \<Rightarrow> staging" where
  "take_event Rendered g = g\<lparr>sg_shown := sg_queue g\<rparr>"
| "take_event (Slot_Click w) g = g\<lparr>sg_queue := click_queue w (sg_shown g)\<rparr>"
| "take_event (Bulk_Load free bcs) g = g\<lparr>sg_queue := bulkLoadQueue (sg_shown g) free bcs\<rparr>"
| "take_event (Pickup_All ss) g = g\<lparr>sg_queue := pickupAllQueue (sg_shown g) ss\<rparr>"
| "take_event (Outside_Drop a) g = g\<lparr>sg_queue := queueAction (sg_queue g) ''pickup'' a []\<rparr>"
| "take_event Closed g = g\<lparr>sg_queue := []\<rparr>"

definition run_clicks :: "queue_event list \<Rightarrow> staging \<Rightarrow> staging" where
  "run_clicks es g = fold take_event es g"

text \<open>The same over maps: what is staged, and what the page shows as staged.\<close>

fun event_writes :: "queue_event \<Rightarrow> (int, staged) store_op list" where
  "event_writes (Slot_Click w) = [w]"
| "event_writes (Bulk_Load free bcs) = map (\<lambda>(bc, s). Put (slot_address s) (Load bc)) (zip bcs free)"
| "event_writes (Pickup_All ss) = map (\<lambda>s. Put (slot_address s) Pickup) ss"
| "event_writes (Outside_Drop a) = [Put a Pickup]"
| "event_writes e = []"

fun map_event :: "queue_event \<Rightarrow> (int \<rightharpoonup> staged) \<times> (int \<rightharpoonup> staged) \<Rightarrow> (int \<rightharpoonup> staged) \<times> (int \<rightharpoonup> staged)" where
  "map_event Rendered (m, sh) = (m, m)"
| "map_event Closed (m, sh) = (Map.empty, sh)"
| "map_event (Outside_Drop a) (m, sh) = (m(a \<mapsto> Pickup), sh)"
| "map_event e (m, sh) = (map_writes (event_writes e) sh, sh)"

text \<open>Every click acts on an up-to-date rendering (\<open>b\<close>: the present one is), and the door is not closed.\<close>

fun settled :: "bool \<Rightarrow> queue_event list \<Rightarrow> bool" where
  "settled b [] = True"
| "settled b (Rendered # es) = settled True es"
| "settled b (Outside_Drop a # es) = settled False es"
| "settled b (Closed # es) = False"
| "settled b (e # es) = (b \<and> settled False es)"

definition staging_wf :: "staging \<Rightarrow> bool" where
  "staging_wf g \<longleftrightarrow> queue_wf (sg_queue g) \<and> queue_wf (sg_shown g)"

definition staging_maps :: "staging \<Rightarrow> (int \<rightharpoonup> staged) \<times> (int \<rightharpoonup> staged)" where
  "staging_maps g = (staged_get (sg_queue g), staged_get (sg_shown g))"

lemma click_queue_write: "click_queue w q = dq.apply_write w q"
  by (cases "(w, q)" rule: click_queue.cases) (simp_all add: dq.apply_write_def stage_def unstage_def)

lemma bulkLoadQueue_writes: "bulkLoadQueue q free bcs = dq.apply_writes (event_writes (Bulk_Load free bcs)) q"
proof -
  have "zip (take (length (take (length bcs) free)) bcs) (take (length bcs) free) = zip bcs free"
    by (rule nth_equalityI) auto
  then show ?thesis by (simp add: bulkLoadQueue_def Let_def stage_load_fold)
qed

lemma take_event_simulates:
  "staging_wf g \<Longrightarrow> staging_wf (take_event e g) \<and> staging_maps (take_event e g) = map_event e (staging_maps g)"
proof (cases e)
  case (Slot_Click w)
  assume "staging_wf g"
  with Slot_Click show ?thesis
    using dq.get_apply_writes [of "sg_shown g" "[w]"] dq.apply_writes_wf [of "sg_shown g" "[w]"]
    by (simp add: staging_wf_def staging_maps_def click_queue_write dq.apply_writes_def)
next
  case (Outside_Drop a)
  assume "staging_wf g"
  with Outside_Drop show ?thesis
    using staged_get_stage [of a Pickup "sg_queue g"]
    by (simp add: staging_wf_def staging_maps_def queue_wf_queueAction stage_def)
qed (simp_all add: staging_wf_def staging_maps_def bulkLoadQueue_writes stage_pickup_fold dq.get_apply_writes dq.apply_writes_wf
    staged_get_None fun_eq_iff del: event_writes.simps(2))

lemma run_clicks_simulates:
  "staging_wf g \<Longrightarrow> staging_wf (run_clicks es g) \<and> staging_maps (run_clicks es g) = fold map_event es (staging_maps g)"
  by (induction es arbitrary: g) (simp_all add: run_clicks_def take_event_simulates)

lemma map_write_simps [simp]: "map_write (Put a v) m = m(a \<mapsto> v)" "map_write (Drop a) m = m(a := None)"
  by (simp_all add: map_write_def)

lemma settled_maps:
  "settled b es \<Longrightarrow> b \<longrightarrow> sh = m \<Longrightarrow> fst (fold map_event es (m, sh)) = map_writes (concat (map event_writes es)) m"
proof (induction es arbitrary: b m sh)
  case (Cons e es)
  have later: "fst (fold map_event es (m', sh')) = map_writes (concat (map event_writes es)) m'" if "settled False es" for m' sh'
    using Cons.IH [OF that] by simp
  from Cons show ?case by (cases e) (simp_all add: later)
qed simp

section \<open>Properties\<close>

text \<open>
  C15: The staged queue of an open door implements a map from slots to actions: through every sequence of renderings,
  clicks, bulk loads, drops and closes, with every click acting on the queue of the rendering it belongs to, the queue and
  the rendered queue hold what the two maps of the abstract machine hold, with one entry per address. When every click
  acts on an up-to-date rendering, each address holds exactly the last action staged for it and not cleared since.
\<close>

theorem staged_queue_is_a_map:
  assumes "queue_wf (sg_queue g)" and "queue_wf (sg_shown g)"
  shows "queue_wf (sg_queue (run_clicks es g)) \<and>
     (staged_get (sg_queue (run_clicks es g)), staged_get (sg_shown (run_clicks es g))) =
       fold map_event es (staged_get (sg_queue g), staged_get (sg_shown g)) \<and>
     (settled (sg_shown g = sg_queue g) es \<longrightarrow>
        staged_get (sg_queue (run_clicks es g)) =
          fold (\<lambda>w m. m(write_key w := write_val w)) (concat (map event_writes es)) (staged_get (sg_queue g)))"
proof -
  have wf: "staging_wf g" using assms by (simp add: staging_wf_def)
  have writes: "map_writes ws m = fold (\<lambda>w m. m(write_key w := write_val w)) ws m" for ws :: "(int, staged) store_op list" and m
    unfolding map_writes_def by (rule arg_cong [where f = "\<lambda>g. fold g ws m"]) (simp add: map_write_def fun_eq_iff)
  note sim = run_clicks_simulates [OF wf, of es, unfolded staging_wf_def staging_maps_def]
  then have "staged_get (sg_queue (run_clicks es g)) = fst (fold map_event es (staged_get (sg_queue g), staged_get (sg_shown g)))"
    by (metis fst_conv)
  with sim settled_maps [of "sg_shown g = sg_queue g" es] show ?thesis by (simp add: writes)
qed

theorem staged_queue_is_a_map_witness:
  "staged_get (sg_queue (run_clicks [Rendered, Slot_Click (Put 3 (Load ''A00001L8'')), Rendered, Slot_Click (Put 4 Pickup),
     Outside_Drop 5, Rendered, Slot_Click (Drop 4)] \<lparr>sg_queue = [], sg_shown = []\<rparr>)) = [3 \<mapsto> Load ''A00001L8'', 5 \<mapsto> Pickup]"
  using staged_queue_is_a_map [of "\<lparr>sg_queue = [], sg_shown = []\<rparr>" "[Rendered, Slot_Click (Put 3 (Load ''A00001L8'')), Rendered,
     Slot_Click (Put 4 Pickup), Outside_Drop 5, Rendered, Slot_Click (Drop 4)]"]
  by (auto simp: staged_get_None fun_eq_iff)

end
