(* ===== verification/Door_Commit.thy ===== *)
theory Door_Commit
  imports Staged_Queue
begin

text \<open>
  The other end of the staged queue: \<open>applyStorageActionsLocked\<close> of internal/library/library.go, which
  the server runs when a storage door closes with the queue the user interface sent. It simulates the
  actions on copies of the slot contents and the outside inventory, stops at the first action it
  cannot do, and commits only when all of them can be done: the inventory is rebuilt from the copy, sorted by
  barcode, and every slot takes its content from the copy. The emitted events are left out: they
  change nothing the actions read.
\<close>

text \<open>What the simulation reads and writes: slot addresses with their magazine, slot contents, the
  outside inventory by barcode.\<close>

record shelf =
  sh_magazine :: "int \<rightharpoonup> string"
  sh_volume :: "int \<Rightarrow> volume option"
  sh_outside :: "string \<rightharpoonup> volume"

datatype door_error = LabelRequired | NoSuchSlot | WrongMagazine | NotOutside | SlotFull | SlotEmpty
  | AlreadyOutside | UnknownAction string

definition sim_action :: "string \<Rightarrow> door_action \<Rightarrow> shelf \<Rightarrow> door_error + shelf" where
  "sim_action mag a sh =
     (if qa_action a = ''load'' then
        if qa_barcode a = [] then Inl LabelRequired
        else (case sh_magazine sh (qa_address a) of
            None \<Rightarrow> Inl NoSuchSlot
          | Some m \<Rightarrow>
              if m \<noteq> mag then Inl WrongMagazine
              else (case sh_outside sh (qa_barcode a) of
                  None \<Rightarrow> Inl NotOutside
                | Some vol \<Rightarrow>
                    if sh_volume sh (qa_address a) \<noteq> None then Inl SlotFull
                    else Inr (sh\<lparr>sh_volume := (sh_volume sh)(qa_address a := Some vol),
                                 sh_outside := (sh_outside sh)(qa_barcode a := None)\<rparr>)))
      else if qa_action a = ''pickup'' then
        (case sh_magazine sh (qa_address a) of
            None \<Rightarrow> Inl NoSuchSlot
          | Some m \<Rightarrow>
              if m \<noteq> mag then Inl WrongMagazine
              else (case sh_volume sh (qa_address a) of
                  None \<Rightarrow> Inl SlotEmpty
                | Some vol \<Rightarrow>
                    if sh_outside sh (barcode vol) \<noteq> None then Inl AlreadyOutside
                    else Inr (sh\<lparr>sh_outside := (sh_outside sh)(barcode vol \<mapsto> vol),
                                 sh_volume := (sh_volume sh)(qa_address a := None)\<rparr>)))
      else Inl (UnknownAction (qa_action a)))"

text \<open>The simulation loop; an error carries the 1-based position of the action.\<close>

fun sim_actions :: "string \<Rightarrow> nat \<Rightarrow> door_action list \<Rightarrow> shelf \<Rightarrow> (nat \<times> door_error) + shelf" where
  "sim_actions mag i [] sh = Inr sh"
| "sim_actions mag i (a # as) sh =
     (case sim_action mag a sh of Inl e \<Rightarrow> Inl (i, e) | Inr sh' \<Rightarrow> sim_actions mag (Suc i) as sh')"

text \<open>The outcome on the copies: unchanged on an error, the simulated one otherwise.\<close>

definition applyStorageActions :: "string \<Rightarrow> door_queue \<Rightarrow> shelf \<Rightarrow> ((nat \<times> door_error) option \<times> shelf)" where
  "applyStorageActions mag as sh =
     (case sim_actions mag 1 as sh of Inl e \<Rightarrow> (Some e, sh) | Inr sh' \<Rightarrow> (None, sh'))"

text \<open>
  The library's own state: the slots and the outside inventory are lists. \<open>copies\<close> are the maps the call starts from;
  in both, a later entry replaces an earlier one with the same key, and \<open>findSlot\<close> gives the first slot with an address.
\<close>

record bay_store =
  st_slots :: "slot list"
  st_outside :: "volume list"

definition findSlot :: "slot list \<Rightarrow> int \<Rightarrow> slot option" where
  "findSlot ss a = js_find (\<lambda>s. slot_address s = a) ss"

definition slot_contents :: "slot list \<Rightarrow> int \<Rightarrow> volume option" where
  "slot_contents ss = fold (\<lambda>s f. f(slot_address s := slot_volume s)) ss (\<lambda>_. None)"

definition outside_by_barcode :: "volume list \<Rightarrow> string \<rightharpoonup> volume" where
  "outside_by_barcode vs = fold (\<lambda>v f. f(barcode v \<mapsto> v)) vs Map.empty"

definition copies :: "bay_store \<Rightarrow> shelf" where
  "copies st = \<lparr>sh_magazine = (\<lambda>a. map_option magazine_id (findSlot (st_slots st) a)),
     sh_volume = slot_contents (st_slots st), sh_outside = outside_by_barcode (st_outside st)\<rparr>"

text \<open>The values of the map, in the order of their barcodes, which are its keys.\<close>

definition outside_list :: "(string \<rightharpoonup> volume) \<Rightarrow> volume list" where
  "outside_list m = map (the \<circ> m) (sorted_list_of_set (dom m))"

definition commit :: "shelf \<Rightarrow> bay_store \<Rightarrow> bay_store" where
  "commit sh st = \<lparr>st_slots = map (\<lambda>s. s\<lparr>slot_volume := sh_volume sh (slot_address s)\<rparr>) (st_slots st),
     st_outside = outside_list (sh_outside sh)\<rparr>"

definition applyStorageActionsLocked :: "string \<Rightarrow> door_queue \<Rightarrow> bay_store \<Rightarrow> (nat \<times> door_error) option \<times> bay_store" where
  "applyStorageActionsLocked mag as st =
     (case sim_actions mag 1 as (copies st) of Inl e \<Rightarrow> (Some e, st) | Inr sh \<Rightarrow> (None, commit sh st))"

section \<open>Cartridges are moved, never lost or duplicated\<close>

text \<open>Addresses are unique, and so are the barcodes of the inventory.\<close>

definition store_wf :: "bay_store \<Rightarrow> bool" where
  "store_wf st \<longleftrightarrow> distinct (map slot_address (st_slots st)) \<and> distinct (map barcode (st_outside st))"

text \<open>Every cartridge, as often as it is there.\<close>

definition cartridges :: "bay_store \<Rightarrow> volume multiset" where
  "cartridges st = mset (List.map_filter slot_volume (st_slots st)) + mset (st_outside st)"

text \<open>The same for the copies, over the addresses \<open>as\<close>.\<close>

definition shelf_wf :: "shelf \<Rightarrow> bool" where
  "shelf_wf sh \<longleftrightarrow> finite (dom (sh_outside sh)) \<and> (\<forall>b v. sh_outside sh b = Some v \<longrightarrow> barcode v = b)"

definition shelf_cartridges :: "int list \<Rightarrow> shelf \<Rightarrow> volume multiset" where
  "shelf_cartridges as sh = mset (List.map_filter (sh_volume sh) as) + mset (outside_list (sh_outside sh))"

lemma sim_action_magazine: "sim_action mag a sh = Inr sh' \<Longrightarrow> sh_magazine sh' = sh_magazine sh"
  by (auto simp: sim_action_def split: if_splits option.splits)

lemma mset_map_filter_upd:
  assumes "distinct as" and "a \<in> set as"
  shows "mset (List.map_filter (f(a := v)) as) + (case f a of None \<Rightarrow> {#} | Some x \<Rightarrow> {#x#}) =
     mset (List.map_filter f as) + (case v of None \<Rightarrow> {#} | Some x \<Rightarrow> {#x#})"
  using assms
proof (induction as)
  case (Cons b bs)
  show ?case
  proof (cases "a = b")
    case True
    with Cons.prems have "List.map_filter (f(a := v)) bs = List.map_filter f bs"
      unfolding List.map_filter_def by (intro map_cong filter_cong arg_cong2 [where f = map]) auto
    with True show ?thesis by (auto simp: List.map_filter_simps fun_upd_def split: option.split)
  next
    case False
    with Cons show ?thesis by (simp add: List.map_filter_simps split: option.split)
  qed
qed simp

lemma mset_outside_list: "finite (dom m) \<Longrightarrow> mset (outside_list m) = image_mset (the \<circ> m) (mset_set (dom m))"
  using mset_set_set [of "sorted_list_of_set (dom m)"] by (simp add: outside_list_def)

lemma outside_list_upd:
  assumes "finite (dom m)" and "b \<notin> dom m"
  shows "mset (outside_list (m(b \<mapsto> v))) = add_mset v (mset (outside_list m))"
proof -
  have "image_mset (the \<circ> m(b \<mapsto> v)) (mset_set (dom m)) = image_mset (the \<circ> m) (mset_set (dom m))"
    by (rule image_mset_cong) (use assms in auto)
  with assms show ?thesis by (simp add: mset_outside_list)
qed

lemma outside_list_del:
  assumes "finite (dom m)" and "m b = Some v"
  shows "add_mset v (mset (outside_list (m(b := None)))) = mset (outside_list m)"
proof -
  have "m = (m(b := None))(b \<mapsto> v)" using assms(2) by auto
  moreover have "finite (dom (m(b := None)))" "b \<notin> dom (m(b := None))" using assms(1) by auto
  ultimately show ?thesis by (metis outside_list_upd)
qed

lemma sim_action_cartridges:
  assumes "sim_action mag a sh = Inr sh'" and "shelf_wf sh" and "distinct as" and "\<forall>x. sh_magazine sh x \<noteq> None \<longrightarrow> x \<in> set as"
  shows "shelf_wf sh' \<and> shelf_cartridges as sh' = shelf_cartridges as sh"
proof (cases "qa_action a = ''load''")
  case True
  with assms(1) obtain vol where vol: "sh_outside sh (qa_barcode a) = Some vol"
      "sh_volume sh (qa_address a) = None" "sh_magazine sh (qa_address a) \<noteq> None"
      "sh' = sh\<lparr>sh_volume := (sh_volume sh)(qa_address a := Some vol),
                sh_outside := (sh_outside sh)(qa_barcode a := None)\<rparr>"
    by (auto simp: sim_action_def split: if_splits option.splits)
  have "add_mset vol (mset (outside_list ((sh_outside sh)(qa_barcode a := None)))) = mset (outside_list (sh_outside sh))"
    using outside_list_del vol(1) assms(2) by (simp add: shelf_wf_def)
  moreover have "mset (List.map_filter ((sh_volume sh)(qa_address a := Some vol)) as) = add_mset vol (mset (List.map_filter (sh_volume sh) as))"
    using mset_map_filter_upd [OF assms(3), of "qa_address a" "sh_volume sh" "Some vol"] vol(2,3) assms(4) by simp
  ultimately show ?thesis using vol(4) assms(2)
    by (simp add: shelf_cartridges_def shelf_wf_def flip: union_mset_add_mset_right)
next
  case False
  with assms(1) obtain vol where vol: "sh_volume sh (qa_address a) = Some vol"
      "sh_outside sh (barcode vol) = None" "sh_magazine sh (qa_address a) \<noteq> None"
      "sh' = sh\<lparr>sh_outside := (sh_outside sh)(barcode vol \<mapsto> vol),
                sh_volume := (sh_volume sh)(qa_address a := None)\<rparr>"
    by (auto simp: sim_action_def split: if_splits option.splits)
  have "mset (outside_list ((sh_outside sh)(barcode vol \<mapsto> vol))) = add_mset vol (mset (outside_list (sh_outside sh)))"
    using outside_list_upd vol(2) assms(2) by (simp add: shelf_wf_def domIff)
  moreover have "add_mset vol (mset (List.map_filter ((sh_volume sh)(qa_address a := None)) as)) = mset (List.map_filter (sh_volume sh) as)"
    using mset_map_filter_upd [OF assms(3), of "qa_address a" "sh_volume sh" None] vol(1,3) assms(4) by simp
  ultimately show ?thesis using vol(4) assms(2)
    by (auto simp: shelf_cartridges_def shelf_wf_def simp flip: union_mset_add_mset_left)
qed

lemma sim_actions_cartridges:
  "sim_actions mag i as sh = Inr sh' \<Longrightarrow> shelf_wf sh \<Longrightarrow> distinct xs \<Longrightarrow> \<forall>x. sh_magazine sh x \<noteq> None \<longrightarrow> x \<in> set xs \<Longrightarrow>
     shelf_wf sh' \<and> shelf_cartridges xs sh' = shelf_cartridges xs sh"
proof (induction mag i as sh rule: sim_actions.induct)
  case (2 mag i a as sh)
  from 2(2) obtain sh1 where sh1: "sim_action mag a sh = Inr sh1" "sim_actions mag (Suc i) as sh1 = Inr sh'"
    by (auto split: sum.splits)
  from sim_action_cartridges [OF sh1(1) 2(3-5)] sim_action_magazine [OF sh1(1)] 2(1) [OF sh1(1,2)] 2(4,5)
  show ?case by simp
qed simp

text \<open>The copies hold what the lists do.\<close>

lemma slot_contents_nth:
  assumes "distinct (map slot_address ss)" and "s \<in> set ss"
  shows "slot_contents ss (slot_address s) = slot_volume s"
proof -
  have other: "fold (\<lambda>s f. f(slot_address s := slot_volume s)) xs f a = f a" if "a \<notin> slot_address ` set xs" for xs f a
    using that by (induction xs arbitrary: f) auto
  have "fold (\<lambda>s f. f(slot_address s := slot_volume s)) ss f (slot_address s) = slot_volume s" for f
    using assms by (induction ss arbitrary: f) (auto simp: other)
  then show ?thesis by (simp add: slot_contents_def)
qed

lemma outside_by_barcode_map: "distinct (map barcode vs) \<Longrightarrow> outside_by_barcode vs = map_of (map (\<lambda>v. (barcode v, v)) vs)"
proof -
  have "fold (\<lambda>v f. f(barcode v \<mapsto> v)) vs m = m ++ map_of (map (\<lambda>v. (barcode v, v)) vs)" if "distinct (map barcode vs)" for m
    using that
  proof (induction vs arbitrary: m)
    case (Cons v vs)
    then have "map_of (map (\<lambda>v. (barcode v, v)) vs) (barcode v) = None" by (auto simp: map_of_eq_None_iff)
    then have "m(barcode v \<mapsto> v) ++ map_of (map (\<lambda>v. (barcode v, v)) vs) = m ++ (map_of (map (\<lambda>v. (barcode v, v)) vs))(barcode v \<mapsto> v)"
      by (simp add: map_add_upd_left domIff)
    with Cons show ?case by (simp add: fun_upd_def)
  qed simp
  then show "distinct (map barcode vs) \<Longrightarrow> ?thesis" by (simp add: outside_by_barcode_def)
qed

lemma outside_list_copies:
  assumes "distinct (map barcode vs)"
  shows "mset (outside_list (outside_by_barcode vs)) = mset vs"
proof -
  let ?m = "map_of (map (\<lambda>v. (barcode v, v)) vs)"
  have d: "dom ?m = barcode ` set vs" by (force simp: dom_map_of_conv_image_fst)
  have "mset_set (dom ?m) = mset (map barcode vs)"
    unfolding d using assms by (simp add: mset_set_set flip: set_map)
  moreover have "image_mset (the \<circ> ?m) (mset (map barcode vs)) = mset vs"
  proof -
    have "(the \<circ> ?m) (barcode v) = v" if "v \<in> set vs" for v
      using that assms by (subst comp_apply, subst map_of_is_SomeI) (auto simp: comp_def)
    then have "map (the \<circ> ?m) (map barcode vs) = vs" by (auto intro!: map_idI simp: comp_def)
    then show ?thesis by (metis mset_map)
  qed
  ultimately show ?thesis using mset_outside_list [of ?m] d by (simp add: outside_by_barcode_map [OF assms])
qed

lemma map_filter_via_map: "map f xs = map g ys \<Longrightarrow> List.map_filter f xs = List.map_filter g ys"
proof -
  have "List.map_filter f xs = List.map_filter id (map f xs)" for f and xs :: "'x list"
    by (induction xs) (simp_all add: List.map_filter_simps split: option.split)
  then show "map f xs = map g ys \<Longrightarrow> ?thesis" by metis
qed

text \<open>What a committed simulation gives.\<close>

lemma simulated:
  assumes "sim_actions mag 1 as (copies st) = Inr sh" and "store_wf st"
  shows "cartridges (commit sh st) = cartridges st \<and> store_wf (commit sh st) \<and> sorted (map barcode (st_outside (commit sh st)))"
proof -
  let ?as = "map slot_address (st_slots st)"
  have wf: "shelf_wf (copies st)"
    using assms(2) by (auto simp: shelf_wf_def copies_def store_wf_def outside_by_barcode_map finite_dom_map_of dest!: map_of_SomeD)
  have "\<forall>x. sh_magazine (copies st) x \<noteq> None \<longrightarrow> x \<in> set ?as"
    by (auto simp: copies_def findSlot_def js_find_def find_Some_iff)
  with assms wf have sh: "shelf_wf sh" "shelf_cartridges ?as sh = shelf_cartridges ?as (copies st)"
    using sim_actions_cartridges [of mag 1 as "copies st" sh ?as] by (auto simp: store_wf_def)
  have keys: "map barcode (outside_list (sh_outside sh)) = sorted_list_of_set (dom (sh_outside sh))"
    using sh(1) by (auto simp: outside_list_def shelf_wf_def intro!: map_idI)
  have slots: "List.map_filter slot_volume (map (\<lambda>s. s\<lparr>slot_volume := f (slot_address s)\<rparr>) ss) = List.map_filter f (map slot_address ss)" for f ss
    by (induction ss) (simp_all add: List.map_filter_simps split: option.split)
  have "map (slot_contents (st_slots st)) ?as = map slot_volume (st_slots st)"
    using assms(2) slot_contents_nth by (auto simp: store_wf_def)
  then have "List.map_filter (slot_contents (st_slots st)) ?as = List.map_filter slot_volume (st_slots st)"
    by (metis map_filter_via_map)
  then have "cartridges st = shelf_cartridges ?as (copies st)"
    using assms(2) outside_list_copies by (simp add: cartridges_def shelf_cartridges_def copies_def store_wf_def)
  with sh(2) keys assms(2) show ?thesis
    by (simp add: cartridges_def commit_def slots shelf_cartridges_def store_wf_def comp_def)
qed

section \<open>A bulk load commits\<close>

definition load_entry :: "string \<Rightarrow> slot \<Rightarrow> door_action" where
  "load_entry bc s = \<lparr>qa_action = ''load'', qa_address = slot_address s, qa_barcode = bc\<rparr>"

lemma queueAction_fresh:
  "\<forall>e\<in>set q. qa_address e \<noteq> a \<Longrightarrow> act \<noteq> [] \<Longrightarrow>
     queueAction q act a bc = q @ [\<lparr>qa_action = act, qa_address = a, qa_barcode = bc\<rparr>]"
  by (simp add: queueAction_def Let_def filter_id_conv)

lemma fold_stage_fresh:
  "distinct (map qa_address q @ map (\<lambda>(bc, s). slot_address s) bss) \<Longrightarrow>
     fold (\<lambda>(bc, s) u. queueAction u ''load'' (slot_address s) bc) bss q
       = q @ map (\<lambda>(bc, s). load_entry bc s) bss"
proof (induction bss arbitrary: q)
  case Nil
  then show ?case by simp
next
  case (Cons x bss)
  obtain bc s where x: "x = (bc, s)" by force
  have "\<forall>e\<in>set q. qa_address e \<noteq> slot_address s" using Cons.prems by (force simp: x)
  then have "queueAction q ''load'' (slot_address s) bc = q @ [load_entry bc s]"
    by (simp add: queueAction_fresh load_entry_def)
  then show ?case
    using Cons.IH [of "q @ [load_entry bc s]"] Cons.prems by (simp add: x load_entry_def)
qed

lemma zip_take_min: "zip (take (min (length ys) (length xs)) xs) (take (length xs) ys) = zip xs ys"
  by (rule nth_equalityI) auto

lemma bulkLoadQueue_entries:
  assumes "distinct (map slot_address free)"
  shows "bulkLoadQueue [] free bcs = map (\<lambda>(bc, s). load_entry bc s) (zip bcs free)"
proof -
  have "map (\<lambda>(bc, s). slot_address s) (zip bcs free) = take (length bcs) (map slot_address free)"
    by (rule nth_equalityI) auto
  then have "distinct (map (\<lambda>(bc, s). slot_address s) (zip bcs free))"
    using assms by (simp add: distinct_take)
  then show ?thesis
    by (simp add: bulkLoadQueue_def Let_def fold_stage_fresh zip_take_min)
qed

lemma sim_load_entries:
  assumes "distinct (map fst bss)" and "distinct (map (slot_address \<circ> snd) bss)"
    and "\<forall>(bc, s)\<in>set bss. bc \<noteq> [] \<and> sh_outside sh bc \<noteq> None \<and>
           sh_magazine sh (slot_address s) = Some mag \<and> sh_volume sh (slot_address s) = None"
  shows "\<exists>sh'. sim_actions mag i (map (\<lambda>(bc, s). load_entry bc s) bss) sh = Inr sh' \<and>
           (\<forall>(bc, s)\<in>set bss. sh_volume sh' (slot_address s) = sh_outside sh bc \<and> sh_outside sh' bc = None) \<and>
           (\<forall>a. a \<notin> slot_address ` snd ` set bss \<longrightarrow> sh_volume sh' a = sh_volume sh a) \<and>
           (\<forall>b. b \<notin> fst ` set bss \<longrightarrow> sh_outside sh' b = sh_outside sh b)"
  using assms
proof (induction bss arbitrary: sh i)
  case Nil
  then show ?case by simp
next
  case (Cons x bss)
  obtain bc s where x: "x = (bc, s)" by force
  obtain vol where vol: "sh_outside sh bc = Some vol" using Cons.prems by (auto simp: x)
  let ?sh1 = "sh\<lparr>sh_volume := (sh_volume sh)(slot_address s := Some vol),
                 sh_outside := (sh_outside sh)(bc := None)\<rparr>"
  have sim: "sim_action mag (load_entry bc s) sh = Inr ?sh1"
    using Cons.prems vol by (auto simp: x sim_action_def load_entry_def)
  have fresh: "bc \<notin> fst ` set bss" "slot_address s \<notin> (\<lambda>p. slot_address (snd p)) ` set bss"
    using Cons.prems by (auto simp: x)
  have other: "b \<noteq> bc" "slot_address t \<noteq> slot_address s" if "(b, t) \<in> set bss" for b t
    using fresh that by (metis fst_conv imageI, metis imageI snd_conv)
  have pre: "\<forall>(bc, s)\<in>set bss. bc \<noteq> [] \<and> sh_outside ?sh1 bc \<noteq> None \<and>
           sh_magazine ?sh1 (slot_address s) = Some mag \<and> sh_volume ?sh1 (slot_address s) = None"
    using Cons.prems(3) other by (auto simp: x)
  obtain sh' where sh': "sim_actions mag (Suc i) (map (\<lambda>(bc, s). load_entry bc s) bss) ?sh1 = Inr sh'"
      and *: "\<forall>(bc, s)\<in>set bss. sh_volume sh' (slot_address s) = sh_outside ?sh1 bc \<and> sh_outside sh' bc = None"
      and keep: "\<forall>a. a \<notin> slot_address ` snd ` set bss \<longrightarrow> sh_volume sh' a = sh_volume ?sh1 a"
        "\<forall>b. b \<notin> fst ` set bss \<longrightarrow> sh_outside sh' b = sh_outside ?sh1 b"
    using Cons.IH [OF _ _ pre, of "Suc i"] Cons.prems(1,2) by auto
  have "sh_volume sh' (slot_address s) = Some vol" "sh_outside sh' bc = None"
    using keep fresh by (simp_all add: image_image)
  moreover have "\<forall>(b, t)\<in>set bss. sh_volume sh' (slot_address t) = sh_outside sh b \<and> sh_outside sh' b = None"
    using * other by auto
  ultimately have "\<forall>(b, t)\<in>set (x # bss). sh_volume sh' (slot_address t) = sh_outside sh b \<and> sh_outside sh' b = None"
    using vol by (simp add: x)
  moreover have "sim_actions mag i (map (\<lambda>(bc, s). load_entry bc s) (x # bss)) sh = Inr sh'"
    using sim sh' by (simp add: x)
  moreover have "\<forall>a. a \<notin> slot_address ` snd ` set (x # bss) \<longrightarrow> sh_volume sh' a = sh_volume sh a"
    using keep(1) by (simp add: x)
  moreover have "\<forall>b. b \<notin> fst ` set (x # bss) \<longrightarrow> sh_outside sh' b = sh_outside sh b"
    using keep(2) by (simp add: x)
  ultimately show ?case by blast
qed

section \<open>Properties\<close>

text \<open>
  C20: A bulk load staged by the dashboard commits: with nothing staged before, distinct cartridges from the
  outside inventory and the magazine's slots as the status shows them, closing the door applies every staged
  load. The i-th selected cartridge ends up in the i-th empty slot by address and leaves the outside
  inventory, and no other slot changes.
\<close>

theorem bulk_load_commits:
  assumes "distinct (map slot_address ss)" and "distinct bcs" and "length bcs \<le> length (bulkEmptySlots [] ss)"
    and "\<forall>s\<in>set ss. sh_magazine sh (slot_address s) = Some mag \<and> sh_volume sh (slot_address s) = slot_volume s"
    and "\<forall>b\<in>set bcs. b \<noteq> [] \<and> sh_outside sh b \<noteq> None"
  shows "\<exists>sh'. applyStorageActions mag (bulkLoadQueue [] (bulkEmptySlots [] ss) bcs) sh = (None, sh') \<and>
     (\<forall>i<length bcs. sh_volume sh' (slot_address (bulkEmptySlots [] ss ! i)) = sh_outside sh (bcs ! i) \<and>
        sh_outside sh' (bcs ! i) = None) \<and>
     (\<forall>a. a \<notin> slot_address ` set (take (length bcs) (bulkEmptySlots [] ss)) \<longrightarrow> sh_volume sh' a = sh_volume sh a)"
proof -
  let ?free = "bulkEmptySlots [] ss" and ?bss = "zip bcs (bulkEmptySlots [] ss)"
  have d: "distinct (map slot_address ?free)" using assms(1) by (rule bulkEmptySlots_distinct)
  have fsts: "map fst ?bss = bcs" using assms(3) by (simp add: map_fst_zip_take)
  have snds: "map snd ?bss = take (length bcs) ?free" using assms(3) by (simp add: map_snd_zip_take min_def)
  have "map (slot_address \<circ> snd) ?bss = map slot_address (map snd ?bss)" by simp
  then have "distinct (map (slot_address \<circ> snd) ?bss)"
    unfolding snds using d by (simp add: distinct_take flip: take_map)
  moreover have "distinct (map fst ?bss)" using assms(2) fsts by simp
  moreover have "\<forall>(bc, s)\<in>set ?bss. bc \<noteq> [] \<and> sh_outside sh bc \<noteq> None \<and>
      sh_magazine sh (slot_address s) = Some mag \<and> sh_volume sh (slot_address s) = None"
  proof (clarify, intro conjI)
    fix bc s
    assume bs: "(bc, s) \<in> set ?bss"
    then have "s \<in> set ?free" "bc \<in> set bcs" by (auto dest: set_zip_leftD set_zip_rightD)
    then have "s \<in> set ss" "slot_volume s = None" "bc \<in> set bcs" using bulkEmptySlots_free by auto
    with assms(4,5) show "bc \<noteq> []" "sh_outside sh bc \<noteq> None" "sh_magazine sh (slot_address s) = Some mag"
      "sh_volume sh (slot_address s) = None" by auto
  qed
  ultimately obtain sh' where sim: "sim_actions mag 1 (map (\<lambda>(bc, s). load_entry bc s) ?bss) sh = Inr sh'"
    and each: "\<forall>(bc, s)\<in>set ?bss. sh_volume sh' (slot_address s) = sh_outside sh bc \<and> sh_outside sh' bc = None"
    and keep: "\<forall>a. a \<notin> slot_address ` snd ` set ?bss \<longrightarrow> sh_volume sh' a = sh_volume sh a"
    using sim_load_entries [of ?bss sh mag 1] by blast
  have "applyStorageActions mag (bulkLoadQueue [] ?free bcs) sh = (None, sh')"
    using sim by (simp add: applyStorageActions_def bulkLoadQueue_entries [OF d])
  moreover have "sh_volume sh' (slot_address (?free ! i)) = sh_outside sh (bcs ! i) \<and> sh_outside sh' (bcs ! i) = None"
    if "i < length bcs" for i
  proof -
    have "(bcs ! i, ?free ! i) \<in> set ?bss"
      using that assms(3) nth_mem [of i ?bss] by simp
    with each show ?thesis by auto
  qed
  moreover have "snd ` set ?bss = set (take (length bcs) ?free)"
    using snds by (metis list.set_map)
  ultimately show ?thesis using keep by auto
qed

definition sample_volume :: "string \<Rightarrow> volume" where
  "sample_volume b = \<lparr>barcode = b, tape_set = ''TapeSet1'', capacity_bytes = 0, written_bytes = 0, full = False,
     write_protected = False, cleaning = False, cleaning_state = [], cleaning_usage_count = 0,
     number_of_partitions = 1, load_count = 0, application_vendor = [], application_name = [],
     application_version = [], user_medium_text_label = [], encrypted = False\<rparr>"

definition sample_slot :: "int \<Rightarrow> volume option \<Rightarrow> slot" where
  "sample_slot a v = \<lparr>slot_address = a, slot_label = [], magazine_id = ''M1'', slot_volume = v\<rparr>"

definition sample_shelf :: shelf where
  "sample_shelf = \<lparr>sh_magazine = (\<lambda>a. if a = 1 \<or> a = 2 then Some ''M1'' else None), sh_volume = (\<lambda>a. None),
     sh_outside = [''A1'' \<mapsto> sample_volume ''A1'', ''A2'' \<mapsto> sample_volume ''A2'']\<rparr>"

definition sample_store :: bay_store where
  "sample_store = \<lparr>st_slots = [sample_slot 1 None, sample_slot 2 None], st_outside = [sample_volume ''A1'', sample_volume ''A2'']\<rparr>"

lemma sample_empty_slots: "bulkEmptySlots [] [sample_slot 2 None, sample_slot 1 None] = [sample_slot 1 None, sample_slot 2 None]"
  by (simp add: bulkEmptySlots_def sample_slot_def)

theorem bulk_load_commits_witness:
  "\<exists>sh'. applyStorageActions ''M1'' (bulkLoadQueue [] (bulkEmptySlots [] [sample_slot 2 None, sample_slot 1 None]) [''A2'', ''A1'']) sample_shelf =
     (None, sh') \<and> (\<forall>i<2. sh_volume sh' (slot_address ([sample_slot 1 None, sample_slot 2 None] ! i)) =
        sh_outside sample_shelf ([''A2'', ''A1''] ! i))"
proof -
  have "distinct (map slot_address [sample_slot 2 None, sample_slot 1 None])" "distinct [''A2'', ''A1'']"
    "length [''A2'', ''A1''] \<le> length (bulkEmptySlots [] [sample_slot 2 None, sample_slot 1 None])"
    unfolding sample_empty_slots by (simp_all add: sample_slot_def)
  moreover have "\<forall>s\<in>set [sample_slot 2 None, sample_slot 1 None]. sh_magazine sample_shelf (slot_address s) = Some ''M1'' \<and>
      sh_volume sample_shelf (slot_address s) = slot_volume s"
    "\<forall>b\<in>set [''A2'', ''A1'']. b \<noteq> [] \<and> sh_outside sample_shelf b \<noteq> None"
    by (simp_all add: sample_shelf_def sample_slot_def)
  ultimately show ?thesis
    using bulk_load_commits [of "[sample_slot 2 None, sample_slot 1 None]" "[''A2'', ''A1'']" sample_shelf "''M1''"]
    by (auto simp: sample_empty_slots)
qed

text \<open>
  C3: Closing a storage door never loses or duplicates a cartridge, whatever queue the browser sends: every cartridge is
  there afterwards exactly as often as before, in a slot or outside. The slots keep their addresses and magazines, the
  inventory keeps its barcodes unique and is sorted by them, and when any action cannot be done nothing changes at all.
\<close>

theorem door_close_conserves_cartridges:
  assumes "store_wf st" and "applyStorageActionsLocked mag as st = (r, st')"
  shows "cartridges st' = cartridges st \<and> store_wf st' \<and>
     map (\<lambda>s. (slot_address s, magazine_id s)) (st_slots st') = map (\<lambda>s. (slot_address s, magazine_id s)) (st_slots st) \<and>
     (if r = None then sorted (map barcode (st_outside st')) else st' = st)"
proof (cases "sim_actions mag 1 as (copies st)")
  case (Inl e)
  then show ?thesis using assms by (auto simp: applyStorageActionsLocked_def)
next
  case (Inr sh)
  with assms have st': "st' = commit sh st" "r = None" by (auto simp: applyStorageActionsLocked_def)
  from simulated [OF Inr assms(1)] show ?thesis by (simp add: st' commit_def comp_def)
qed

theorem door_close_conserves_cartridges_witness:
  "cartridges (snd (applyStorageActionsLocked ''M1'' [\<lparr>qa_action = ''load'', qa_address = 1, qa_barcode = ''A1''\<rparr>] sample_store)) =
     {#sample_volume ''A1'', sample_volume ''A2''#}"
proof -
  have "store_wf sample_store" by (simp add: store_wf_def sample_store_def sample_volume_def sample_slot_def)
  from door_close_conserves_cartridges [OF this surjective_pairing] show ?thesis
    by (simp add: cartridges_def [of sample_store]) (simp add: sample_store_def sample_slot_def List.map_filter_simps)
qed

end
