(* ===== verification/Move_Options.thy ===== *)
theory Move_Options
  imports Api_Types
begin

text \<open>
  The choices a Move, Load or Unload dialog offers (\<open>outsideOptions\<close>, \<open>driveOptions\<close>,
  \<open>emptySlotOptions\<close>, \<open>unloadDestinationOptions\<close> and the reader \<open>parseMoveTarget\<close> of app.js), and the
  server's family check in \<open>Library.Load\<close> that \<open>familiesCompatible\<close> mirrors.
\<close>

record choice =
  ch_value :: string
  ch_label :: string
  ch_disabled :: bool

definition choice :: "string \<Rightarrow> string \<Rightarrow> choice" where
  "choice v l = \<lparr>ch_value = v, ch_label = l, ch_disabled = False\<rparr>"

text \<open>\<open>(state.status && state.status.f) || []\<close>.\<close>

definition status_list :: "(status \<Rightarrow> 'a list option) \<Rightarrow> ('x) app_scheme \<Rightarrow> 'a list" where
  "status_list f s = (case status_of s of None \<Rightarrow> [] | Some st \<Rightarrow> or_nil (f st))"

definition outsideOptions :: "('x) app_scheme \<Rightarrow> choice list" where
  "outsideOptions s = map (\<lambda>v. choice (barcode v) (barcode v))
                        (sort_key barcode (status_list outside_volumes s))"

section \<open>Families\<close>

text \<open>A family that is missing or empty is falsy.\<close>

definition truthy :: "string option \<Rightarrow> bool" where
  "truthy f \<longleftrightarrow> (case f of None \<Rightarrow> False | Some x \<Rightarrow> x \<noteq> [])"

definition familiesCompatible :: "string option \<Rightarrow> string option \<Rightarrow> bool" where
  "familiesCompatible tapeFamily driveFamily =
     (if \<not> truthy tapeFamily \<or> \<not> truthy driveFamily then True
      else tapeFamily = Some ''generic'' \<or> driveFamily = Some ''generic'' \<or> tapeFamily = driveFamily)"

definition status_families :: "(status \<Rightarrow> (string \<rightharpoonup> string) option) \<Rightarrow> ('x) app_scheme \<Rightarrow> (string \<rightharpoonup> string)" where
  "status_families f s =
     (case status_of s of None \<Rightarrow> Map.empty
      | Some st \<Rightarrow> (case f st of None \<Rightarrow> Map.empty | Some m \<Rightarrow> m))"

definition candidate_drives :: "('x) app_scheme \<Rightarrow> volume option \<Rightarrow> drive list" where
  "candidate_drives s sourceVolume =
     (let tapeFamily = (case sourceVolume of
            Some v \<Rightarrow> if \<not> cleaning v then status_families tape_set_families s (tape_set v) else None
          | None \<Rightarrow> None)
      in sort_key drive_index
           (filter (\<lambda>d. familiesCompatible tapeFamily (status_families drive_type_families s (drive_type d)))
             (filter (\<lambda>d. drive_volume d = None \<and> \<not> fault d) (status_list drives s))))"

definition driveOptions :: "('x) app_scheme \<Rightarrow> volume option \<Rightarrow> choice list" where
  "driveOptions s sourceVolume =
     map (\<lambda>d. choice (drive_key (drive_index d)) (''Drive '' @ show_int (drive_index d)))
       (candidate_drives s sourceVolume)"

section \<open>Slots and I/O slots\<close>

definition slot_disp :: "slot \<Rightarrow> string" where
  "slot_disp s = or_else (slot_label s) (show_int (slot_address s))"

definition io_disp :: "ioslot \<Rightarrow> string" where
  "io_disp io = or_else (io_label io) (show_int (io_address io))"

definition emptySlotOptions :: "('x) app_scheme \<Rightarrow> choice list" where
  "emptySlotOptions s =
     map (\<lambda>sl. choice (slot_key (slot_address sl)) (''Slot '' @ slot_disp sl))
       (sort_key slot_address (filter (\<lambda>sl. slot_volume sl = None) (status_list slots s)))"

definition emptyIOSlotOptions :: "('x) app_scheme \<Rightarrow> choice list" where
  "emptyIOSlotOptions s =
     map (\<lambda>io. choice (ioslot_key (io_address io)) (''I/O Slot '' @ io_disp io))
       (sort_key io_address (filter (\<lambda>io. io_volume io = None) (status_list ioslots s)))"

definition nonDriveMoveDestinationOptions :: "('x) app_scheme \<Rightarrow> choice list" where
  "nonDriveMoveDestinationOptions s = emptySlotOptions s @ emptyIOSlotOptions s"

definition full_choice :: "string \<Rightarrow> string \<Rightarrow> string \<Rightarrow> bool \<Rightarrow> choice" where
  "full_choice val kind lbl is_full =
     \<lparr>ch_value = val, ch_label = (if is_full then kind @ lbl @ '' (full)'' else kind @ lbl),
      ch_disabled = is_full\<rparr>"

definition unloadDestinationOptions :: "('x) app_scheme \<Rightarrow> choice list" where
  "unloadDestinationOptions s =
     map (\<lambda>sl. full_choice (slot_key (slot_address sl)) ''Slot '' (slot_disp sl) (slot_volume sl \<noteq> None))
       (sort_key slot_address (status_list slots s)) @
     map (\<lambda>io. full_choice (ioslot_key (io_address io)) ''I/O Slot '' (io_disp io) (io_volume io \<noteq> None))
       (sort_key io_address (status_list ioslots s))"

text \<open>\<open>{kind, address}\<close>; the address is None for NaN. A text with no colon has no second part, and
  \<open>Number(undefined)\<close> is NaN.\<close>

definition parseMoveTarget :: "string \<Rightarrow> string \<times> int option" where
  "parseMoveTarget raw =
     (let parts = split_on CHR '':'' raw
      in (hd parts, if length parts < 2 then None else js_number (parts ! 1)))"

lemma parseMoveTarget_key:
  "CHR '':'' \<notin> set k \<Longrightarrow> parseMoveTarget (k @ CHR '':'' # show_int a) = (k, Some a)"
  by (simp add: parseMoveTarget_def split_on_sep split_on_absent colon_not_in_show_int)

lemma parseMoveTarget_keys [simp]:
  "parseMoveTarget (slot_key a) = (''slot'', Some a)"
  "parseMoveTarget (ioslot_key a) = (''ioslot'', Some a)"
  "parseMoveTarget (drive_key a) = (''drive'', Some a)"
  using parseMoveTarget_key [of "''slot''"] parseMoveTarget_key [of "''ioslot''"]
    parseMoveTarget_key [of "''drive''"]
  by (simp_all add: slot_key_def ioslot_key_def drive_key_def)

section \<open>The server's family check\<close>

text \<open>
  The catalog part of the server's configuration: drive types with their barcode family, tape types
  with theirs, tape sets with their tape type. \<open>known_family\<close> is what \<open>barcode.SpecFor\<close> accepts.
\<close>

record catalog =
  cat_drive_types :: "(string \<times> string) list"
  cat_tape_types :: "(string \<times> string) list"
  cat_tape_sets :: "(string \<times> string) list"

definition known_family :: "string \<Rightarrow> bool" where
  "known_family f \<longleftrightarrow> f \<in> {''lto'', ''dlt'', ''sdlt'', ''dds'', ''ait'', ''3592'', ''generic''}"

definition resolveTapeSetFamily :: "catalog \<Rightarrow> string \<Rightarrow> string option" where
  "resolveTapeSetFamily c name =
     (case map_of (cat_tape_sets c) name of None \<Rightarrow> None
      | Some tt \<Rightarrow> (case map_of (cat_tape_types c) tt of None \<Rightarrow> None
          | Some f \<Rightarrow> if known_family f then Some f else None))"

definition tapeFamilyLocked :: "catalog \<Rightarrow> volume \<Rightarrow> string option" where
  "tapeFamilyLocked c v = (if tape_set v = [] then None else resolveTapeSetFamily c (tape_set v))"

definition driveTypeFamilyLocked :: "catalog \<Rightarrow> string \<Rightarrow> string option" where
  "driveTypeFamilyLocked c dt =
     (if dt = [] then None
      else (case map_of (cat_drive_types c) dt of None \<Rightarrow> None | Some f \<Rightarrow> if f = [] then None else Some f))"

text \<open>The family test of \<open>Library.Load\<close>: True when it lets the load through.\<close>

definition load_family_ok :: "catalog \<Rightarrow> volume \<Rightarrow> drive \<Rightarrow> bool" where
  "load_family_ok c v d =
     (if cleaning v then True
      else (case driveTypeFamilyLocked c (drive_type d) of None \<Rightarrow> True
        | Some df \<Rightarrow> if df = ''generic'' then True
            else (case tapeFamilyLocked c v of None \<Rightarrow> True
              | Some tf \<Rightarrow> \<not> (tf \<noteq> ''generic'' \<and> tf \<noteq> df))))"

text \<open>The two maps of the status snapshot: a later entry of the list overwrites an earlier one.\<close>

definition tapeSetFamiliesLocked :: "catalog \<Rightarrow> (string \<rightharpoonup> string) option" where
  "tapeSetFamiliesLocked c =
     (if cat_tape_sets c = [] then None
      else Some (fold (\<lambda>(n, _) m. case resolveTapeSetFamily c n of Some f \<Rightarrow> m(n \<mapsto> f) | None \<Rightarrow> m)
                   (cat_tape_sets c) Map.empty))"

definition driveTypeFamiliesLocked :: "catalog \<Rightarrow> (string \<rightharpoonup> string) option" where
  "driveTypeFamiliesLocked c =
     (if cat_drive_types c = [] then None
      else Some (fold (\<lambda>(n, f) m. m(n \<mapsto> f)) (cat_drive_types c) Map.empty))"

lemma fold_resolve:
  "fold (\<lambda>(n, _) m. case r n of Some f \<Rightarrow> m(n \<mapsto> f) | None \<Rightarrow> m) xs m0 k =
     (if k \<in> fst ` set xs \<and> r k \<noteq> None then r k else m0 k)"
proof (induction xs arbitrary: m0)
  case Nil
  then show ?case by simp
next
  case (Cons x xs)
  obtain n t where x: "x = (n, t)" by force
  show ?case
    by (cases "r n") (auto simp: x Cons.IH)
qed

lemma fold_upd_distinct:
  "distinct (map fst xs) \<Longrightarrow> fold (\<lambda>(n, f) m. m(n \<mapsto> f)) xs m0 = m0 ++ map_of xs"
proof (induction xs arbitrary: m0)
  case Nil
  then show ?case by simp
next
  case (Cons x xs)
  obtain n f where x: "x = (n, f)" by force
  have "n \<notin> dom (map_of xs)" using Cons.prems by (simp add: x dom_map_of_conv_image_fst)
  moreover have "fold (\<lambda>(n, f) m. m(n \<mapsto> f)) xs (m0(n \<mapsto> f)) = m0(n \<mapsto> f) ++ map_of xs"
    by (rule Cons.IH) (use Cons.prems in \<open>simp add: x\<close>)
  ultimately show ?case
    by (simp add: x map_add_upd_left del: fun_upd_apply)
qed

lemma resolve_in_sets:
  "resolveTapeSetFamily c n = Some f \<Longrightarrow> n \<in> fst ` set (cat_tape_sets c)"
  by (auto simp: resolveTapeSetFamily_def split: option.splits dest: map_of_SomeD intro: rev_image_eqI)

lemma tapeSetFamiliesLocked_lookup:
  "(case tapeSetFamiliesLocked c of None \<Rightarrow> Map.empty | Some m \<Rightarrow> m) n = resolveTapeSetFamily c n"
  by (cases "resolveTapeSetFamily c n")
     (auto simp: tapeSetFamiliesLocked_def fold_resolve dest: resolve_in_sets)

lemma driveTypeFamiliesLocked_lookup:
  "distinct (map fst (cat_drive_types c)) \<Longrightarrow>
     (case driveTypeFamiliesLocked c of None \<Rightarrow> Map.empty | Some m \<Rightarrow> m) n = map_of (cat_drive_types c) n"
  by (auto simp: driveTypeFamiliesLocked_def fold_upd_distinct)

text \<open>On the families the server publishes, the client's test and the server's agree.\<close>

lemma families_agree:
  assumes "distinct (map fst (cat_drive_types c))"
    and "[] \<notin> fst ` set (cat_drive_types c)" and "[] \<notin> fst ` set (cat_tape_sets c)"
    and "\<not> cleaning v"
  shows "familiesCompatible (resolveTapeSetFamily c (tape_set v)) (map_of (cat_drive_types c) (drive_type d))
           = load_family_ok c v d"
proof -
  have "map_of (cat_drive_types c) [] = None" using assms(2) by (simp add: map_of_eq_None_iff)
  moreover have "resolveTapeSetFamily c [] = None"
    using assms(3) by (metis not_None_eq resolve_in_sets)
  moreover have "resolveTapeSetFamily c n \<noteq> Some []" for n
    by (auto simp: resolveTapeSetFamily_def known_family_def split: option.splits)
  ultimately show ?thesis
    using assms(4)
    by (auto simp: familiesCompatible_def truthy_def load_family_ok_def driveTypeFamilyLocked_def
        tapeFamilyLocked_def split: option.splits)
qed

section \<open>Properties\<close>

text \<open>The status the server sends with its catalog's family maps.\<close>

definition status_of_catalog :: "catalog \<Rightarrow> status \<Rightarrow> bool" where
  "status_of_catalog c st \<longleftrightarrow> tape_set_families st = tapeSetFamiliesLocked c \<and>
     drive_type_families st = driveTypeFamiliesLocked c"

definition catalog_wf :: "catalog \<Rightarrow> bool" where
  "catalog_wf c \<longleftrightarrow> distinct (map fst (cat_drive_types c)) \<and> [] \<notin> fst ` set (cat_drive_types c) \<and>
     [] \<notin> fst ` set (cat_tape_sets c)"

text \<open>
  C18: The drives a Move dialog offers for a data cartridge are exactly the empty drives without a fault whose
  type the server's own barcode-family check lets the cartridge into: the browser's copy of the check, on the
  family maps the server publishes, never offers a drive the server would refuse for its family nor hides one
  it would accept.
\<close>

theorem offered_drives_are_loadable:
  assumes "catalog_wf c" and "status_of s = Some st" and "status_of_catalog c st" and "\<not> cleaning v"
  shows "set (candidate_drives s (Some v)) =
     {d \<in> set (or_nil (drives st)). drive_volume d = None \<and> \<not> fault d \<and> load_family_ok c v d}"
proof -
  have "status_families tape_set_families s n = resolveTapeSetFamily c n" for n
    using assms(2,3) tapeSetFamiliesLocked_lookup [of c n] by (simp add: status_families_def status_of_catalog_def)
  moreover have "status_families drive_type_families s n = map_of (cat_drive_types c) n" for n
    using assms(1-3) driveTypeFamiliesLocked_lookup [of c n]
    by (simp add: status_families_def status_of_catalog_def catalog_wf_def)
  moreover have "familiesCompatible (resolveTapeSetFamily c (tape_set v)) (map_of (cat_drive_types c) (drive_type d))
      = load_family_ok c v d" for d
    using assms(1,4) by (intro families_agree) (simp_all add: catalog_wf_def)
  ultimately show ?thesis
    using assms(2,4) by (auto simp: candidate_drives_def Let_def status_list_def)
qed

definition small_catalog :: catalog where
  "small_catalog = \<lparr>cat_drive_types = [(''LTO-9'', ''lto'')], cat_tape_types = [(''DDS-4'', ''dds'')],
     cat_tape_sets = [(''Old'', ''DDS-4'')]\<rparr>"

definition small_status :: status where
  "small_status = \<lparr>st_name = [], slots = None, ioslots = None,
     drives = Some [\<lparr>drive_index = 0, device_path = [], drive_type = ''LTO-9'', drive_volume = None, fault = False,
       mounts_since_cleaning = 0, activity = []\<rparr>],
     outside_volumes = None, offsite_volumes = None, offsite_enabled = False, doors = None, robotic_fault = None,
     st_arm_state = None, busy_elements = None, cleaning_enabled = False, cleaning_mount_threshold = 0,
     cleaning_max_uses = 0, magazine_pin_required = False, mailbox_pin_required = None,
     tape_set_families = tapeSetFamiliesLocked small_catalog,
     drive_type_families = driveTypeFamiliesLocked small_catalog\<rparr>"

definition dds_tape :: volume where
  "dds_tape = \<lparr>barcode = ''D00001D4'', tape_set = ''Old'', capacity_bytes = 0, written_bytes = 0, full = False,
     write_protected = False, cleaning = False, cleaning_state = [], cleaning_usage_count = 0,
     number_of_partitions = 1, load_count = 0, application_vendor = [], application_name = [],
     application_version = [], user_medium_text_label = [], encrypted = False\<rparr>"

theorem offered_drives_are_loadable_witness:
  "set (candidate_drives (initial_app\<lparr>status_of := Some small_status\<rparr>) (Some dds_tape)) = {}"
proof -
  have "catalog_wf small_catalog" by (simp add: catalog_wf_def small_catalog_def)
  moreover have "status_of_catalog small_catalog small_status" by (simp add: status_of_catalog_def small_status_def)
  moreover have "\<not> load_family_ok small_catalog dds_tape d" if "drive_type d = ''LTO-9''" for d
    using that by (simp add: load_family_ok_def driveTypeFamilyLocked_def tapeFamilyLocked_def resolveTapeSetFamily_def
        known_family_def small_catalog_def dds_tape_def)
  ultimately show ?thesis
    using offered_drives_are_loadable [of small_catalog "initial_app\<lparr>status_of := Some small_status\<rparr>" small_status dds_tape]
    by (auto simp: small_status_def dds_tape_def)
qed

text \<open>What an option stands for, as it is parsed, and what the operator sees of it.\<close>

definition meaning :: "choice \<Rightarrow> (string \<times> int option) \<times> string \<times> bool" where
  "meaning c = (parseMoveTarget (ch_value c), ch_label c, ch_disabled c)"

text \<open>
  C30: A destination chosen in a dialog is understood as meant. Option by option, in the order shown, the value of an entry
  of the Unload, Move and Load dialogs parses back to the kind and address of the element its label names: Unload lists
  every slot and I/O slot by address with the occupied ones disabled, Move the empty ones only, Load the candidate drives.
\<close>

theorem destinations_parse_back:
  assumes "status_of s = Some st"
  shows "map meaning (unloadDestinationOptions s) =
     map (\<lambda>sl. ((''slot'', Some (slot_address sl)),
         ''Slot '' @ slot_disp sl @ (if slot_volume sl = None then [] else '' (full)''), slot_volume sl \<noteq> None))
       (sort_key slot_address (or_nil (slots st))) @
     map (\<lambda>io. ((''ioslot'', Some (io_address io)),
         ''I/O Slot '' @ io_disp io @ (if io_volume io = None then [] else '' (full)''), io_volume io \<noteq> None))
       (sort_key io_address (or_nil (ioslots st))) \<and>
   map meaning (nonDriveMoveDestinationOptions s) =
     map (\<lambda>sl. ((''slot'', Some (slot_address sl)), ''Slot '' @ slot_disp sl, False))
       (sort_key slot_address (filter (\<lambda>sl. slot_volume sl = None) (or_nil (slots st)))) @
     map (\<lambda>io. ((''ioslot'', Some (io_address io)), ''I/O Slot '' @ io_disp io, False))
       (sort_key io_address (filter (\<lambda>io. io_volume io = None) (or_nil (ioslots st)))) \<and>
   map meaning (driveOptions s v) =
     map (\<lambda>d. ((''drive'', Some (drive_index d)), ''Drive '' @ show_int (drive_index d), False)) (candidate_drives s v) \<and>
   set (candidate_drives s v) \<subseteq> set (or_nil (drives st))"
  using assms
  by (auto simp: unloadDestinationOptions_def nonDriveMoveDestinationOptions_def emptySlotOptions_def emptyIOSlotOptions_def
      driveOptions_def meaning_def full_choice_def choice_def status_list_def candidate_drives_def Let_def)

definition slotted_status :: status where
  "slotted_status = small_status\<lparr>
     slots := Some [\<lparr>slot_address = 2, slot_label = [], magazine_id = ''M1'', slot_volume = None\<rparr>,
       \<lparr>slot_address = 1, slot_label = [], magazine_id = ''M1'', slot_volume = Some dds_tape\<rparr>]\<rparr>"

theorem destinations_parse_back_witness:
  "map meaning (unloadDestinationOptions (initial_app\<lparr>status_of := Some slotted_status\<rparr>)) =
     [((''slot'', Some 1), ''Slot 1 (full)'', True), ((''slot'', Some 2), ''Slot 2'', False)] \<and>
   map meaning (nonDriveMoveDestinationOptions (initial_app\<lparr>status_of := Some slotted_status\<rparr>)) =
     [((''slot'', Some 2), ''Slot 2'', False)]"
proof -
  have digits: "show_nat 1 = ''1''" "show_nat 2 = ''2''" by code_simp+
  show ?thesis
    using destinations_parse_back [of "initial_app\<lparr>status_of := Some slotted_status\<rparr>" slotted_status None] digits
    by (simp add: slotted_status_def small_status_def slot_disp_def show_int_def)
qed

end
