(* ===== verification/Js_Numbers.thy ===== *)
theory Js_Numbers
  imports Complex_Main Prelude
begin

text \<open>
  JavaScript's numbers where their rounding matters. A finite Number is a rational; \<open>dbl\<close> rounds an
  exact result to the nearest double (53 significant bits, ties to the even one), as every arithmetic
  operation of the language does. The range of the exponent is left unbounded: sizes, counts and
  pixel coordinates are far from overflow and underflow. On top of it: \<open>Math.round\<close>, \<open>toFixed\<close>,
  \<open>statPct\<close> and \<open>fmtBytes\<close> of app.js.
\<close>

section \<open>Rounding to a double\<close>

definition rne :: "rat \<Rightarrow> int" where
  "rne x = (let f = \<lfloor>x\<rfloor>; r = x - of_int f
     in if r < 1 / 2 then f else if r > 1 / 2 then f + 1 else if even f then f else f + 1)"

function bit_length :: "int \<Rightarrow> nat" where
  "bit_length n = (if n \<le> 0 then 0 else Suc (bit_length (n div 2)))"
  by pat_completeness auto
termination
  by (relation "measure nat") auto

declare bit_length.simps [simp del]

text \<open>The exponent \<open>e\<close> with \<open>2 powi e \<le> x < 2 powi (e + 1)\<close>, for a positive \<open>x\<close>.\<close>

definition exponent2 :: "rat \<Rightarrow> int" where
  "exponent2 x = (let (a, b) = quotient_of x; e = int (bit_length a) - int (bit_length b)
     in if 2 powi e \<le> x then e else e - 1)"

definition ulp :: "rat \<Rightarrow> rat" where
  "ulp x = 2 powi (exponent2 x - 52)"

definition dbl_pos :: "rat \<Rightarrow> rat" where
  "dbl_pos x = of_int (rne (x / ulp x)) * ulp x"

definition dbl :: "rat \<Rightarrow> rat" where
  "dbl x = (if x = 0 then 0 else if x < 0 then - dbl_pos (- x) else dbl_pos x)"

lemma bit_length_pos: "0 < n \<Longrightarrow> bit_length n = Suc (bit_length (n div 2))"
  by (simp add: bit_length.simps [of n])

lemma bit_length_bounds: "0 < n \<Longrightarrow> 2 ^ (bit_length n - 1) \<le> n \<and> n < 2 ^ bit_length n"
proof (induction n rule: bit_length.induct)
  case (1 n)
  show ?case
  proof (cases "n = 1")
    case True
    then show ?thesis by (simp add: bit_length.simps)
  next
    case False
    with "1.prems" have "0 < n div 2" by simp
    with 1 have IH: "2 ^ (bit_length (n div 2) - 1) \<le> n div 2" "n div 2 < 2 ^ bit_length (n div 2)"
      by auto
    have "bit_length (n div 2) = Suc (bit_length (n div 2) - 1)"
      using \<open>0 < n div 2\<close> by (simp add: bit_length_pos)
    then have "(2::int) ^ bit_length (n div 2) = 2 * 2 ^ (bit_length (n div 2) - 1)"
      by (metis power_Suc)
    moreover have "2 * (n div 2) \<le> n" "n < 2 * (n div 2) + 2" by linarith+
    ultimately show ?thesis using IH bit_length_pos [OF "1.prems"] by (simp; linarith)
  qed
qed

lemma powi_diff_nat: "(2::rat) powi (int a - int b) = 2 ^ a / 2 ^ b"
  by (simp add: power_int_diff)

lemma exponent2_bounds:
  assumes "0 < x"
  shows "2 powi exponent2 x \<le> x \<and> x < 2 powi (exponent2 x + 1)"
proof -
  obtain a b where ab: "quotient_of x = (a, b)" by force
  have b: "0 < b" using ab by (rule quotient_of_denom_pos)
  have x: "x = of_int a / of_int b" using ab by (rule quotient_of_div)
  have a: "0 < a" using assms b by (simp add: x zero_less_divide_iff)
  let ?A = "bit_length a" and ?B = "bit_length b"
  have pos: "?A = Suc (?A - 1)" "?B = Suc (?B - 1)"
    using a b by (simp_all add: bit_length_pos)
  have A': "(2::rat) ^ (?A - 1) \<le> of_int a" "of_int a < (2::rat) ^ ?A"
    using bit_length_bounds [OF a]
    by (metis of_int_le_iff of_int_numeral of_int_power, metis of_int_less_iff of_int_numeral of_int_power)
  have B': "(2::rat) ^ (?B - 1) \<le> of_int b" "of_int b < (2::rat) ^ ?B"
    using bit_length_bounds [OF b]
    by (metis of_int_le_iff of_int_numeral of_int_power, metis of_int_less_iff of_int_numeral of_int_power)
  have e1: "int ?A - int ?B + 1 = int ?A - int (?B - 1)" using pos(2) by linarith
  have e2: "int ?A - int ?B - 1 = int (?A - 1) - int ?B" using pos(1) by linarith
  have "x < 2 ^ ?A / 2 ^ (?B - 1)"
    unfolding x using A'(2) B'(1) a b by (intro frac_less) auto
  also have "\<dots> = 2 powi (int ?A - int ?B + 1)"
    unfolding e1 by (simp add: powi_diff_nat)
  finally have upper: "x < 2 powi (int ?A - int ?B + 1)" .
  have "2 powi (int ?A - int ?B - 1) = (2::rat) ^ (?A - 1) / 2 ^ ?B"
    unfolding e2 by (simp add: powi_diff_nat)
  also have "\<dots> \<le> x"
    unfolding x using A'(1) B'(2) a b by (intro frac_le) auto
  finally have lower: "2 powi (int ?A - int ?B - 1) \<le> x" .
  show ?thesis
    using upper lower by (auto simp: exponent2_def ab Let_def)
qed

lemma ulp_pos [simp]: "0 < ulp x"
  by (simp add: ulp_def)

lemma ulp_not_0 [simp]: "ulp x \<noteq> 0"
  using ulp_pos [of x] by linarith

lemma rne_nearest: "\<bar>of_int (rne x) - x\<bar> \<le> 1 / 2"
proof -
  have "of_int \<lfloor>x\<rfloor> \<le> x" "x < of_int \<lfloor>x\<rfloor> + 1" by linarith+
  then show ?thesis by (auto simp: rne_def Let_def)
qed

lemma rne_le: "x \<le> of_int k \<Longrightarrow> rne x \<le> k"
proof -
  assume x: "x \<le> of_int k"
  then have "\<lfloor>x\<rfloor> \<le> k" by linarith
  show ?thesis
  proof (cases "\<lfloor>x\<rfloor> = k")
    case True
    then have "x = of_int k" using x by linarith
    then show ?thesis by (simp add: rne_def)
  next
    case False
    with \<open>\<lfloor>x\<rfloor> \<le> k\<close> have "\<lfloor>x\<rfloor> + 1 \<le> k" by linarith
    then show ?thesis by (auto simp: rne_def Let_def)
  qed
qed

lemma rne_nonneg: "0 \<le> x \<Longrightarrow> 0 \<le> rne x"
  by (auto simp: rne_def Let_def)

lemma rne_of_int [simp]: "rne (of_int k) = k"
  by (simp add: rne_def)

lemma dbl_nonneg: "0 \<le> x \<Longrightarrow> 0 \<le> dbl x"
  by (auto simp: dbl_def dbl_pos_def intro!: mult_nonneg_nonneg rne_nonneg divide_nonneg_pos
      order_less_imp_le [OF ulp_pos])

lemma ulp_inverse:
  assumes "0 < x" and "x \<le> 2 ^ 52"
  shows "\<exists>n::nat. 1 / ulp x = of_int (2 ^ n)"
proof -
  have "2 powi exponent2 x \<le> (2::rat) powi 52"
    using exponent2_bounds [OF assms(1)] assms(2) by (simp add: power_int_def)
  then have e: "exponent2 x \<le> 52"
    by (metis linorder_not_less one_less_numeral_iff order_less_le_trans power_int_strict_increasing
        semiring_norm(76) order_less_irrefl)
  have "1 / ulp x = 2 powi (52 - exponent2 x)"
    by (simp add: ulp_def power_int_minus [symmetric] divide_inverse)
  also have "\<dots> = 2 ^ nat (52 - exponent2 x)"
    using e by (simp add: power_int_def)
  finally show ?thesis by (intro exI [of _ "nat (52 - exponent2 x)"]) simp
qed

text \<open>Integers up to \<open>2 ^ 52\<close> are doubles, and rounding never crosses one.\<close>

lemma dbl_le_int:
  assumes "0 \<le> x" and "x \<le> of_int k" and "k \<le> 2 ^ 52"
  shows "dbl x \<le> of_int k"
proof (cases "x = 0")
  case True
  then show ?thesis using assms by (simp add: dbl_def)
next
  case False
  have "(of_int k :: rat) \<le> of_int (2 ^ 52)" using assms(3) by (simp only: of_int_le_iff)
  then have "x \<le> 2 ^ 52" using assms(2) by simp
  then obtain n :: nat where n: "1 / ulp x = of_int (2 ^ n)"
    using False assms(1) ulp_inverse [of x] by auto
  have "x / ulp x = x * (1 / ulp x)" by simp
  also have "\<dots> \<le> of_int k * of_int (2 ^ n)"
    using assms(2) unfolding n by (intro mult_right_mono) auto
  finally have "rne (x / ulp x) \<le> k * 2 ^ n" by (intro rne_le) simp
  then have "of_int (rne (x / ulp x)) * ulp x \<le> of_int (k * 2 ^ n) * ulp x"
    by (intro mult_right_mono order_less_imp_le [OF ulp_pos]) (simp only: of_int_le_iff)
  also have "\<dots> = of_int k" using n ulp_pos [of x] by (simp add: field_simps)
  finally show ?thesis using False assms(1) by (simp add: dbl_def dbl_pos_def)
qed

lemma dbl_of_nat:
  assumes "n \<le> 2 ^ 52"
  shows "dbl (of_nat n) = of_nat n"
proof (cases "n = 0")
  case True
  then show ?thesis by (simp add: dbl_def)
next
  case False
  have "(of_nat n :: rat) \<le> 2 ^ 52"
    using assms by (metis of_nat_le_iff of_nat_numeral of_nat_power)
  then obtain k :: nat where k: "1 / ulp (of_nat n) = of_int (2 ^ k)"
    using False ulp_inverse [of "of_nat n"] by auto
  have "of_nat n / ulp (of_nat n) = of_nat n * (1 / ulp (of_nat n))" by simp
  also have "\<dots> = (of_int (int n * 2 ^ k) :: rat)" unfolding k by simp
  finally have "rne (of_nat n / ulp (of_nat n)) = int n * 2 ^ k" by (metis rne_of_int)
  then have "dbl (of_nat n) = of_nat n * (of_int (2 ^ k) * ulp (of_nat n))"
    using False by (simp add: dbl_def dbl_pos_def)
  also have "of_int (2 ^ k) * ulp (of_nat n) = 1"
    unfolding k [symmetric] using ulp_pos [of "of_nat n"] by simp
  finally show ?thesis by simp
qed

text \<open>The relative error of one rounding.\<close>

lemma dbl_error: "0 \<le> x \<Longrightarrow> \<bar>dbl x - x\<bar> \<le> x / 2 ^ 53"
proof (cases "x = 0")
  case False
  assume "0 \<le> x"
  with False have x: "0 < x" by simp
  have "2 powi exponent2 x \<le> x" using exponent2_bounds [OF x] by blast
  moreover have "ulp x * 2 ^ 52 = 2 powi exponent2 x"
    by (simp add: ulp_def power_int_diff power_int_def [of _ 52])
  ultimately have u: "ulp x * 2 ^ 52 \<le> x" by simp
  have "dbl x - x = (of_int (rne (x / ulp x)) - x / ulp x) * ulp x"
    using x ulp_pos [of x] by (simp add: dbl_def dbl_pos_def left_diff_distrib)
  then have "\<bar>dbl x - x\<bar> = \<bar>of_int (rne (x / ulp x)) - x / ulp x\<bar> * ulp x"
    by (simp add: abs_mult order_less_imp_le)
  also have "\<dots> \<le> 1 / 2 * ulp x"
    using rne_nearest [of "x / ulp x"] by (intro mult_right_mono) (auto intro: order_less_imp_le)
  also have "\<dots> \<le> x / 2 ^ 53" using u by (simp add: field_simps)
  finally show ?thesis .
qed (simp add: dbl_def)

section \<open>Math.round and toFixed\<close>

definition math_round :: "rat \<Rightarrow> int" where
  "math_round x = \<lfloor>x + 1 / 2\<rfloor>"

text \<open>\<open>x.toFixed(d)\<close> for a non-negative \<open>x\<close>: the nearest multiple of \<open>10 ^ - d\<close>, the larger one on a
  tie, with \<open>d\<close> decimals.\<close>

definition pad_left :: "nat \<Rightarrow> string \<Rightarrow> string" where
  "pad_left n s = replicate (n - length s) CHR ''0'' @ s"

definition to_fixed :: "nat \<Rightarrow> rat \<Rightarrow> string" where
  "to_fixed d x =
     (let m = nat \<lfloor>x * 10 ^ d + 1 / 2\<rfloor>
      in show_nat (m div 10 ^ d) @ (if d = 0 then [] else CHR ''.'' # pad_left d (show_nat (m mod 10 ^ d))))"

section \<open>statPct\<close>

definition pct_value :: "nat \<Rightarrow> nat \<Rightarrow> int" where
  "pct_value numerator denominator =
     math_round (dbl (dbl (of_nat numerator / of_nat denominator) * 100))"

definition statPct :: "nat \<Rightarrow> nat \<Rightarrow> string" where
  "statPct numerator denominator =
     (if denominator = 0 then em_dash else show_int (pct_value numerator denominator) @ ''%'')"

lemma pct_value_bounds:
  assumes "n \<le> d"
  shows "0 \<le> pct_value n d \<and> pct_value n d \<le> 100"
proof -
  let ?q = "(of_nat n :: rat) / of_nat d"
  have q: "0 \<le> ?q" "?q \<le> of_int 1" using assms by (auto simp: divide_le_eq)
  have d1: "0 \<le> dbl ?q" "dbl ?q \<le> 1"
    using dbl_nonneg [OF q(1)] dbl_le_int [OF q] by auto
  then have "0 \<le> dbl ?q * 100" "dbl ?q * 100 \<le> of_int 100" by auto
  then have "0 \<le> dbl (dbl ?q * 100)" "dbl (dbl ?q * 100) \<le> 100"
    using dbl_nonneg dbl_le_int [of "dbl ?q * 100" 100] by auto
  then show ?thesis by (auto simp: pct_value_def math_round_def; linarith)
qed

lemma pct_value_error:
  assumes "n \<le> d" and "0 < d"
  shows "\<bar>of_int (pct_value n d) - 100 * (of_nat n / of_nat d)\<bar> \<le> 1 / 2 + (200 / 2 ^ 53 :: rat)"
proof -
  define q where "q = (of_nat n :: rat) / of_nat d"
  have q: "0 \<le> q" "q \<le> of_int 1" using assms by (auto simp: q_def divide_le_eq)
  define y where "y = dbl q"
  have y: "0 \<le> y" "y \<le> 1" using dbl_nonneg [OF q(1)] dbl_le_int [OF q] by (auto simp: y_def)
  have "\<bar>y - q\<bar> \<le> q / 2 ^ 53" unfolding y_def by (rule dbl_error [OF q(1)])
  then have 1: "\<bar>y - q\<bar> \<le> 1 / 2 ^ 53" using q(2) by (auto intro: order_trans divide_right_mono)
  have "\<bar>dbl (y * 100) - y * 100\<bar> \<le> y * 100 / 2 ^ 53" by (rule dbl_error) (simp add: y)
  also have "\<dots> \<le> 100 / 2 ^ 53" using y(2) by (intro divide_right_mono) auto
  finally have 2: "\<bar>dbl (y * 100) - y * 100\<bar> \<le> 100 / 2 ^ 53" .
  have 3: "\<bar>of_int \<lfloor>z + 1 / 2\<rfloor> - z\<bar> \<le> 1 / 2" for z :: rat by linarith
  define P where "P = (of_int (pct_value n d) :: rat)"
  define D where "D = dbl (y * 100)"
  define c where "c = (1 / 2 ^ 53 :: rat)"
  have "P = of_int \<lfloor>D + 1 / 2\<rfloor>" by (simp add: P_def D_def pct_value_def math_round_def y_def q_def)
  then have "\<bar>P - D\<bar> \<le> 1 / 2" using 3 [of D] by simp
  moreover have "\<bar>y - q\<bar> \<le> c" "\<bar>D - y * 100\<bar> \<le> 100 * c" using 1 2 by (simp_all add: c_def D_def)
  ultimately have "\<bar>P - 100 * q\<bar> \<le> 1 / 2 + 200 * c" by linarith
  then show ?thesis by (simp add: P_def q_def c_def)
qed

section \<open>fmtBytes\<close>

text \<open>
  The loop divides a double by 1024 up to four times; for an integer below \<open>2 ^ 53\<close> every quotient is
  exact, so the value after \<open>i\<close> rounds is the fraction \<open>n / 1024 ^ i\<close>, kept here as numerator and
  denominator.
\<close>

function fmt_loop :: "nat \<Rightarrow> nat \<Rightarrow> nat \<Rightarrow> nat \<times> nat" where
  "fmt_loop n den i = (if 1024 * den \<le> n \<and> i < 4 then fmt_loop n (den * 1024) (Suc i) else (den, i))"
  by pat_completeness auto
termination
  by (relation "measure (\<lambda>(n, den, i). 4 - i)") auto

declare fmt_loop.simps [simp del]

definition fmt_units :: "string list" where
  "fmt_units = [''B'', ''KiB'', ''MiB'', ''GiB'', ''TiB'']"

definition fmtBytes :: "nat \<Rightarrow> string" where
  "fmtBytes n =
     (if n = 0 then ''0 B''
      else (let (den, i) = fmt_loop n 1 0
            in to_fixed 1 (of_nat n / of_nat den) @ '' '' @ fmt_units ! i))"

lemma fmt_loop_spec:
  assumes "den = 1024 ^ i" and "i \<le> 4" and "i = 0 \<or> den \<le> n" and "fmt_loop n den i = (den', i')"
  shows "den' = 1024 ^ i' \<and> i \<le> i' \<and> i' \<le> 4 \<and> (i' = 0 \<or> den' \<le> n) \<and> (i' = 4 \<or> n < 1024 * den')"
  using assms
proof (induction n den i rule: fmt_loop.induct)
  case (1 n den i)
  show ?case
  proof (cases "1024 * den \<le> n \<and> i < 4")
    case True
    then have "fmt_loop n den i = fmt_loop n (den * 1024) (Suc i)"
      by (subst fmt_loop.simps) (simp only: if_True simp_thms)
    with "1.prems"(4) have next_round: "fmt_loop n (den * 1024) (Suc i) = (den', i')" by simp
    have "den' = 1024 ^ i' \<and> Suc i \<le> i' \<and> i' \<le> 4 \<and> (i' = 0 \<or> den' \<le> n) \<and> (i' = 4 \<or> n < 1024 * den')"
      by (rule "1.IH" [OF True _ _ _ next_round]) (use "1.prems"(1) True in auto)
    then show ?thesis by (meson Suc_leD)
  next
    case False
    then have "fmt_loop n den i = (den, i)" by (subst fmt_loop.simps) (simp only: if_False)
    with "1.prems" False show ?thesis by auto
  qed
qed

section \<open>Properties\<close>

text \<open>
  C35: The percentages of the statistics tiles, computed in floating point, lie between 0 and 100 for a part
  of a whole and differ from the exact value by at most a half plus a rounding error below \<open>200 / 2 ^ 53\<close>;
  an empty whole shows a dash.
\<close>

theorem statPct_correct:
  "statPct n 0 = em_dash \<and>
   (n \<le> d \<and> 0 < d \<longrightarrow> (\<exists>p. statPct n d = show_int p @ ''%'' \<and> 0 \<le> p \<and> p \<le> 100 \<and>
      \<bar>of_int p - 100 * (of_nat n / of_nat d)\<bar> \<le> 1 / 2 + (200 / 2 ^ 53 :: rat)))"
  using pct_value_bounds [of n d] pct_value_error [of n d] by (auto simp: statPct_def)

theorem statPct_correct_witness:
  "\<exists>p. statPct 1 3 = show_int p @ ''%'' \<and> 0 \<le> p \<and> p \<le> 100"
  using statPct_correct [of 1 3] by auto

text \<open>
  The unit \<open>fmtBytes\<close> picks is the largest of B, KiB, MiB, GiB and TiB that the number reaches, and the
  number shown is the quotient rounded to one decimal.
\<close>

theorem fmtBytes_unit:
  assumes "0 < n"
  shows "\<exists>i\<le>4. fmtBytes n = to_fixed 1 (of_nat n / of_nat (1024 ^ i)) @ '' '' @ fmt_units ! i \<and>
     (i = 0 \<or> 1024 ^ i \<le> n) \<and> (i = 4 \<or> n < 1024 ^ (i + 1))"
proof -
  obtain den i where loop: "fmt_loop n 1 0 = (den, i)" by force
  have "den = 1024 ^ i \<and> 0 \<le> i \<and> i \<le> 4 \<and> (i = 0 \<or> den \<le> n) \<and> (i = 4 \<or> n < 1024 * den)"
    by (rule fmt_loop_spec [OF _ _ _ loop]) simp_all
  with loop assms show ?thesis by (intro exI [of _ i]) (auto simp: fmtBytes_def)
qed

theorem fmtBytes_unit_witness:
  "\<exists>i\<le>4. fmtBytes 1048575 = to_fixed 1 (of_nat 1048575 / of_nat (1024 ^ i)) @ '' '' @ fmt_units ! i"
  using fmtBytes_unit [of 1048575] by auto

end
