(* ===== verification/Cartridge_Label.thy ===== *)
theory Cartridge_Label
  imports Js_Numbers Api_Types
begin

text \<open>
  Cartridge labels: the Code 39 symbol of a barcode and the HTML around it (\<open>CODE39_PATTERNS\<close>,
  \<open>renderBarcodeSVG\<close>, \<open>writeProtectSwitchHTML\<close>, \<open>cartridgeDetailTitle\<close>, \<open>cartridgeLabelHTML\<close>,
  \<open>applyCleaningTooltip\<close> in app.js).

  The geometry of the symbol takes the rounding of its arithmetic as an argument \<open>r\<close>: the code is the
  instance \<open>dbl\<close>; the instance \<open>\<lambda>x. x\<close> is the symbol the code means to draw, about which the scanner
  lemmas speak.
\<close>

section \<open>The Code 39 table\<close>

definition code39_patterns :: "(char \<times> string) list" where
  "code39_patterns =
    [(CHR ''0'', ''000110100''), (CHR ''1'', ''100100001''), (CHR ''2'', ''001100001''), (CHR ''3'', ''101100000''),
     (CHR ''4'', ''000110001''), (CHR ''5'', ''100110000''), (CHR ''6'', ''001110000''), (CHR ''7'', ''000100101''),
     (CHR ''8'', ''100100100''), (CHR ''9'', ''001100100''),
     (CHR ''A'', ''100001001''), (CHR ''B'', ''001001001''), (CHR ''C'', ''101001000''), (CHR ''D'', ''000011001''),
     (CHR ''E'', ''100011000''), (CHR ''F'', ''001011000''), (CHR ''G'', ''000001101''), (CHR ''H'', ''100001100''),
     (CHR ''I'', ''001001100''), (CHR ''J'', ''000011100''), (CHR ''K'', ''100000011''), (CHR ''L'', ''001000011''),
     (CHR ''M'', ''101000010''), (CHR ''N'', ''000010011''), (CHR ''O'', ''100010010''), (CHR ''P'', ''001010010''),
     (CHR ''Q'', ''000000111''), (CHR ''R'', ''100000110''), (CHR ''S'', ''001000110''), (CHR ''T'', ''000010110''),
     (CHR ''U'', ''110000001''), (CHR ''V'', ''011000001''), (CHR ''W'', ''111000000''), (CHR ''X'', ''010010001''),
     (CHR ''Y'', ''110010000''), (CHR ''Z'', ''011010000''), (CHR ''*'', ''010010100'')]"

definition code39_chars :: "char set" where
  "code39_chars = fst ` set code39_patterns"

text \<open>\<open>CODE39_PATTERNS[ch] || CODE39_PATTERNS["0"]\<close>.\<close>

definition pattern_of :: "char \<Rightarrow> string" where
  "pattern_of ch = (case map_of code39_patterns ch of Some p \<Rightarrow> p | None \<Rightarrow> ''000110100'')"

lemma code39_wellformed:
  "list_all (\<lambda>(c, p). length p = 9 \<and> length (filter (\<lambda>b. b = CHR ''1'') p) = 3 \<and>
      list_all (\<lambda>b. b = CHR ''0'' \<or> b = CHR ''1'') p) code39_patterns"
  by code_simp

lemma code39_distinct_chars: "distinct (map fst code39_patterns)"
  by code_simp

lemma code39_distinct_patterns: "distinct (map snd code39_patterns)"
  by code_simp

lemma pattern_of_wellformed:
  "length (pattern_of c) = 9 \<and> length (filter (\<lambda>b. b = CHR ''1'') (pattern_of c)) = 3 \<and>
     (\<forall>b\<in>set (pattern_of c). b = CHR ''0'' \<or> b = CHR ''1'')"
proof (cases "map_of code39_patterns c")
  case None
  then show ?thesis by (simp add: pattern_of_def)
next
  case (Some p)
  then have "(c, p) \<in> set code39_patterns" by (rule map_of_SomeD)
  with code39_wellformed have "length p = 9 \<and> length (filter (\<lambda>b. b = CHR ''1'') p) = 3 \<and>
      list_all (\<lambda>b. b = CHR ''0'' \<or> b = CHR ''1'') p"
    unfolding list_all_iff by blast
  with Some show ?thesis by (simp add: pattern_of_def list_all_iff)
qed

lemma pattern_of_inj:
  assumes "c \<in> code39_chars" and "d \<in> code39_chars" and "pattern_of c = pattern_of d"
  shows "c = d"
proof -
  obtain p q where p: "(c, p) \<in> set code39_patterns" and q: "(d, q) \<in> set code39_patterns"
    using assms(1,2) by (auto simp: code39_chars_def)
  then have "pattern_of c = p" "pattern_of d = q"
    by (simp_all add: pattern_of_def map_of_is_SomeI [OF code39_distinct_chars])
  with assms(3) have "p = q" by simp
  with p q code39_distinct_patterns show ?thesis
    by (metis (no_types, opaque_lifting) distinct_map inj_on_def prod.inject snd_conv)
qed

section \<open>The geometry of the symbol\<close>

record bar =
  bar_x :: rat
  bar_w :: rat

definition wideRatio :: "(rat \<Rightarrow> rat) \<Rightarrow> rat" where
  "wideRatio r = r (24 / 10)"

text \<open>The nine elements of one character from position \<open>i\<close> on; even positions are bars.\<close>

fun char_bars :: "(rat \<Rightarrow> rat) \<Rightarrow> rat \<Rightarrow> nat \<Rightarrow> string \<Rightarrow> rat \<Rightarrow> bar list \<times> rat" where
  "char_bars r unit i [] x = ([], x)"
| "char_bars r unit i (p # ps) x =
     (let w = (if p = CHR ''1'' then r (unit * wideRatio r) else unit);
          (bs, x') = char_bars r unit (Suc i) ps (r (x + w))
      in (if even i then \<lparr>bar_x = x, bar_w = w\<rparr> # bs else bs, x'))"

text \<open>The characters of the symbol, a narrow gap between two of them.\<close>

fun symbol_bars :: "(rat \<Rightarrow> rat) \<Rightarrow> rat \<Rightarrow> char list \<Rightarrow> rat \<Rightarrow> bar list \<times> rat" where
  "symbol_bars r unit [] x = ([], x)"
| "symbol_bars r unit (c # cs) x =
     (let (bs, x1) = char_bars r unit 0 (pattern_of c) x;
          x2 = (if cs \<noteq> [] then r (x1 + unit) else x1);
          (bs', x') = symbol_bars r unit cs x2
      in (bs @ bs', x'))"

definition ascii_upper :: "string \<Rightarrow> string" where
  "ascii_upper = map (\<lambda>c. if CHR ''a'' \<le> c \<and> c \<le> CHR ''z'' then char_of ((of_char c :: nat) - 32) else c)"

definition symbol_of :: "string \<Rightarrow> char list" where
  "symbol_of code = CHR ''*'' # code @ [CHR ''*'']"

definition narrowUnitsPerChar :: "(rat \<Rightarrow> rat) \<Rightarrow> rat" where
  "narrowUnitsPerChar r = r (6 + r (3 * wideRatio r))"

definition totalNarrowUnits :: "(rat \<Rightarrow> rat) \<Rightarrow> nat \<Rightarrow> rat" where
  "totalNarrowUnits r n = r (r (r (of_nat n * narrowUnitsPerChar r) + of_nat (n - 1)) + 6)"

definition unit_width :: "(rat \<Rightarrow> rat) \<Rightarrow> nat \<Rightarrow> rat" where
  "unit_width r n = r (148 / totalNarrowUnits r n)"

text \<open>The bars, the end of the last bar and the width of the whole image.\<close>

definition barcode_geometry :: "(rat \<Rightarrow> rat) \<Rightarrow> string \<Rightarrow> bar list \<times> rat \<times> rat" where
  "barcode_geometry r code =
     (let chars = symbol_of code; unit = unit_width r (length chars);
          (bs, barsEndX) = symbol_bars r unit chars (r (unit * 3))
      in (bs, barsEndX, r (barsEndX + r (unit * 3))))"

definition rect_svg :: "bar \<Rightarrow> string" where
  "rect_svg b = ''<rect x=\"'' @ to_fixed 2 (bar_x b) @ ''\" y=\"0\" width=\"'' @ to_fixed 2 (bar_w b) @
     ''\" height=\"12\" fill=\"#111\"/>''"

definition renderBarcodeSVG :: "string \<Rightarrow> string" where
  "renderBarcodeSVG bc =
     (let code = ascii_upper bc;
          (bs, barsEndX, totalWidth) = barcode_geometry dbl code;
          textStartX = dbl (unit_width dbl (length (symbol_of code)) * 3);
          textSpanWidth = dbl (barsEndX - textStartX)
      in ''<svg viewBox=\"0 0 '' @ to_fixed 2 totalWidth @ '' 25\" width=\"'' @ to_fixed 2 totalWidth @
         ''\" height=\"25\" role=\"img\" aria-label=\"barcode '' @ code @ ''\">'' @
         concat (map rect_svg bs) @
         ''<text x=\"'' @ to_fixed 2 textStartX @ ''\" y=\"24\" textLength=\"'' @ to_fixed 2 textSpanWidth @
         ''\" lengthAdjust=\"spacingAndGlyphs\" font-family=\"monospace\" font-size=\"11\" fill=\"#111\">'' @
         code @ ''</text>'' @ ''</svg>'')"

section \<open>Bars and a scanner\<close>

lemma char_bars_count: "length (fst (char_bars r u i p x)) = (length p + (if even i then 1 else 0)) div 2"
  by (induction r u i p x rule: char_bars.induct) (auto simp: Let_def split: prod.splits)

text \<open>The two results of one more character, without the pairs.\<close>

definition after_char :: "(rat \<Rightarrow> rat) \<Rightarrow> rat \<Rightarrow> char \<Rightarrow> char list \<Rightarrow> rat \<Rightarrow> rat" where
  "after_char r u c cs x =
     (let x1 = snd (char_bars r u 0 (pattern_of c) x) in if cs \<noteq> [] then r (x1 + u) else x1)"

lemma symbol_bars_Cons:
  "fst (symbol_bars r u (c # cs) x) =
     fst (char_bars r u 0 (pattern_of c) x) @ fst (symbol_bars r u cs (after_char r u c cs x))"
  "snd (symbol_bars r u (c # cs) x) = snd (symbol_bars r u cs (after_char r u c cs x))"
  by (simp_all add: after_char_def Let_def split: prod.splits)

declare symbol_bars.simps(2) [simp del]

lemma symbol_bars_count: "length (fst (symbol_bars r u cs x)) = 5 * length cs"
  using pattern_of_wellformed
  by (induction cs arbitrary: x) (simp_all add: symbol_bars_Cons char_bars_count)

text \<open>
  What a scanner does with the bars of one character: it measures the five bars and the four spaces
  between them, and calls an element wide when it is longer than 1.7 narrow ones.
\<close>

definition mark :: "rat \<Rightarrow> rat \<Rightarrow> char" where
  "mark u w = (if 17 / 10 * u < w then CHR ''1'' else CHR ''0'')"

definition gap :: "bar \<Rightarrow> bar \<Rightarrow> rat" where
  "gap a b = bar_x b - (bar_x a + bar_w a)"

definition read_pattern :: "rat \<Rightarrow> bar \<Rightarrow> bar \<Rightarrow> bar \<Rightarrow> bar \<Rightarrow> bar \<Rightarrow> string" where
  "read_pattern u a b c d e =
     [mark u (bar_w a), mark u (gap a b), mark u (bar_w b), mark u (gap b c), mark u (bar_w c),
      mark u (gap c d), mark u (bar_w d), mark u (gap d e), mark u (bar_w e)]"

definition read_char :: "string \<Rightarrow> char option" where
  "read_char p = map_option fst (List.find (\<lambda>cp. snd cp = p) code39_patterns)"

fun scan :: "rat \<Rightarrow> bar list \<Rightarrow> char option list" where
  "scan u (a # b # c # d # e # bs) = read_char (read_pattern u a b c d e) # scan u bs"
| "scan u bs = []"

lemma read_char_pattern: "c \<in> code39_chars \<Longrightarrow> read_char (pattern_of c) = Some c"
proof -
  assume "c \<in> code39_chars"
  then obtain p where cp: "(c, p) \<in> set code39_patterns" by (auto simp: code39_chars_def)
  then have pat: "pattern_of c = p"
    by (simp add: pattern_of_def map_of_is_SomeI [OF code39_distinct_chars])
  obtain x where "List.find (\<lambda>cp. snd cp = p) code39_patterns = Some x"
    using cp by (cases "List.find (\<lambda>cp. snd cp = p) code39_patterns") (auto simp: find_None_iff)
  moreover from this have "x \<in> set code39_patterns" "snd x = p"
    by (auto simp: find_Some_iff)
  with cp code39_distinct_patterns have "x = (c, p)"
    by (metis (no_types, lifting) distinct_map inj_onD snd_conv)
  ultimately show ?thesis by (simp add: read_char_def pat)
qed

lemma mark_width:
  "0 < u \<Longrightarrow> p = CHR ''0'' \<or> p = CHR ''1'' \<Longrightarrow> mark u (if p = CHR ''1'' then u * (24 / 10) else u) = p"
  by (auto simp: mark_def)

lemma length_9: "length xs = 9 \<Longrightarrow> \<exists>a b c d e f g h i. xs = [a, b, c, d, e, f, g, h, i]"
  by (auto simp: eval_nat_numeral length_Suc_conv)

lemma scan_char:
  assumes "0 < u" and "length p = 9" and "\<forall>b\<in>set p. b = CHR ''0'' \<or> b = CHR ''1''"
  shows "\<exists>a b c d e. fst (char_bars (\<lambda>x. x) u 0 p x) = [a, b, c, d, e] \<and> read_pattern u a b c d e = p"
proof -
  obtain p0 p1 p2 p3 p4 p5 p6 p7 p8 where p: "p = [p0, p1, p2, p3, p4, p5, p6, p7, p8]"
    using length_9 [OF assms(2)] by blast
  define w where "w q = (if q = CHR ''1'' then u * (24 / 10) else u)" for q :: char
  have m: "mark u (w q) = q" if "q \<in> set p" for q
    using mark_width [OF assms(1)] assms(3) that by (auto simp: w_def)
  have bars: "fst (char_bars (\<lambda>x. x) u 0 p x) =
      [\<lparr>bar_x = x, bar_w = w p0\<rparr>,
       \<lparr>bar_x = x + w p0 + w p1, bar_w = w p2\<rparr>,
       \<lparr>bar_x = x + w p0 + w p1 + w p2 + w p3, bar_w = w p4\<rparr>,
       \<lparr>bar_x = x + w p0 + w p1 + w p2 + w p3 + w p4 + w p5, bar_w = w p6\<rparr>,
       \<lparr>bar_x = x + w p0 + w p1 + w p2 + w p3 + w p4 + w p5 + w p6 + w p7, bar_w = w p8\<rparr>]"
    by (simp add: p Let_def w_def wideRatio_def)
  show ?thesis
    unfolding bars by (simp add: read_pattern_def gap_def m p)
qed

lemma scan_symbol:
  "0 < u \<Longrightarrow> set cs \<subseteq> code39_chars \<Longrightarrow> scan u (fst (symbol_bars (\<lambda>x. x) u cs x)) = map Some cs"
proof (induction cs arbitrary: x)
  case Nil
  then show ?case by simp
next
  case (Cons c cs)
  obtain a b d e f where five: "fst (char_bars (\<lambda>x. x) u 0 (pattern_of c) x) = [a, b, d, e, f]"
      "read_pattern u a b d e f = pattern_of c"
    using scan_char [OF Cons.prems(1)] pattern_of_wellformed [of c] by meson
  have "read_char (pattern_of c) = Some c" using Cons.prems(2) by (intro read_char_pattern) simp
  then show ?case
    using Cons five by (simp add: symbol_bars_Cons)
qed

section \<open>The width of the symbol\<close>

lemma char_bars_end:
  "snd (char_bars (\<lambda>x. x) u i p x) =
     x + u * of_nat (length p) + u * (14 / 10) * of_nat (length (filter (\<lambda>b. b = CHR ''1'') p))"
  by (induction "(\<lambda>x. x) :: rat \<Rightarrow> rat" u i p x rule: char_bars.induct)
     (auto simp: Let_def wideRatio_def field_simps split: prod.splits)

lemma symbol_bars_end:
  "cs \<noteq> [] \<Longrightarrow> snd (symbol_bars (\<lambda>x. x) u cs x) =
     x + u * (132 / 10 * of_nat (length cs) + of_nat (length cs - 1))"
proof (induction cs arbitrary: x)
  case Nil
  then show ?case by simp
next
  case (Cons c cs)
  have one: "snd (char_bars (\<lambda>x. x) u 0 (pattern_of c) y) = y + u * (132 / 10)" for y
    using pattern_of_wellformed [of c] by (simp add: char_bars_end)
  show ?case
  proof (cases "cs = []")
    case True
    then show ?thesis using one [of x] by (simp add: symbol_bars_Cons after_char_def)
  next
    case False
    obtain m where n: "length cs = Suc m" using False by (cases cs) auto
    have "after_char (\<lambda>x. x) u c cs x = x + u * (132 / 10) + u"
      using one [of x] False by (simp add: after_char_def)
    then show ?thesis
      using Cons.IH [OF False] n by (simp add: symbol_bars_Cons field_simps)
  qed
qed

section \<open>The write-protect switch and the label\<close>

definition writeProtectSwitchHTML :: "bool \<Rightarrow> bool \<Rightarrow> string" where
  "writeProtectSwitchHTML writeProtected editable =
     (let label = (if writeProtected then ''Write-protected'' else ''Writable'');
          hint = (if editable then '' - click to '' @
                    (if writeProtected then ''remove write-protect'' else ''write-protect'') else [])
      in ''<button type=\"button\" class=\"wp-switch'' @ (if writeProtected then '' locked'' else []) @ ''\" '' @
         (if editable then [] else ''disabled'') @ '' title=\"'' @ label @ hint @ ''\" aria-pressed=\"'' @
         (if writeProtected then ''true'' else ''false'') @
         ''\" aria-label=\"Write-protect toggle\"><span class=\"wp-switch-track\"><span class=\"wp-switch-thumb\"></span></span></button>'')"

definition cartridgeDetailTitle :: "volume option \<Rightarrow> string" where
  "cartridgeDetailTitle vol =
     (case vol of None \<Rightarrow> []
      | Some v \<Rightarrow> join [CHR 0x0A]
          ((if number_of_partitions v > 1 then [''Partitions: '' @ show_nat (number_of_partitions v)] else []) @
           (if encrypted v then [''Encrypted: yes''] else []) @
           (if load_count v \<noteq> 0 then [''Load count: '' @ show_nat (load_count v)] else []) @
           (if application_vendor v \<noteq> [] then [''Application vendor: '' @ application_vendor v] else []) @
           (if application_name v \<noteq> [] then [''Application name: '' @ application_name v] else []) @
           (if application_version v \<noteq> [] then [''Application version: '' @ application_version v] else []) @
           (if user_medium_text_label v \<noteq> [] then [''Medium text label: '' @ user_medium_text_label v] else [])))"

text \<open>\<open>writeProtected\<close> is None where the code passes undefined (cleaning cartridges).\<close>

definition cartridgeLabelHTML ::
    "('a) app_scheme \<Rightarrow> string \<Rightarrow> string \<Rightarrow> bool option \<Rightarrow> bool \<Rightarrow> volume option \<Rightarrow> string" where
  "cartridgeLabelHTML s bc tapeSetName writeProtected editable vol =
     (let family = (if tapeSetName \<noteq> [] then tapeSetFamily s tapeSetName else None);
          badges =
            (case family of Some f \<Rightarrow> if f \<noteq> [] then [''<span class=\"cart-badge\">'' @ f @ ''</span>''] else [] | None \<Rightarrow> []) @
            (case vol of Some v \<Rightarrow> if number_of_partitions v > 1
               then [''<span class=\"cart-badge\">'' @ show_nat (number_of_partitions v) @ ''P</span>''] else [] | None \<Rightarrow> []) @
            (case vol of Some v \<Rightarrow> if encrypted v
               then [''<span class=\"cart-badge\">Encrypted</span>''] else [] | None \<Rightarrow> []);
          badge = (if badges \<noteq> [] then ''<div class=\"cart-meta\">'' @ concat badges @ ''</div>'' else []);
          wp = (case writeProtected of Some b \<Rightarrow> writeProtectSwitchHTML b editable | None \<Rightarrow> []);
          title = cartridgeDetailTitle vol
      in ''<div class=\"cart-shell\"'' @ (if title \<noteq> [] then '' title=\"'' @ title @ ''\"'' else []) @
         ''><div class=\"cart-barcode-row\"><div class=\"cart-barcode\">'' @ renderBarcodeSVG bc @ ''</div>'' @
         wp @ ''</div>'' @ badge @ ''</div>'')"

text \<open>The tooltip a cleaning cartridge's card gets; None leaves the card alone.\<close>

definition applyCleaningTooltip :: "volume option \<Rightarrow> nat \<Rightarrow> string option" where
  "applyCleaningTooltip vol maxUses =
     (case vol of None \<Rightarrow> None
      | Some v \<Rightarrow> if \<not> cleaning v then None
          else Some (''cleaning cycles left: '' @
            show_int (max 0 (int maxUses - int (cleaning_usage_count v)))))"

section \<open>Properties\<close>

lemma geometry_parts:
  "fst (barcode_geometry r code) =
     fst (symbol_bars r (unit_width r (length (symbol_of code))) (symbol_of code) (r (unit_width r (length (symbol_of code)) * 3)))"
  "snd (snd (barcode_geometry r code)) =
     r (snd (symbol_bars r (unit_width r (length (symbol_of code))) (symbol_of code) (r (unit_width r (length (symbol_of code)) * 3))) +
        r (unit_width r (length (symbol_of code)) * 3))"
  by (simp_all add: barcode_geometry_def Let_def case_prod_beta)

text \<open>
  In exact arithmetic the symbol encodes the barcode: measured with the scanner above, its bars and the spaces between them
  give the start character, exactly the cartridge's barcode, and the stop character. The SVG the code draws has doubles
  rounded to two decimals and compressed quiet zones; it is a decorative label, and this says nothing about scanning it.
\<close>

theorem barcode_scans_back:
  assumes "set code \<subseteq> code39_chars" and "CHR ''*'' \<in> code39_chars"
    and "u = unit_width (\<lambda>x. x) (length code + 2)"
  shows "scan u (fst (barcode_geometry (\<lambda>x. x) code)) = map Some (CHR ''*'' # code @ [CHR ''*''])"
proof -
  have "0 < u"
    by (simp add: assms(3) unit_width_def totalNarrowUnits_def narrowUnitsPerChar_def wideRatio_def add_pos_nonneg)
  moreover have "set (symbol_of code) \<subseteq> code39_chars" using assms(1,2) by (simp add: symbol_of_def)
  ultimately have "scan u (fst (symbol_bars (\<lambda>x. x) u (symbol_of code) (u * 3))) = map Some (symbol_of code)"
    by (rule scan_symbol)
  moreover have "length (symbol_of code) = length code + 2" by (simp add: symbol_of_def)
  ultimately show ?thesis
    by (simp add: geometry_parts assms(3)) (simp add: symbol_of_def)
qed

lemma sample_code39: "set ''A1L8'' \<subseteq> code39_chars" "CHR ''*'' \<in> code39_chars"
  by (simp_all add: code39_chars_def code39_patterns_def)

theorem barcode_scans_back_witness:
  "scan (unit_width (\<lambda>x. x) (length ''A1L8'' + 2)) (fst (barcode_geometry (\<lambda>x. x) ''A1L8'')) = map Some ''*A1L8*''"
  using barcode_scans_back [OF sample_code39 refl] by simp

text \<open>
  The symbol's dimensions: five bars per character, start and stop included, and in exact arithmetic a
  total width of 148 units whatever the length of the barcode.
\<close>

theorem barcode_dimensions:
  "length (fst (barcode_geometry r code)) = 5 * (length code + 2) \<and>
   snd (snd (barcode_geometry (\<lambda>x. x) code)) = 148"
proof
  show "length (fst (barcode_geometry r code)) = 5 * (length code + 2)"
    by (simp add: geometry_parts symbol_bars_count) (simp add: symbol_of_def)
  define n where "n = length (symbol_of code)"
  define u where "u = unit_width (\<lambda>x. x) n"
  have n: "n = Suc (Suc (length code))" by (simp add: n_def symbol_of_def)
  have "symbol_of code \<noteq> []" by (simp add: symbol_of_def)
  then have "snd (symbol_bars (\<lambda>x. x) u (symbol_of code) (u * 3)) =
      u * 3 + u * (132 / 10 * of_nat n + of_nat (n - 1))"
    by (simp add: symbol_bars_end n_def)
  then have "snd (snd (barcode_geometry (\<lambda>x. x) code)) = u * (132 / 10 * of_nat n + of_nat (n - 1) + 6)"
    by (simp add: geometry_parts u_def n_def algebra_simps)
  also have "132 / 10 * of_nat n + of_nat (n - 1) + 6 = totalNarrowUnits (\<lambda>x. x) n"
    by (simp add: totalNarrowUnits_def narrowUnitsPerChar_def wideRatio_def algebra_simps)
  also have "u * totalNarrowUnits (\<lambda>x. x) n = 148"
  proof -
    have "0 < totalNarrowUnits (\<lambda>x. x) n"
      by (simp add: totalNarrowUnits_def narrowUnitsPerChar_def wideRatio_def add_pos_nonneg)
    then show ?thesis by (simp add: u_def unit_width_def)
  qed
  finally show "snd (snd (barcode_geometry (\<lambda>x. x) code)) = 148" .
qed

end
