(* ===== verification/Drive_Status.thy ===== *)
theory Drive_Status
  imports Cartridge_Label Move_Options
begin

text \<open>
  What the dashboard says about drives, slots and the arm: the front-panel light of a drive
  (\<open>isDriveCleaning\<close>, \<open>driveLedState\<close>, \<open>driveLedTitle\<close>), the counts behind the statistics tiles and
  the collapsed-panel summaries (\<open>computeSlotCounts\<close>, \<open>computeDriveCounts\<close>, \<open>renderLibraryStats\<close>),
  and the labels of door phases and arm positions.
\<close>

section \<open>The front-panel light\<close>

text \<open>The strings of \<open>driveLedState\<close>, in rising priority; the order is the type's linear order.\<close>

datatype led = LedOff | LedIdle | LedBusy | LedReading | LedWriting | LedCleaning | LedFault

fun led_rank :: "led \<Rightarrow> nat" where
  "led_rank LedOff = 0"
| "led_rank LedIdle = 1"
| "led_rank LedBusy = 2"
| "led_rank LedReading = 3"
| "led_rank LedWriting = 4"
| "led_rank LedCleaning = 5"
| "led_rank LedFault = 6"

lemma led_rank_inject: "led_rank a = led_rank b \<longleftrightarrow> a = b"
  by (cases a; cases b) simp_all

instantiation led :: linorder
begin

definition less_eq_led :: "led \<Rightarrow> led \<Rightarrow> bool" where
  "less_eq_led a b \<longleftrightarrow> led_rank a \<le> led_rank b"

definition less_led :: "led \<Rightarrow> led \<Rightarrow> bool" where
  "less_led a b \<longleftrightarrow> led_rank a < led_rank b"

instance
  by standard (auto simp: less_eq_led_def less_led_def led_rank_inject)

end

fun led_name :: "led \<Rightarrow> string" where
  "led_name LedOff = ''off''"
| "led_name LedIdle = ''idle''"
| "led_name LedBusy = ''busy''"
| "led_name LedReading = ''reading''"
| "led_name LedWriting = ''writing''"
| "led_name LedCleaning = ''cleaning''"
| "led_name LedFault = ''fault''"

definition isDriveCleaning :: "drive \<Rightarrow> bool" where
  "isDriveCleaning d = (case drive_volume d of None \<Rightarrow> False
     | Some v \<Rightarrow> cleaning v \<and> cleaning_state v = ''in_use'')"

definition driveLedState :: "('a) app_scheme \<Rightarrow> drive \<Rightarrow> led" where
  "driveLedState s d =
     (if fault d then LedFault
      else if isDriveCleaning d then LedCleaning
      else if activity d = ''writing'' then LedWriting
      else if activity d = ''reading'' then LedReading
      else if drive_index d \<in> pendingDriveOps s then LedBusy
      else if drive_volume d \<noteq> None then LedIdle
      else LedOff)"

fun driveLedTitle :: "led \<Rightarrow> string" where
  "driveLedTitle LedFault = ''Fault''"
| "driveLedTitle LedCleaning = ''Cleaning''"
| "driveLedTitle LedWriting = ''Writing''"
| "driveLedTitle LedReading = ''Reading''"
| "driveLedTitle LedBusy = ''Active operation''"
| "driveLedTitle LedIdle = ''Ready''"
| "driveLedTitle LedOff = ''Empty''"

text \<open>The conditions a drive can be in, each with the light that stands for it.\<close>

definition led_signals :: "('a) app_scheme \<Rightarrow> drive \<Rightarrow> led set" where
  "led_signals s d =
     {LedOff} \<union> (if drive_volume d \<noteq> None then {LedIdle} else {})
       \<union> (if drive_index d \<in> pendingDriveOps s then {LedBusy} else {})
       \<union> (if activity d = ''reading'' then {LedReading} else {})
       \<union> (if activity d = ''writing'' then {LedWriting} else {})
       \<union> (if isDriveCleaning d then {LedCleaning} else {})
       \<union> (if fault d then {LedFault} else {})"

lemma finite_led_signals: "finite (led_signals s d)"
  by (simp add: led_signals_def)

lemma driveLedState_signal: "driveLedState s d \<in> led_signals s d"
  by (simp add: driveLedState_def led_signals_def)

lemma driveLedState_highest: "l \<in> led_signals s d \<Longrightarrow> l \<le> driveLedState s d"
  by (auto simp: driveLedState_def led_signals_def less_eq_led_def split: if_splits)

section \<open>Counts\<close>

record slot_counts =
  sc_total :: nat
  sc_occupied :: nat
  sc_free :: nat

text \<open>Slots and I/O slots have the same \<open>volume\<close> field; \<open>vol\<close> reads it.\<close>

definition computeSlotCounts :: "('e \<Rightarrow> volume option) \<Rightarrow> 'e list \<Rightarrow> slot_counts" where
  "computeSlotCounts vol es =
     (let occupied = length (filter (\<lambda>e. vol e \<noteq> None) es)
      in \<lparr>sc_total = length es, sc_occupied = occupied, sc_free = length es - occupied\<rparr>)"

record drive_counts =
  dc_total :: nat
  dc_active :: nat
  dc_idle :: nat
  dc_free :: nat
  dc_fault :: nat

fun count_drives :: "drive list \<Rightarrow> drive_counts \<Rightarrow> drive_counts" where
  "count_drives [] c = c"
| "count_drives (d # ds) c =
     (if fault d then count_drives ds (c\<lparr>dc_fault := Suc (dc_fault c)\<rparr>)
      else if drive_volume d = None then count_drives ds (c\<lparr>dc_free := Suc (dc_free c)\<rparr>)
      else if activity d = ''reading'' \<or> activity d = ''writing''
        then count_drives ds (c\<lparr>dc_active := Suc (dc_active c)\<rparr>)
      else count_drives ds (c\<lparr>dc_idle := Suc (dc_idle c)\<rparr>))"

definition computeDriveCounts :: "drive list \<Rightarrow> drive_counts" where
  "computeDriveCounts ds =
     count_drives ds \<lparr>dc_total = length ds, dc_active = 0, dc_idle = 0, dc_free = 0, dc_fault = 0\<rparr>"

lemma count_drives_buckets:
  "dc_total (count_drives ds c) = dc_total c"
  "dc_fault (count_drives ds c) = dc_fault c + length (filter fault ds)"
  "dc_free (count_drives ds c) = dc_free c + length (filter (\<lambda>d. \<not> fault d \<and> drive_volume d = None) ds)"
  "dc_active (count_drives ds c) = dc_active c + length (filter (\<lambda>d. \<not> fault d \<and> drive_volume d \<noteq> None \<and>
     (activity d = ''reading'' \<or> activity d = ''writing'')) ds)"
  "dc_idle (count_drives ds c) = dc_idle c + length (filter (\<lambda>d. \<not> fault d \<and> drive_volume d \<noteq> None \<and>
     \<not> (activity d = ''reading'' \<or> activity d = ''writing'')) ds)"
  by (induction ds c rule: count_drives.induct) simp_all

section \<open>Labels\<close>

definition phaseLabel :: "string \<Rightarrow> string" where
  "phaseLabel phase =
     (if phase = ''opening'' then ''Opening'' @ ellipsis
      else if phase = ''closing'' then ''Closing'' @ ellipsis
      else if phase = ''scanning'' then ''Scanning'' @ ellipsis
      else [])"

definition armPositionLabel :: "arm_position option \<Rightarrow> string" where
  "armPositionLabel pos =
     (case pos of None \<Rightarrow> ''Unknown''
      | Some p \<Rightarrow>
          if arm_kind p = [] then ''Unknown''
          else if arm_kind p = ''parked'' then ''Parked''
          else if arm_kind p = ''slot'' then ''Slot '' @ or_else (arm_label p) (show_int (arm_address p))
          else if arm_kind p = ''ioslot'' then ''I/O slot '' @ or_else (arm_label p) (show_int (arm_address p))
          else if arm_kind p = ''drive'' then ''Drive '' @ show_int (arm_address p)
          else ''Unknown'')"

section \<open>The statistics tiles\<close>

definition statCardHTML :: "string \<Rightarrow> string \<Rightarrow> string \<Rightarrow> string \<Rightarrow> string" where
  "statCardHTML label val valueClass tooltip =
     (let tt = (if tooltip \<noteq> [] then '' data-tooltip=\"'' @ tooltip @ ''\"'' else [])
      in ''<div class=\"card stat-card\"'' @ tt @ ''><div class=\"stat-label\">'' @ label @
         ''</div><div class=\"stat-value'' @ (if valueClass \<noteq> [] then '' '' @ valueClass else []) @ ''\">'' @
         val @ ''</div></div>'')"

definition statSectionHTML :: "string \<Rightarrow> string \<Rightarrow> string" where
  "statSectionHTML title cardsHTML =
     ''<div class=\"stat-section\"><div class=\"stat-section-label\">'' @ title @
     ''</div><div class=\"stat-cards\">'' @ cardsHTML @ ''</div></div>''"

definition inLibraryVolumes :: "status \<Rightarrow> volume list" where
  "inLibraryVolumes st =
     List.map_filter slot_volume (or_nil (slots st)) @
     List.map_filter io_volume (or_nil (ioslots st)) @
     List.map_filter drive_volume (or_nil (drives st))"

text \<open>\<open>new Set(xs.filter(Boolean)).size\<close>.\<close>

definition distinct_count :: "string list \<Rightarrow> nat" where
  "distinct_count xs = length (remdups (filter (\<lambda>x. x \<noteq> []) xs))"

text \<open>The byte sums run over the volumes with a capacity.\<close>

definition capacity_sums :: "volume list \<Rightarrow> nat \<times> nat" where
  "capacity_sums vs =
     fold (\<lambda>v (w, c). if capacity_bytes v > 0 then (w + written_bytes v, c + capacity_bytes v) else (w, c))
       vs (0, 0)"

text \<open>
  The inner HTML of \<open>#libraryStats\<close> and the text of \<open>#librarySummary\<close>. The number of configured tape
  sets is the number of keys of \<open>state.tapeSetFamily\<close>, given as \<open>tapeSetNames\<close>; the local rendering of
  the backup time (\<open>toLocaleString\<close>) is the argument \<open>locale_time\<close>.
\<close>

definition renderLibraryStats ::
    "(string \<Rightarrow> string) \<Rightarrow> nat \<Rightarrow> ('a) app_scheme \<Rightarrow> status \<Rightarrow> string \<times> string" where
  "renderLibraryStats locale_time configuredTapeSets s st =
     (let slotCounts = computeSlotCounts slot_volume (or_nil (slots st));
          slotsHTML = statCardHTML ''Total slots'' (show_nat (sc_total slotCounts)) [] [] @
            statCardHTML ''Free'' (show_nat (sc_free slotCounts)) ''ok'' [] @
            statCardHTML ''Occupied'' (show_nat (sc_occupied slotCounts)) [] [] @
            statCardHTML ''Occupancy'' (statPct (sc_occupied slotCounts) (sc_total slotCounts)) [] [];
          dc = computeDriveCounts (or_nil (drives st));
          drivesHTML = statCardHTML ''Total drives'' (show_nat (dc_total dc)) [] [] @
            statCardHTML ''Free'' (show_nat (dc_free dc)) ''ok'' [] @
            statCardHTML ''Active'' (show_nat (dc_active dc)) (if dc_active dc \<noteq> 0 then ''warn'' else []) [] @
            statCardHTML ''Idle'' (show_nat (dc_idle dc)) [] [] @
            statCardHTML ''Faults'' (show_nat (dc_fault dc)) (if dc_fault dc \<noteq> 0 then ''err'' else ''ok'') [] @
            statCardHTML ''Utilization'' (statPct (dc_active dc) (dc_total dc)) [] [];
          vols = inLibraryVolumes st;
          (written, capacity) = capacity_sums vols;
          tapeHTML = statCardHTML ''Volumes in library'' (show_nat (length vols)) [] [] @
            statCardHTML ''Magazines'' (show_nat (distinct_count (map magazine_id (or_nil (slots st))))) [] [] @
            statCardHTML ''Mailboxes'' (show_nat (distinct_count (map mailbox_id (or_nil (ioslots st))))) [] [] @
            statCardHTML ''Tape sets in use'' (show_nat (distinct_count (map tape_set vols))) [] [] @
            statCardHTML ''Capacity used'' (statPct written capacity) [] [] @
            (if configuredTapeSets > 0
             then statCardHTML ''Configured tape sets'' (show_nat configuredTapeSets) [] [] else []) @
            (case backupLastRun s of Some t \<Rightarrow> statCardHTML ''Last backup'' (locale_time t) [] [] | None \<Rightarrow> []);
          arm = (case armState s of Some a \<Rightarrow> Some a | None \<Rightarrow> st_arm_state st)
      in (statSectionHTML ''Storage Slots'' slotsHTML @ statSectionHTML ''Drives'' drivesHTML @
          statSectionHTML ''Tape Management'' tapeHTML,
          ''arm position: '' @ armPositionLabel (map_option position arm) @ '', total slots: '' @
          show_nat (sc_total slotCounts) @ '', total volumes: '' @ show_nat (length vols)))"

lemma capacity_sums_eq:
  "capacity_sums vs =
     (sum_list (map written_bytes (filter (\<lambda>v. capacity_bytes v > 0) vs)), sum_list (map capacity_bytes vs))"
proof -
  have "fold (\<lambda>v (w, c). if capacity_bytes v > 0 then (w + written_bytes v, c + capacity_bytes v) else (w, c))
      vs (w0, c0) =
     (w0 + sum_list (map written_bytes (filter (\<lambda>v. capacity_bytes v > 0) vs)),
      c0 + sum_list (map capacity_bytes vs))" for w0 c0
    by (induction vs arbitrary: w0 c0) auto
  then show ?thesis by (simp add: capacity_sums_def)
qed

section \<open>Properties\<close>

text \<open>
  The light of a drive's front panel shows the most urgent of the conditions the drive is in: fault,
  cleaning, writing, reading, an operation in flight, a loaded cartridge, or nothing.
\<close>

theorem drive_led_is_highest_signal: "driveLedState s d = Max (led_signals s d)"
  using finite_led_signals driveLedState_signal driveLedState_highest by (metis Max_eqI)

text \<open>
  The drive tiles add up: the faulty, empty, active and idle drives are disjoint and together all drives,
  and the occupied and free slots are together all slots.
\<close>

theorem dashboard_counts_add_up:
  "dc_fault (computeDriveCounts ds) + dc_free (computeDriveCounts ds) + dc_active (computeDriveCounts ds) +
     dc_idle (computeDriveCounts ds) = dc_total (computeDriveCounts ds) \<and>
   dc_total (computeDriveCounts ds) = length ds \<and>
   sc_occupied (computeSlotCounts vol es) + sc_free (computeSlotCounts vol es) = length es"
proof -
  have "length (filter fault ds) + length (filter (\<lambda>d. \<not> fault d \<and> drive_volume d = None) ds) +
      length (filter (\<lambda>d. \<not> fault d \<and> drive_volume d \<noteq> None \<and> (activity d = ''reading'' \<or> activity d = ''writing'')) ds) +
      length (filter (\<lambda>d. \<not> fault d \<and> drive_volume d \<noteq> None \<and> \<not> (activity d = ''reading'' \<or> activity d = ''writing'')) ds) =
      length ds"
    by (induction ds) auto
  then show ?thesis by (simp add: computeDriveCounts_def count_drives_buckets computeSlotCounts_def Let_def)
qed

text \<open>
  The "Capacity used" tile compares like with like: its two sums are the bytes written to and the capacity
  of the same volumes, those in slots, I/O slots and drives with a known capacity, and a volume that is not
  over-full never makes the share exceed the whole.
\<close>

theorem capacity_tile_sums:
  assumes "\<forall>v\<in>set (inLibraryVolumes st). capacity_bytes v > 0 \<longrightarrow> written_bytes v \<le> capacity_bytes v"
  shows "capacity_sums (inLibraryVolumes st) =
     (sum_list (map written_bytes (filter (\<lambda>v. capacity_bytes v > 0) (inLibraryVolumes st))),
      sum_list (map capacity_bytes (filter (\<lambda>v. capacity_bytes v > 0) (inLibraryVolumes st)))) \<and>
     fst (capacity_sums (inLibraryVolumes st)) \<le> snd (capacity_sums (inLibraryVolumes st))"
proof -
  let ?vs = "inLibraryVolumes st"
  have caps: "sum_list (map capacity_bytes (filter (\<lambda>v. capacity_bytes v > 0) vs)) = sum_list (map capacity_bytes vs)" for vs
    by (induction vs) auto
  have "sum_list (map written_bytes (filter (\<lambda>v. capacity_bytes v > 0) ?vs)) \<le>
      sum_list (map capacity_bytes (filter (\<lambda>v. capacity_bytes v > 0) ?vs))"
    using assms by (intro sum_list_mono) auto
  then show ?thesis by (simp add: capacity_sums_eq caps)
qed

definition empty_status :: status where
  "empty_status = \<lparr>st_name = [], slots = None, ioslots = None, drives = None, outside_volumes = None,
     offsite_volumes = None, offsite_enabled = False, doors = None, robotic_fault = None, st_arm_state = None,
     busy_elements = None, cleaning_enabled = False, cleaning_mount_threshold = 0, cleaning_max_uses = 0,
     magazine_pin_required = False, mailbox_pin_required = None, tape_set_families = None,
     drive_type_families = None\<rparr>"

theorem capacity_tile_sums_witness:
  "fst (capacity_sums (inLibraryVolumes empty_status)) \<le> snd (capacity_sums (inLibraryVolumes empty_status))"
  using capacity_tile_sums [of empty_status] by (simp add: inLibraryVolumes_def empty_status_def)

end
