(* ===== verification/Drag_Drop.thy ===== *)
theory Drag_Drop
  imports Prelude
begin

text \<open>
  The drag-and-drop plumbing (\<open>wireDraggable\<close>, \<open>wireDropZone\<close>, \<open>resetDropZones\<close> in app.js), which knows
  nothing of what is dragged. The two boards built on it, step 7 of the setup wizard (Wizard_Board) and
  the logical-library dialog (Assignment_Board), interpret the locale \<open>drag_board\<close>: they say which
  payloads their render offers, which zones it registers, what a zone accepts and what a drop does, and
  promise that an accepted drop keeps the board's invariant. The locale gives them the invariant in
  every state any sequence of gestures reaches.
\<close>

section \<open>The module variables\<close>

text \<open>
  \<open>dragPayload\<close> and \<open>dropZones\<close>. A zone is named by what distinguishes it on its board; its element's
  classes are the list of class names the handlers toggle.
\<close>

record ('p, 'z) drag_state =
  dragPayload :: "'p option"
  dropZones :: "'z list"
  zone_classes :: "'z \<Rightarrow> string list"

definition toggle_class :: "string \<Rightarrow> bool \<Rightarrow> string list \<Rightarrow> string list" where
  "toggle_class c on cs = (if on then (if c \<in> set cs then cs else cs @ [c]) else filter (\<lambda>d. d \<noteq> c) cs)"

definition resetDropZones :: "('p, 'z) drag_state \<Rightarrow> ('p, 'z) drag_state" where
  "resetDropZones d = d\<lparr>dropZones := []\<rparr>"

text \<open>The registration half of \<open>wireDropZone\<close>.\<close>

definition wireDropZone :: "'z \<Rightarrow> ('p, 'z) drag_state \<Rightarrow> ('p, 'z) drag_state" where
  "wireDropZone z d = d\<lparr>dropZones := dropZones d @ [z]\<rparr>"

text \<open>The \<open>dragstart\<close> listener of \<open>wireDraggable\<close>.\<close>

definition on_dragstart :: "('z \<Rightarrow> 'p \<Rightarrow> bool) \<Rightarrow> 'p \<Rightarrow> ('p, 'z) drag_state \<Rightarrow> ('p, 'z) drag_state" where
  "on_dragstart accepts p d =
     d\<lparr>dragPayload := Some p,
       zone_classes := fold (\<lambda>z cl. cl(z := toggle_class ''drop-invalid'' (\<not> accepts z p)
                                          (toggle_class ''drop-valid'' (accepts z p) (cl z))))
                         (dropZones d) (zone_classes d)\<rparr>"

text \<open>The \<open>dragend\<close> listener.\<close>

definition on_dragend :: "('p, 'z) drag_state \<Rightarrow> ('p, 'z) drag_state" where
  "on_dragend d =
     d\<lparr>dragPayload := None,
       zone_classes := fold (\<lambda>z cl. cl(z := filter (\<lambda>c. c \<notin> {''drop-valid'', ''drop-invalid'', ''drag-over''}) (cl z)))
                         (dropZones d) (zone_classes d)\<rparr>"

text \<open>\<open>dragenter\<close> and \<open>dragover\<close> call \<open>preventDefault\<close>, which is what makes the browser allow a drop
  there, exactly when this holds.\<close>

definition drop_allowed :: "('z \<Rightarrow> 'p \<Rightarrow> bool) \<Rightarrow> 'z \<Rightarrow> ('p, 'z) drag_state \<Rightarrow> bool" where
  "drop_allowed accepts z d = (case dragPayload d of None \<Rightarrow> False | Some p \<Rightarrow> accepts z p)"

definition on_dragenter :: "('z \<Rightarrow> 'p \<Rightarrow> bool) \<Rightarrow> 'z \<Rightarrow> ('p, 'z) drag_state \<Rightarrow> ('p, 'z) drag_state" where
  "on_dragenter accepts z d =
     (if drop_allowed accepts z d
      then d\<lparr>zone_classes := (zone_classes d)(z := toggle_class ''drag-over'' True (zone_classes d z))\<rparr> else d)"

text \<open>The \<open>drop\<close> listener: the payload handed to \<open>onDrop\<close>, if any.\<close>

definition on_drop_payload :: "('z \<Rightarrow> 'p \<Rightarrow> bool) \<Rightarrow> 'z \<Rightarrow> ('p, 'z) drag_state \<Rightarrow> 'p option" where
  "on_drop_payload accepts z d =
     (case dragPayload d of None \<Rightarrow> None | Some p \<Rightarrow> if accepts z p then Some p else None)"

lemma fold_zone_classes:
  "distinct zs \<Longrightarrow>
     fold (\<lambda>z cl. cl(z := f z (cl z))) zs cl z = (if z \<in> set zs then f z (cl z) else cl z)"
  by (induction zs arbitrary: cl) auto

lemma toggle_class_mem [simp]:
  "c \<in> set (toggle_class d on cs) \<longleftrightarrow> (if c = d then on else c \<in> set cs)"
  by (auto simp: toggle_class_def)

section \<open>The interface of a board\<close>

text \<open>
  One gesture: a payload the current render offers is picked up and dropped on one of its zones that
  accepts it, or the drag is given up. A drop whose handler throws (None) leaves the board as it was.
\<close>

inductive gesture ::
    "('s \<Rightarrow> 'p set) \<Rightarrow> ('s \<Rightarrow> 'z set) \<Rightarrow> ('z \<Rightarrow> 'p \<Rightarrow> bool) \<Rightarrow> ('z \<Rightarrow> 'p \<Rightarrow> 's \<Rightarrow> 's option) \<Rightarrow> 's \<Rightarrow> 's \<Rightarrow> bool"
  for offered zones accepts on_drop where
  dropped: "p \<in> offered s \<Longrightarrow> z \<in> zones s \<Longrightarrow> accepts z p \<Longrightarrow> on_drop z p s = Some s' \<Longrightarrow>
     gesture offered zones accepts on_drop s s'"
| failed: "p \<in> offered s \<Longrightarrow> z \<in> zones s \<Longrightarrow> accepts z p \<Longrightarrow> on_drop z p s = None \<Longrightarrow>
     gesture offered zones accepts on_drop s s"

inductive_cases gestureE: "gesture offered zones accepts on_drop s s'"

locale drag_board =
  fixes offered :: "'s \<Rightarrow> 'p set"
    and zones :: "'s \<Rightarrow> 'z set"
    and accepts :: "'z \<Rightarrow> 'p \<Rightarrow> bool"
    and on_drop :: "'z \<Rightarrow> 'p \<Rightarrow> 's \<Rightarrow> 's option"
    and inv :: "'s \<Rightarrow> bool"
  assumes drop_inv: "inv s \<Longrightarrow> p \<in> offered s \<Longrightarrow> z \<in> zones s \<Longrightarrow> accepts z p \<Longrightarrow>
      on_drop z p s = Some s' \<Longrightarrow> inv s'"
begin

lemma gesture_inv: "gesture offered zones accepts on_drop s s' \<Longrightarrow> inv s \<Longrightarrow> inv s'"
  by (auto elim!: gestureE intro: drop_inv)

lemma gestures_inv: "(gesture offered zones accepts on_drop)\<^sup>*\<^sup>* s s' \<Longrightarrow> inv s \<Longrightarrow> inv s'"
  by (induction rule: rtranclp_induct) (auto intro: gesture_inv)

end

end
