(* ===== verification/Library_Owners.thy ===== *)
theory Library_Owners
  imports Api_Types
begin

text \<open>
  Which logical library an element belongs to: \<open>buildLibraryMaps\<close> (the colors of the dashboard),
  \<open>computeLogicalLibraryOwners\<close> and \<open>logicalLibraryMembership\<close> (the logical-library dialog),
  \<open>buildDrivePathIndex\<close> and \<open>driveDevicePathCell\<close> (the kernel-mode device paths) of app.js. All of
  them fill dictionaries in nested loops, so a later claim of the same key overwrites an earlier one;
  \<open>claim_map\<close> is that loop once, and \<open>claim_map_lookup\<close> says what it computes.
\<close>

section \<open>The common loop\<close>

definition assign_all :: "'k list \<Rightarrow> 'v \<Rightarrow> ('k \<rightharpoonup> 'v) \<Rightarrow> ('k \<rightharpoonup> 'v)" where
  "assign_all ks v m = fold (\<lambda>k m. m(k \<mapsto> v)) ks m"

definition claim_map :: "('l \<Rightarrow> 'k list) \<Rightarrow> ('l \<Rightarrow> 'v) \<Rightarrow> 'l list \<Rightarrow> ('k \<rightharpoonup> 'v) \<Rightarrow> ('k \<rightharpoonup> 'v)" where
  "claim_map keys val ls m = fold (\<lambda>l m. assign_all (keys l) (val l) m) ls m"

lemma assign_all_apply: "assign_all ks v m k = (if k \<in> set ks then Some v else m k)"
  by (induction ks arbitrary: m) (auto simp: assign_all_def)

text \<open>The last claim decides.\<close>

lemma claim_map_lookup:
  "claim_map keys val ls m k =
     (case List.find (\<lambda>l. k \<in> set (keys l)) (rev ls) of None \<Rightarrow> m k | Some l \<Rightarrow> Some (val l))"
proof (induction ls arbitrary: m)
  case Nil
  then show ?case by (simp add: claim_map_def)
next
  case (Cons l ls)
  have "claim_map keys val (l # ls) m k = claim_map keys val ls (assign_all (keys l) (val l) m) k"
    by (simp add: claim_map_def)
  also have "\<dots> = (case List.find (\<lambda>l. k \<in> set (keys l)) (rev ls) of
      None \<Rightarrow> assign_all (keys l) (val l) m k | Some l \<Rightarrow> Some (val l))" by (rule Cons.IH)
  finally show ?case
    by (auto simp: assign_all_apply find_append split: option.splits)
qed

lemma claim_map_None:
  "claim_map keys val ls Map.empty k = None \<longleftrightarrow> (\<forall>l\<in>set ls. k \<notin> set (keys l))"
  by (auto simp: claim_map_lookup find_None_iff split: option.splits dest!: find_SomeD)

lemma claim_map_Some:
  "claim_map keys val ls Map.empty k = Some v \<Longrightarrow> \<exists>l\<in>set ls. k \<in> set (keys l) \<and> v = val l"
  by (auto simp: claim_map_lookup split: option.splits dest!: find_SomeD)

lemma claim_map_unique:
  assumes "l \<in> set ls" and "k \<in> set (keys l)"
    and "\<And>l'. l' \<in> set ls \<Longrightarrow> k \<in> set (keys l') \<Longrightarrow> val l' = val l"
  shows "claim_map keys val ls Map.empty k = Some (val l)"
proof (cases "claim_map keys val ls Map.empty k")
  case None
  with assms(1,2) show ?thesis by (simp add: claim_map_None)
next
  case (Some v)
  with assms(3) show ?thesis by (metis claim_map_Some)
qed

section \<open>Dashboard colors\<close>

record library_maps =
  driveColor :: "int \<rightharpoonup> string"
  slotColor :: "int \<rightharpoonup> string"
  ioslotColor :: "int \<rightharpoonup> string"

definition drive_indices :: "logical_library \<Rightarrow> int list" where
  "drive_indices lib = map drive_index (or_nil (lib_drives lib))"

definition slot_addresses :: "logical_library \<Rightarrow> int list" where
  "slot_addresses lib = map slot_address (or_nil (lib_slots lib))"

definition ioslot_addresses :: "logical_library \<Rightarrow> int list" where
  "ioslot_addresses lib = map io_address (or_nil (lib_io_slots lib))"

definition buildLibraryMaps :: "logical_library list \<Rightarrow> library_maps" where
  "buildLibraryMaps libs =
     fold (\<lambda>lib m. \<lparr>driveColor = assign_all (drive_indices lib) (lib_color lib) (driveColor m),
                    slotColor = assign_all (slot_addresses lib) (lib_color lib) (slotColor m),
                    ioslotColor = assign_all (ioslot_addresses lib) (lib_color lib) (ioslotColor m)\<rparr>)
       libs \<lparr>driveColor = Map.empty, slotColor = Map.empty, ioslotColor = Map.empty\<rparr>"

lemma buildLibraryMaps_eq:
  "driveColor (buildLibraryMaps libs) = claim_map drive_indices lib_color libs Map.empty"
  "slotColor (buildLibraryMaps libs) = claim_map slot_addresses lib_color libs Map.empty"
  "ioslotColor (buildLibraryMaps libs) = claim_map ioslot_addresses lib_color libs Map.empty"
proof -
  define step where "step = (\<lambda>lib (m :: library_maps). \<lparr>driveColor = assign_all (drive_indices lib) (lib_color lib) (driveColor m),
                    slotColor = assign_all (slot_addresses lib) (lib_color lib) (slotColor m),
                    ioslotColor = assign_all (ioslot_addresses lib) (lib_color lib) (ioslotColor m)\<rparr>)"
  have "driveColor (fold step libs m) = claim_map drive_indices lib_color libs (driveColor m) \<and>
        slotColor (fold step libs m) = claim_map slot_addresses lib_color libs (slotColor m) \<and>
        ioslotColor (fold step libs m) = claim_map ioslot_addresses lib_color libs (ioslotColor m)" for m
    by (induction libs arbitrary: m) (simp_all add: claim_map_def step_def)
  then show
    "driveColor (buildLibraryMaps libs) = claim_map drive_indices lib_color libs Map.empty"
    "slotColor (buildLibraryMaps libs) = claim_map slot_addresses lib_color libs Map.empty"
    "ioslotColor (buildLibraryMaps libs) = claim_map ioslot_addresses lib_color libs Map.empty"
    by (simp_all add: buildLibraryMaps_def step_def [symmetric])
qed

section \<open>Owners, for the logical-library dialog\<close>

record owner =
  owner_name :: string
  owner_color :: string

record library_owners =
  driveOwner :: "int \<rightharpoonup> owner"
  magazineOwner :: "string \<rightharpoonup> owner"
  mailboxOwner :: "string \<rightharpoonup> owner"

definition lib_magazine_ids :: "logical_library \<Rightarrow> string list" where
  "lib_magazine_ids lib = filter (\<lambda>m. m \<noteq> []) (map magazine_id (or_nil (lib_slots lib)))"

definition lib_mailbox_ids :: "logical_library \<Rightarrow> string list" where
  "lib_mailbox_ids lib = filter (\<lambda>m. m \<noteq> []) (map mailbox_id (or_nil (lib_io_slots lib)))"

definition owner_of_lib :: "logical_library \<Rightarrow> owner" where
  "owner_of_lib lib = \<lparr>owner_name = lib_name lib, owner_color = lib_color lib\<rparr>"

text \<open>\<open>excludeName\<close> is None where the caller passes nothing.\<close>

definition computeLogicalLibraryOwners :: "logical_library list \<Rightarrow> string option \<Rightarrow> library_owners" where
  "computeLogicalLibraryOwners libs excludeName =
     fold (\<lambda>lib m. if Some (lib_name lib) = excludeName then m
             else \<lparr>driveOwner = assign_all (drive_indices lib) (owner_of_lib lib) (driveOwner m),
                   magazineOwner = assign_all (lib_magazine_ids lib) (owner_of_lib lib) (magazineOwner m),
                   mailboxOwner = assign_all (lib_mailbox_ids lib) (owner_of_lib lib) (mailboxOwner m)\<rparr>)
       libs \<lparr>driveOwner = Map.empty, magazineOwner = Map.empty, mailboxOwner = Map.empty\<rparr>"

definition other_libs :: "string option \<Rightarrow> logical_library list \<Rightarrow> logical_library list" where
  "other_libs excludeName libs = filter (\<lambda>lib. Some (lib_name lib) \<noteq> excludeName) libs"

lemma computeLogicalLibraryOwners_eq:
  "driveOwner (computeLogicalLibraryOwners libs ex) = claim_map drive_indices owner_of_lib (other_libs ex libs) Map.empty"
  "magazineOwner (computeLogicalLibraryOwners libs ex) = claim_map lib_magazine_ids owner_of_lib (other_libs ex libs) Map.empty"
  "mailboxOwner (computeLogicalLibraryOwners libs ex) = claim_map lib_mailbox_ids owner_of_lib (other_libs ex libs) Map.empty"
proof -
  define step where "step = (\<lambda>lib (m :: library_owners). if Some (lib_name lib) = ex then m
             else \<lparr>driveOwner = assign_all (drive_indices lib) (owner_of_lib lib) (driveOwner m),
                   magazineOwner = assign_all (lib_magazine_ids lib) (owner_of_lib lib) (magazineOwner m),
                   mailboxOwner = assign_all (lib_mailbox_ids lib) (owner_of_lib lib) (mailboxOwner m)\<rparr>)"
  have "driveOwner (fold step libs m) = claim_map drive_indices owner_of_lib (other_libs ex libs) (driveOwner m) \<and>
        magazineOwner (fold step libs m) = claim_map lib_magazine_ids owner_of_lib (other_libs ex libs) (magazineOwner m) \<and>
        mailboxOwner (fold step libs m) = claim_map lib_mailbox_ids owner_of_lib (other_libs ex libs) (mailboxOwner m)" for m
    by (induction libs arbitrary: m) (simp_all add: claim_map_def step_def other_libs_def)
  then show
    "driveOwner (computeLogicalLibraryOwners libs ex) = claim_map drive_indices owner_of_lib (other_libs ex libs) Map.empty"
    "magazineOwner (computeLogicalLibraryOwners libs ex) = claim_map lib_magazine_ids owner_of_lib (other_libs ex libs) Map.empty"
    "mailboxOwner (computeLogicalLibraryOwners libs ex) = claim_map lib_mailbox_ids owner_of_lib (other_libs ex libs) Map.empty"
    by (simp_all add: computeLogicalLibraryOwners_def step_def [symmetric])
qed

section \<open>Membership\<close>

text \<open>A JavaScript set, in insertion order.\<close>

definition set_add :: "'a \<Rightarrow> 'a list \<Rightarrow> 'a list" where
  "set_add x xs = (if x \<in> set xs then xs else xs @ [x])"

definition js_set :: "'a list \<Rightarrow> 'a list" where
  "js_set xs = fold set_add xs []"

definition set_delete :: "'a \<Rightarrow> 'a list \<Rightarrow> 'a list" where
  "set_delete x xs = filter (\<lambda>y. y \<noteq> x) xs"

lemma set_set_add [simp]: "set (set_add x xs) = insert x (set xs)"
  by (auto simp: set_add_def)

lemma distinct_set_add [simp]: "distinct xs \<Longrightarrow> distinct (set_add x xs)"
  by (simp add: set_add_def)

lemma set_set_delete [simp]: "set (set_delete x xs) = set xs - {x}"
  by (auto simp: set_delete_def)

lemma distinct_set_delete [simp]: "distinct xs \<Longrightarrow> distinct (set_delete x xs)"
  by (simp add: set_delete_def)

lemma js_set_props [simp]: "set (js_set xs) = set xs" "distinct (js_set xs)"
proof -
  have "set (fold set_add xs ys) = set xs \<union> set ys \<and> (distinct ys \<longrightarrow> distinct (fold set_add xs ys))" for ys
    by (induction xs arbitrary: ys) auto
  then show "set (js_set xs) = set xs" "distinct (js_set xs)" by (simp_all add: js_set_def)
qed

lemma js_set_distinct: "distinct xs \<Longrightarrow> js_set xs = xs"
proof -
  have "distinct (ys @ xs) \<Longrightarrow> fold set_add xs ys = ys @ xs" for ys
    by (induction xs arbitrary: ys) (auto simp: set_add_def)
  then show "distinct xs \<Longrightarrow> js_set xs = xs" by (simp add: js_set_def)
qed

record membership =
  m_drives :: "int list"
  m_magazines :: "string list"
  m_mailboxes :: "string list"

text \<open>The two loops push an id that is not yet included.\<close>

definition logicalLibraryMembership :: "logical_library \<Rightarrow> membership" where
  "logicalLibraryMembership lib =
     \<lparr>m_drives = drive_indices lib, m_magazines = js_set (lib_magazine_ids lib),
      m_mailboxes = js_set (lib_mailbox_ids lib)\<rparr>"

section \<open>Kernel-mode device paths\<close>

record drive_paths =
  generic :: string
  tape :: string
  stable_generic :: string
  stable_tape :: string

text \<open>A report: the changer's raw and stable path, and the entries of its drives object.\<close>

record device_report =
  changer :: string
  changer_stable :: string
  report_drives :: "(int \<times> drive_paths) list option"

text \<open>\<open>Object.entries\<close> of the report set, in its order; each drive's paths with the instance's name.\<close>

definition buildDrivePathIndex :: "(string \<times> device_report) list option \<Rightarrow> (int \<rightharpoonup> drive_paths \<times> string)" where
  "buildDrivePathIndex kernelModeDevices =
     fold (\<lambda>(instance_name, report) byIndex.
             fold (\<lambda>(driveIndex, paths) m. m(driveIndex \<mapsto> (paths, instance_name)))
               (or_nil (report_drives report)) byIndex)
       (or_nil kernelModeDevices) Map.empty"

definition driveDevicePathCell :: "drive \<Rightarrow> (int \<rightharpoonup> drive_paths \<times> string) \<Rightarrow> string" where
  "driveDevicePathCell d drivePaths =
     (case drivePaths (drive_index d) of
        None \<Rightarrow> device_path d
      | Some (kp, inst) \<Rightarrow>
          or_else (stable_tape kp)
            (or_else (stable_generic kp)
              (generic kp @ (if tape kp \<noteq> [] then '' / '' @ tape kp else []))) @
          '' <span class=\"hint\">(kernel mode, '' @ inst @ '')</span>'')"

definition report_entries :: "(string \<times> device_report) list option \<Rightarrow> (string \<times> int \<times> drive_paths) list" where
  "report_entries kmd =
     concat (map (\<lambda>(n, r). map (\<lambda>(i, p). (n, i, p)) (or_nil (report_drives r))) (or_nil kmd))"

text \<open>The nested loops write one entry after the other; the last report of an index wins.\<close>

lemma buildDrivePathIndex_eq:
  "buildDrivePathIndex kmd = fold (\<lambda>(n, i, p) m. m(i \<mapsto> (p, n))) (report_entries kmd) Map.empty"
proof -
  have inner: "fold (\<lambda>(i, p) m. m(i \<mapsto> (p, n))) ds m =
      fold (\<lambda>(n, i, p) m. m(i \<mapsto> (p, n))) (map (\<lambda>(i, p). (n, i, p)) ds) m"
    for ds :: "(int \<times> drive_paths) list" and n :: string and m
    by (induction ds arbitrary: m) (auto simp del: fun_upd_apply)
  have "fold (\<lambda>(n, r) m. fold (\<lambda>(i, p) m. m(i \<mapsto> (p, n))) (or_nil (report_drives r)) m) rs m =
      fold (\<lambda>(n, i, p) m. m(i \<mapsto> (p, n)))
        (concat (map (\<lambda>(n, r). map (\<lambda>(i, p). (n, i, p)) (or_nil (report_drives r))) rs)) m"
    for rs :: "(string \<times> device_report) list" and m
    by (induction rs arbitrary: m) (auto simp: inner simp del: fun_upd_apply)
  then show ?thesis by (simp add: buildDrivePathIndex_def report_entries_def)
qed

lemma fold_entries_lookup:
  "fold (\<lambda>(n, i, p) m. m(i \<mapsto> (p, n))) es m k =
     (case List.find (\<lambda>(n, i, p). i = k) (rev es) of None \<Rightarrow> m k | Some (n, i, p) \<Rightarrow> Some (p, n))"
  for es :: "(string \<times> int \<times> drive_paths) list"
  by (induction es arbitrary: m) (auto simp: find_append split: option.splits)

lemma buildDrivePathIndex_lookup:
  "buildDrivePathIndex kmd k =
     (case List.find (\<lambda>(n, i, p). i = k) (rev (report_entries kmd)) of
        None \<Rightarrow> None | Some (n, i, p) \<Rightarrow> Some (p, n))"
  by (simp add: buildDrivePathIndex_eq fold_entries_lookup split: option.splits prod.splits)

section \<open>Properties\<close>

text \<open>
  An element is drawn in the color of the library it belongs to: when only one library lists a drive its
  color is that library's, and a drive no library lists has none; the same holds for slots and I/O slots.
\<close>

theorem library_color_correct:
  assumes "lib \<in> set libs" and "\<forall>l\<in>set libs. l \<noteq> lib \<longrightarrow>
     set (drive_indices l) \<inter> set (drive_indices lib) = {} \<and> set (slot_addresses l) \<inter> set (slot_addresses lib) = {} \<and>
     set (ioslot_addresses l) \<inter> set (ioslot_addresses lib) = {}"
  shows "(i \<in> set (drive_indices lib) \<longrightarrow> driveColor (buildLibraryMaps libs) i = Some (lib_color lib)) \<and>
     (a \<in> set (slot_addresses lib) \<longrightarrow> slotColor (buildLibraryMaps libs) a = Some (lib_color lib)) \<and>
     (o' \<in> set (ioslot_addresses lib) \<longrightarrow> ioslotColor (buildLibraryMaps libs) o' = Some (lib_color lib)) \<and>
     ((\<forall>l\<in>set libs. i \<notin> set (drive_indices l)) \<longrightarrow> driveColor (buildLibraryMaps libs) i = None)"
proof (intro conjI impI)
  assume "i \<in> set (drive_indices lib)"
  then show "driveColor (buildLibraryMaps libs) i = Some (lib_color lib)"
    unfolding buildLibraryMaps_eq using assms by (intro claim_map_unique) auto
next
  assume "a \<in> set (slot_addresses lib)"
  then show "slotColor (buildLibraryMaps libs) a = Some (lib_color lib)"
    unfolding buildLibraryMaps_eq using assms by (intro claim_map_unique) auto
next
  assume "o' \<in> set (ioslot_addresses lib)"
  then show "ioslotColor (buildLibraryMaps libs) o' = Some (lib_color lib)"
    unfolding buildLibraryMaps_eq using assms by (intro claim_map_unique) auto
next
  assume "\<forall>l\<in>set libs. i \<notin> set (drive_indices l)"
  then show "driveColor (buildLibraryMaps libs) i = None"
    by (simp add: buildLibraryMaps_eq claim_map_None)
qed

definition one_drive_library :: "string \<Rightarrow> string \<Rightarrow> int \<Rightarrow> logical_library" where
  "one_drive_library n c i = \<lparr>lib_name = n, lib_drives = Some [\<lparr>drive_index = i, device_path = [], drive_type = [],
     drive_volume = None, fault = False, mounts_since_cleaning = 0, activity = []\<rparr>], lib_slots = None,
     lib_io_slots = None, lib_color = c, lib_changer_model = []\<rparr>"

theorem library_color_correct_witness:
  "driveColor (buildLibraryMaps [one_drive_library ''A'' ''#4285F4'' 0, one_drive_library ''B'' ''#EA4335'' 1]) 1 = Some ''#EA4335''"
  using library_color_correct [of "one_drive_library ''B'' ''#EA4335'' 1"
      "[one_drive_library ''A'' ''#4285F4'' 0, one_drive_library ''B'' ''#EA4335'' 1]" 1 0 0]
  by (simp add: drive_indices_def slot_addresses_def ioslot_addresses_def one_drive_library_def)

end
