(* ===== verification/Effects.thy ===== *)
theory Effects
  imports Move_Options
begin

text \<open>
  The asynchronous functions and event handlers of app.js as programs. A program is a tree of what the
  code does in order: read and replace the page's state, send a request and await the answer, show an
  alert, ask for confirmation, open a dialog, start another asynchronous function without awaiting it,
  throw, return. \<open>io_bind\<close> is sequencing, \<open>io_catch\<close> is try/catch and \<open>io_finally\<close> try/finally.

  JavaScript runs one program at a time and switches only where a program awaits, that is at a request
  or a dialog. \<open>exec\<close> runs one program against every possible answer of the server and the user, and
  lets the rest of the page change the state at each of these points within a relation \<open>R\<close>; the
  trace records what the outside world sees. \<open>settle\<close> is the part that runs without interruption.
\<close>

section \<open>Requests, dialogs, programs\<close>

text \<open>JSON values; \<open>JDec m k\<close> is the number \<open>m / 10 ^ k\<close> that is no integer, in lowest terms.\<close>

datatype json = JNull | JBool bool | JNum int | JDec int nat | JStr string | JArr "json list" | JObj "(string \<times> json) list"

primrec decimal_json :: "nat \<Rightarrow> int \<Rightarrow> json" where
  "decimal_json 0 m = JNum m"
| "decimal_json (Suc k) m = (if 10 dvd m then decimal_json k (m div 10) else JDec m (Suc k))"

text \<open>\<open>Number(s)\<close> as \<open>JSON.stringify\<close> writes it: null when it is NaN.\<close>

definition number_json :: "string \<Rightarrow> json" where
  "number_json s = (case js_value s of None \<Rightarrow> JNull
     | Some (m, e) \<Rightarrow> if 0 \<le> e then JNum (m * 10 ^ nat e) else decimal_json (nat (- e)) m)"

lemma number_json_show_int [simp]: "number_json (show_int i) = JNum i"
  by (simp add: number_json_def)

lemma number_json_integer: "integer_text s \<Longrightarrow> \<exists>i. number_json s = JNum i \<and> \<bar>i\<bar> < 10 ^ 15"
  using integer_text_value(1) by (fastforce simp: number_json_def)

text \<open>The text of a \<open>JDec\<close>: with a point, or with an exponent when the value is below a millionth.\<close>

definition decimal_text :: "int \<Rightarrow> nat \<Rightarrow> string" where
  "decimal_text m k =
     (let ds = show_nat (nat \<bar>m\<bar>); n = length ds in
      (if m < 0 then ''-'' else []) @
      (if k < n then take (n - k) ds @ ''.'' @ drop (n - k) ds
       else if k < n + 6 then ''0.'' @ replicate (k - n) (CHR ''0'') @ ds
       else hd ds # (if tl ds = [] then [] else CHR ''.'' # tl ds) @ ''e-'' @ show_nat (k + 1 - n)))"

record request =
  req_method :: string
  req_path :: string
  req_body :: json

text \<open>What \<open>fetch\<close> gives: an answer with its status, status text and decoded body (None when the body is
  no JSON or null), or a rejected promise.\<close>

datatype 'p response = Answered nat string "'p option" | NetworkError string

record dialog_field =
  df_name :: string
  df_label :: string
  df_type :: string
  df_options :: "choice list"
  df_value :: string

text \<open>A dialog resolves to null or to an object with a string, or for a group of checkboxes a list.\<close>

datatype answer = AStr string | AList "string list"

datatype (dead 't, dead 'p, dead 's, 'a) io =
    Return 'a
  | Throw string
  | Get "'s \<Rightarrow> ('t, 'p, 's, 'a) io"
  | Set_State 's "('t, 'p, 's, 'a) io"
  | Fetch request "'p response \<Rightarrow> ('t, 'p, 's, 'a) io"
  | Alert string "('t, 'p, 's, 'a) io"
  | Confirm string "bool \<Rightarrow> ('t, 'p, 's, 'a) io"
  | Dialog string "dialog_field list" "(string \<rightharpoonup> answer) option \<Rightarrow> ('t, 'p, 's, 'a) io"
  | Start 't "('t, 'p, 's, 'a) io"

primrec io_bind :: "('t, 'p, 's, 'a) io \<Rightarrow> ('a \<Rightarrow> ('t, 'p, 's, 'b) io) \<Rightarrow> ('t, 'p, 's, 'b) io" where
  "io_bind (Return a) k = k a"
| "io_bind (Throw e) k = Throw e"
| "io_bind (Get f) k = Get (\<lambda>s. io_bind (f s) k)"
| "io_bind (Set_State s m) k = Set_State s (io_bind m k)"
| "io_bind (Fetch q f) k = Fetch q (\<lambda>r. io_bind (f r) k)"
| "io_bind (Alert t m) k = Alert t (io_bind m k)"
| "io_bind (Confirm t f) k = Confirm t (\<lambda>b. io_bind (f b) k)"
| "io_bind (Dialog t fs f) k = Dialog t fs (\<lambda>v. io_bind (f v) k)"
| "io_bind (Start t m) k = Start t (io_bind m k)"

primrec io_catch :: "('t, 'p, 's, 'a) io \<Rightarrow> (string \<Rightarrow> ('t, 'p, 's, 'a) io) \<Rightarrow> ('t, 'p, 's, 'a) io" where
  "io_catch (Return a) h = Return a"
| "io_catch (Throw e) h = h e"
| "io_catch (Get f) h = Get (\<lambda>s. io_catch (f s) h)"
| "io_catch (Set_State s m) h = Set_State s (io_catch m h)"
| "io_catch (Fetch q f) h = Fetch q (\<lambda>r. io_catch (f r) h)"
| "io_catch (Alert t m) h = Alert t (io_catch m h)"
| "io_catch (Confirm t f) h = Confirm t (\<lambda>b. io_catch (f b) h)"
| "io_catch (Dialog t fs f) h = Dialog t fs (\<lambda>v. io_catch (f v) h)"
| "io_catch (Start t m) h = Start t (io_catch m h)"

text \<open>\<open>finally\<close> blocks of app.js only change the state, by a function here.\<close>

primrec io_finally :: "('t, 'p, 's, 'a) io \<Rightarrow> ('s \<Rightarrow> 's) \<Rightarrow> ('t, 'p, 's, 'a) io" where
  "io_finally (Return a) c = Get (\<lambda>s. Set_State (c s) (Return a))"
| "io_finally (Throw e) c = Get (\<lambda>s. Set_State (c s) (Throw e))"
| "io_finally (Get f) c = Get (\<lambda>s. io_finally (f s) c)"
| "io_finally (Set_State s m) c = Set_State s (io_finally m c)"
| "io_finally (Fetch q f) c = Fetch q (\<lambda>r. io_finally (f r) c)"
| "io_finally (Alert t m) c = Alert t (io_finally m c)"
| "io_finally (Confirm t f) c = Confirm t (\<lambda>b. io_finally (f b) c)"
| "io_finally (Dialog t fs f) c = Dialog t fs (\<lambda>v. io_finally (f v) c)"
| "io_finally (Start t m) c = Start t (io_finally m c)"

definition update :: "('s \<Rightarrow> 's) \<Rightarrow> ('t, 'p, 's, unit) io" where
  "update f = Get (\<lambda>s. Set_State (f s) (Return ()))"

definition alert :: "string \<Rightarrow> ('t, 'p, 's, unit) io" where
  "alert t = Alert t (Return ())"

definition start :: "'t \<Rightarrow> ('t, 'p, 's, unit) io" where
  "start t = Start t (Return ())"

definition io_seq :: "('t, 'p, 's, 'a) io \<Rightarrow> ('t, 'p, 's, 'b) io \<Rightarrow> ('t, 'p, 's, 'b) io" where
  "io_seq m n = io_bind m (\<lambda>_. n)"

lemma io_bind_assoc: "io_bind (io_bind m f) g = io_bind m (\<lambda>a. io_bind (f a) g)"
  by (induction m) (simp_all add: fun_eq_iff)

lemma io_bind_Return [simp]: "io_bind m Return = m"
  by (induction m) (simp_all add: fun_eq_iff)

section \<open>Runs of one program\<close>

datatype 'p seen = SFetch request "'p response" | SAlert string | SConfirm string bool
  | SDialog string "(string \<rightharpoonup> answer) option"

datatype 'a outcome = Done 'a | Failed string

text \<open>
  \<open>exec R m s tr ts s' r\<close>: the program \<open>m\<close>, started in state \<open>s\<close>, can run with the visible trace
  \<open>tr\<close>, starting the asynchronous functions \<open>ts\<close>, to the state \<open>s'\<close> and the outcome \<open>r\<close>. An alert and a
  confirmation block the page; during a request and a dialog the state may change as \<open>R\<close> allows.
\<close>

inductive exec ::
    "('s \<Rightarrow> 's \<Rightarrow> bool) \<Rightarrow> ('t, 'p, 's, 'a) io \<Rightarrow> 's \<Rightarrow> 'p seen list \<Rightarrow> 't list \<Rightarrow> 's \<Rightarrow> 'a outcome \<Rightarrow> bool"
  for R where
  exec_Return: "exec R (Return a) s [] [] s (Done a)"
| exec_Throw: "exec R (Throw e) s [] [] s (Failed e)"
| exec_Get: "exec R (f s) s tr ts s' r \<Longrightarrow> exec R (Get f) s tr ts s' r"
| exec_Set: "exec R m s1 tr ts s' r \<Longrightarrow> exec R (Set_State s1 m) s tr ts s' r"
| exec_Fetch: "R s s1 \<Longrightarrow> exec R (f p) s1 tr ts s' r \<Longrightarrow> exec R (Fetch q f) s (SFetch q p # tr) ts s' r"
| exec_Alert: "exec R m s tr ts s' r \<Longrightarrow> exec R (Alert t m) s (SAlert t # tr) ts s' r"
| exec_Confirm: "exec R (f b) s tr ts s' r \<Longrightarrow> exec R (Confirm t f) s (SConfirm t b # tr) ts s' r"
| exec_Dialog: "R s s1 \<Longrightarrow> exec R (f v) s1 tr ts s' r \<Longrightarrow> exec R (Dialog t fs f) s (SDialog t v # tr) ts s' r"
| exec_Start: "exec R m s tr ts s' r \<Longrightarrow> exec R (Start t m) s tr (t # ts) s' r"

inductive_simps exec_simps [simp]:
  "exec R (Return a) s tr ts s' r"
  "exec R (Throw e) s tr ts s' r"
  "exec R (Get f) s tr ts s' r"
  "exec R (Set_State s1 m) s tr ts s' r"
  "exec R (Fetch q f) s tr ts s' r"
  "exec R (Alert t m) s tr ts s' r"
  "exec R (Confirm t f) s tr ts s' r"
  "exec R (Dialog t fs f) s tr ts s' r"
  "exec R (Start t m) s tr ts s' r"

text \<open>Sequencing: the second program starts where the first one ends; an exception skips it.\<close>

lemma exec_bind:
  "exec R (io_bind m k) s tr ts s' r \<longleftrightarrow>
     (\<exists>a s1 tr1 tr2 ts1 ts2. exec R m s tr1 ts1 s1 (Done a) \<and> exec R (k a) s1 tr2 ts2 s' r \<and>
        tr = tr1 @ tr2 \<and> ts = ts1 @ ts2) \<or>
     (\<exists>e. exec R m s tr ts s' (Failed e) \<and> r = Failed e)"
proof (induction m arbitrary: s tr ts)
  case (Return a)
  then show ?case by auto
next
  case (Throw e)
  then show ?case by auto
next
  case (Get f)
  then show ?case by simp
next
  case (Set_State s1 m)
  then show ?case by simp
next
  case (Fetch q f)
  show ?case by (simp add: Fetch.IH) (rule iffI; elim exE conjE disjE; (fastforce simp: Cons_eq_append_conv | metis append_Cons))
next
  case (Alert t m)
  show ?case by (simp add: Alert.IH) (rule iffI; elim exE conjE disjE; (fastforce simp: Cons_eq_append_conv | metis append_Cons))
next
  case (Confirm t f)
  show ?case by (simp add: Confirm.IH) (rule iffI; elim exE conjE disjE; (fastforce simp: Cons_eq_append_conv | metis append_Cons))
next
  case (Dialog t fs f)
  show ?case by (simp add: Dialog.IH) (rule iffI; elim exE conjE disjE; (fastforce simp: Cons_eq_append_conv | metis append_Cons))
next
  case (Start t m)
  show ?case by (simp add: Start.IH) (rule iffI; elim exE conjE disjE; (fastforce simp: Cons_eq_append_conv | metis append_Cons))
qed

lemma exec_bindI:
  "exec R m s tr1 ts1 s1 (Done a) \<Longrightarrow> exec R (k a) s1 tr2 ts2 s' r \<Longrightarrow>
     exec R (io_bind m k) s (tr1 @ tr2) (ts1 @ ts2) s' r"
  unfolding exec_bind by blast

text \<open>A finally block runs at the end of every run, whatever its outcome.\<close>

lemma exec_finally:
  "exec R (io_finally m c) s tr ts s' r \<longleftrightarrow> (\<exists>s1. exec R m s tr ts s1 r \<and> s' = c s1)"
proof (induction m arbitrary: s tr ts)
  case (Return a)
  then show ?case by auto
next
  case (Throw e)
  then show ?case by auto
qed (auto; metis)+

lemma exec_catch:
  "exec R (io_catch m h) s tr ts s' r \<longleftrightarrow>
     (\<exists>a. exec R m s tr ts s' (Done a) \<and> r = Done a) \<or>
     (\<exists>e s1 tr1 tr2 ts1 ts2. exec R m s tr1 ts1 s1 (Failed e) \<and> exec R (h e) s1 tr2 ts2 s' r \<and>
        tr = tr1 @ tr2 \<and> ts = ts1 @ ts2)"
proof (induction m arbitrary: s tr ts)
  case (Return a)
  then show ?case by auto
next
  case (Throw e)
  then show ?case by auto
next
  case (Get f)
  then show ?case by simp
next
  case (Set_State s1 m)
  then show ?case by simp
next
  case (Fetch q f)
  show ?case by (simp add: Fetch.IH) (rule iffI; elim exE conjE disjE; (fastforce simp: Cons_eq_append_conv | metis append_Cons))
next
  case (Alert t m)
  show ?case by (simp add: Alert.IH) (rule iffI; elim exE conjE disjE; (fastforce simp: Cons_eq_append_conv | metis append_Cons))
next
  case (Confirm t f)
  show ?case by (simp add: Confirm.IH) (rule iffI; elim exE conjE disjE; (fastforce simp: Cons_eq_append_conv | metis append_Cons))
next
  case (Dialog t fs f)
  show ?case by (simp add: Dialog.IH) (rule iffI; elim exE conjE disjE; (fastforce simp: Cons_eq_append_conv | metis append_Cons))
next
  case (Start t m)
  show ?case by (simp add: Start.IH) (rule iffI; elim exE conjE disjE; (fastforce simp: Cons_eq_append_conv | metis append_Cons))
qed

lemma exec_update [simp]:
  "exec R (update f) s tr ts s' r \<longleftrightarrow> s' = f s \<and> tr = [] \<and> ts = [] \<and> r = Done ()"
  by (auto simp: update_def)

lemma exec_seqI:
  "exec R m s tr1 ts1 s1 (Done a) \<Longrightarrow> exec R n s1 tr2 ts2 s' r \<Longrightarrow> exec R (io_seq m n) s (tr1 @ tr2) (ts1 @ ts2) s' r"
  unfolding io_seq_def by (rule exec_bindI)

lemma exec_update_seq: "exec R (io_seq (update f) m) s tr ts s' r \<longleftrightarrow> exec R m (f s) tr ts s' r"
  by (simp add: io_seq_def update_def)

lemma exec_start [simp]:
  "exec R (start t) s tr ts s' r \<longleftrightarrow> s' = s \<and> tr = [] \<and> ts = [t] \<and> r = Done ()"
  by (auto simp: start_def)

lemma exec_alert [simp]:
  "exec R (alert t) s tr ts s' r \<longleftrightarrow> s' = s \<and> tr = [SAlert t] \<and> ts = [] \<and> r = Done ()"
  by (auto simp: alert_def)

text \<open>A condition on the state that every step of a program keeps, given that the rest of the page keeps it too.\<close>

definition keeps :: "('s \<Rightarrow> bool) \<Rightarrow> ('t, 'p, 's, 'a) io \<Rightarrow> bool" where
  "keeps J m \<longleftrightarrow>
     (\<forall>R s tr ts s' r. (\<forall>x y. J x \<longrightarrow> R x y \<longrightarrow> J y) \<longrightarrow> exec R m s tr ts s' r \<longrightarrow> J s \<longrightarrow> J s')"

lemma keepsD: "keeps J m \<Longrightarrow> exec R m s tr ts s' r \<Longrightarrow> J s \<Longrightarrow> (\<And>x y. J x \<Longrightarrow> R x y \<Longrightarrow> J y) \<Longrightarrow> J s'"
  unfolding keeps_def by blast

named_theorems keeps_intros \<open>programs that keep a condition on the state\<close>

lemma keeps_Return [keeps_intros]: "keeps J (Return a)"
  by (simp add: keeps_def)

lemma keeps_update [keeps_intros]: "(\<And>x. J x \<Longrightarrow> J (f x)) \<Longrightarrow> keeps J (update f)"
  by (simp add: keeps_def)

lemma keeps_alert [keeps_intros]: "keeps J (alert t)"
  by (simp add: keeps_def)

lemma keeps_start [keeps_intros]: "keeps J (start t)"
  by (simp add: keeps_def)

lemma keeps_Get [keeps_intros]: "(\<And>s. keeps J (f s)) \<Longrightarrow> keeps J (Get f)"
  unfolding keeps_def exec_simps by blast

lemma keeps_Dialog [keeps_intros]: "(\<And>v. keeps J (f v)) \<Longrightarrow> keeps J (Dialog t fs f)"
  unfolding keeps_def exec_simps by blast

lemma keeps_bind [keeps_intros]: "keeps J m \<Longrightarrow> (\<And>a. keeps J (k a)) \<Longrightarrow> keeps J (io_bind m k)"
  unfolding keeps_def exec_bind by blast

lemma keeps_seq [keeps_intros]: "keeps J m \<Longrightarrow> keeps J k \<Longrightarrow> keeps J (io_seq m k)"
  unfolding io_seq_def by (rule keeps_bind)

lemma keeps_catch [keeps_intros]: "keeps J m \<Longrightarrow> (\<And>e. keeps J (h e)) \<Longrightarrow> keeps J (io_catch m h)"
  unfolding keeps_def exec_catch by blast

lemma keeps_finally [keeps_intros]: "keeps J m \<Longrightarrow> (\<And>x. J x \<Longrightarrow> J (c x)) \<Longrightarrow> keeps J (io_finally m c)"
  unfolding keeps_def exec_finally by blast

text \<open>The requests of a trace, in order.\<close>

fun requests :: "'p seen list \<Rightarrow> request list" where
  "requests [] = []"
| "requests (SFetch q p # tr) = q # requests tr"
| "requests (SAlert t # tr) = requests tr"
| "requests (SConfirm t b # tr) = requests tr"
| "requests (SDialog t v # tr) = requests tr"

lemma requests_append [simp]: "requests (tr @ tr') = requests tr @ requests tr'"
  by (induction tr rule: requests.induct) simp_all

text \<open>The answers of a trace, in order.\<close>

fun answers :: "'p seen list \<Rightarrow> 'p response list" where
  "answers [] = []"
| "answers (SFetch q a # tr) = a # answers tr"
| "answers (SAlert t # tr) = answers tr"
| "answers (SConfirm t b # tr) = answers tr"
| "answers (SDialog t v # tr) = answers tr"

lemma answers_append [simp]: "answers (tr @ tr') = answers tr @ answers tr'"
  by (induction tr rule: answers.induct) simp_all

section \<open>Between two awaits\<close>

text \<open>Runs a program up to its first request, dialog, alert or confirmation, or to its end.\<close>

primrec settle :: "('t, 'p, 's, 'a) io \<Rightarrow> 's \<Rightarrow> ('t, 'p, 's, 'a) io \<times> 's \<times> 't list" where
  "settle (Return a) = (\<lambda>s. (Return a, s, []))"
| "settle (Throw e) = (\<lambda>s. (Throw e, s, []))"
| "settle (Get f) = (\<lambda>s. settle (f s) s)"
| "settle (Set_State s1 m) = (\<lambda>s. settle m s1)"
| "settle (Fetch q f) = (\<lambda>s. (Fetch q f, s, []))"
| "settle (Alert t m) = (\<lambda>s. (Alert t m, s, []))"
| "settle (Confirm t f) = (\<lambda>s. (Confirm t f, s, []))"
| "settle (Dialog t fs f) = (\<lambda>s. (Dialog t fs f, s, []))"
| "settle (Start t m) = (\<lambda>s. case settle m s of (m', s', ts) \<Rightarrow> (m', s', t # ts))"

end
