(* ===== verification/Wizard_Data.thy ===== *)
theory Wizard_Data
  imports Prelude
begin

text \<open>
  The setup wizard's state and the edits of its list-shaped steps (app.js \<open>attachWizardStepEditors\<close> and
  the helpers above it). \<open>wizard\<close> is the object the server sends (internal/api/wizard.go, WizardState),
  \<open>wizard_options\<close> the catalogs of GET /api/v1/wizard/options. A JSON list that may be missing or null is
  an option. Each edit gives the new state, the alert it shows instead, or the TypeError it throws.
\<close>

section \<open>Data\<close>

record drive_kind =
  dk_name :: string
  dk_speed :: string
  dk_capacity :: string
  dk_description :: string
  dk_model :: string
  dk_generation :: string
  dk_barcode_family :: string
  dk_scsi_identity :: string

record tape_kind =
  tk_name :: string
  tk_capacity :: string

text \<open>A magazine or a mailbox: \<open>{id, slots}\<close>.\<close>

record bay =
  bay_id :: string
  bay_slots :: int

record tape_set_row =
  ts_name :: string
  ts_tape_type :: string
  ts_folder :: string
  ts_count :: int

text \<open>The server writes a saved library's empty lists as \<open>null\<close> (None), the browser's own are \<open>[]\<close>.\<close>

record lib_row =
  lr_name :: string
  lr_drives :: "int list option"
  lr_magazines :: "string list option"
  lr_mailboxes :: "string list option"
  lr_color :: string
  lr_changer_model :: string

record wizard =
  completed :: bool
  current_step :: nat
  vtl_name :: string
  operational_mode :: string
  w_drives :: "drive_kind list option"
  w_magazines :: "bay list option"
  w_mailboxes :: "bay list option"
  offsite_location :: bool
  tape_sets :: "tape_set_row list option"
  logical_libraries :: "lib_row list option"
  latency_enabled :: bool
  telemetry_enabled :: bool

record kernel_mode =
  km_available :: bool
  km_missing_package :: bool
  km_missing_kernel_module :: bool
  km_in_container :: bool

record wizard_options =
  drive_types :: "drive_kind list option"
  tape_types :: "tape_kind list option"
  kernel_mode_of :: "kernel_mode option"
  telemetry_endpoint :: string

datatype edit = Edited wizard | Alerted string | Type_Error

section \<open>Helpers\<close>

definition max_num :: "int list \<Rightarrow> int" where
  "max_num ns = fold max (tl ns) (hd ns)"

text \<open>\<open>parseInt\<close> gives exact integers only below \<open>2^53\<close>; names with more digits are outside the model.\<close>

definition nextSequentialName :: "string list \<Rightarrow> string \<Rightarrow> string" where
  "nextSequentialName existingNames prefix =
     (let nums = List.map_filter (\<lambda>n. parse_int (drop (length prefix) n)) existingNames;
          next_num = (if nums \<noteq> [] then max_num nums + 1 else 1)
      in prefix @ show_int next_num)"

definition logical_library_colors :: "string list" where
  "logical_library_colors =
     [''#4285F4'', ''#EA4335'', ''#FBBC05'', ''#34A853'', ''#9C27B0'', ''#00ACC1'', ''#FF7043'', ''#5C6BC0'']"

definition nextLogicalLibraryColor :: "nat \<Rightarrow> string" where
  "nextLogicalLibraryColor existingCount =
     logical_library_colors ! (existingCount mod length logical_library_colors)"

definition defaultTapeSetFolder :: "string \<Rightarrow> string" where
  "defaultTapeSetFolder name = ''/var/lib/gotochanger/tapesets/'' @ name"

text \<open>\<open>tape_count\<close> is a number here (the admin dialog passes the text of its field, see
  \<open>parse_int\<close>); None is no error.\<close>

definition validateTapeSetInput :: "string \<Rightarrow> string \<Rightarrow> string \<Rightarrow> int option \<Rightarrow> string option" where
  "validateTapeSetInput name tape_type storage_folder tape_count =
     (if name = [] then Some ''Name is required.''
      else if tape_type = [] then Some ''Tape type is required.''
      else if storage_folder = [] \<or> hd storage_folder \<noteq> CHR ''/''
        then Some ''Storage folder must be an absolute path.''
      else if \<not> (case tape_count of None \<Rightarrow> False | Some n \<Rightarrow> 1 \<le> n)
        then Some ''Number of tapes must be at least 1.''
      else None)"

lemma max_num_ge: "n \<in> set ns \<Longrightarrow> n \<le> max_num ns"
proof -
  have "a \<le> fold max xs a \<and> (\<forall>x\<in>set xs. x \<le> fold max xs a)" for xs and a :: int
  proof (induction xs arbitrary: a)
    case (Cons y ys)
    from Cons.IH [of "max y a"] show ?case by auto
  qed simp
  then show "n \<in> set ns \<Longrightarrow> n \<le> max_num ns"
    by (cases ns) (auto simp: max_num_def)
qed

text \<open>The next name is unused: no existing name, with the prefix or without, equals it.\<close>

lemma nextSequentialName_fresh: "nextSequentialName names prefix \<notin> set names"
proof
  define nums where "nums = List.map_filter (\<lambda>n. parse_int (drop (length prefix) n)) names"
  define k where "k = (if nums \<noteq> [] then max_num nums + 1 else 1)"
  assume "nextSequentialName names prefix \<in> set names"
  then have "prefix @ show_int k \<in> set names"
    by (auto simp: nextSequentialName_def nums_def k_def Let_def split: if_splits)
  then have "k \<in> set nums"
    by (force simp: nums_def List.map_filter_def intro!: image_eqI [where x = "prefix @ show_int k"])
  then show False
    using max_num_ge [of k nums] by (auto simp: k_def split: if_splits)
qed

section \<open>Step 2: drives\<close>

definition addDrive :: "wizard_options \<Rightarrow> wizard \<Rightarrow> edit" where
  "addDrive options w =
     (case drive_types options of
        Some (dt # _) \<Rightarrow> Edited (w\<lparr>w_drives := Some (or_nil (w_drives w) @ [dt])\<rparr>)
      | _ \<Rightarrow> Alerted ''No drive types are configured; cannot add a drive.'')"

text \<open>The \<open>change\<close> listener of row \<open>i\<close>'s select; the rendered rows are those of \<open>w_drives\<close>.\<close>

definition changeDrive :: "wizard_options \<Rightarrow> nat \<Rightarrow> string \<Rightarrow> wizard \<Rightarrow> edit" where
  "changeDrive options i value w =
     (case drive_types options of None \<Rightarrow> Type_Error
      | Some dts \<Rightarrow>
          (case js_find (\<lambda>d. dk_name d = value) dts of
             None \<Rightarrow> Edited w
           | Some dt \<Rightarrow>
               (case w_drives w of None \<Rightarrow> Type_Error
                | Some ds \<Rightarrow> Edited (w\<lparr>w_drives := Some (ds[i := dt])\<rparr>))))"

definition removeDrive :: "nat \<Rightarrow> wizard \<Rightarrow> edit" where
  "removeDrive i w =
     (case w_drives w of None \<Rightarrow> Type_Error
      | Some ds \<Rightarrow> Edited (w\<lparr>w_drives := Some (remove_nth i ds)\<rparr>))"

section \<open>Steps 3 and 4: magazines and mailboxes\<close>

definition push_bay :: "string \<Rightarrow> int \<Rightarrow> bay list option \<Rightarrow> bay list option" where
  "push_bay prefix n bays =
     Some (or_nil bays @ [\<lparr>bay_id = nextSequentialName (map bay_id (or_nil bays)) prefix, bay_slots = n\<rparr>])"

text \<open>The first bay with that id changes.\<close>

fun set_bay_slots :: "string \<Rightarrow> int \<Rightarrow> bay list \<Rightarrow> bay list" where
  "set_bay_slots i n [] = []"
| "set_bay_slots i n (b # bs) = (if bay_id b = i then b\<lparr>bay_slots := n\<rparr> # bs else b # set_bay_slots i n bs)"

definition addMagazine :: "wizard \<Rightarrow> edit" where
  "addMagazine w = Edited (w\<lparr>w_magazines := push_bay ''Magazine'' 5 (w_magazines w)\<rparr>)"

definition setMagazineSlots :: "string \<Rightarrow> int \<Rightarrow> wizard \<Rightarrow> edit" where
  "setMagazineSlots i n w =
     (case w_magazines w of None \<Rightarrow> Type_Error
      | Some bs \<Rightarrow> Edited (w\<lparr>w_magazines := Some (set_bay_slots i n bs)\<rparr>))"

definition removeMagazine :: "string \<Rightarrow> wizard \<Rightarrow> edit" where
  "removeMagazine i w =
     (case w_magazines w of None \<Rightarrow> Type_Error
      | Some bs \<Rightarrow> Edited (w\<lparr>w_magazines := Some (filter (\<lambda>m. bay_id m \<noteq> i) bs)\<rparr>))"

definition addMailbox :: "wizard \<Rightarrow> edit" where
  "addMailbox w = Edited (w\<lparr>w_mailboxes := push_bay ''Mailbox'' 1 (w_mailboxes w)\<rparr>)"

definition setMailboxSlots :: "string \<Rightarrow> int \<Rightarrow> wizard \<Rightarrow> edit" where
  "setMailboxSlots i n w =
     (case w_mailboxes w of None \<Rightarrow> Type_Error
      | Some bs \<Rightarrow> Edited (w\<lparr>w_mailboxes := Some (set_bay_slots i n bs)\<rparr>))"

definition removeMailbox :: "string \<Rightarrow> wizard \<Rightarrow> edit" where
  "removeMailbox i w =
     (case w_mailboxes w of None \<Rightarrow> Type_Error
      | Some bs \<Rightarrow> Edited (w\<lparr>w_mailboxes := Some (filter (\<lambda>m. bay_id m \<noteq> i) bs)\<rparr>))"

lemma set_bay_slots_ids [simp]: "map bay_id (set_bay_slots i n bs) = map bay_id bs"
  by (induction bs) auto

lemma push_bay_ids:
  "distinct (map bay_id (or_nil bays)) \<Longrightarrow> distinct (map bay_id (or_nil (push_bay prefix n bays)))"
  by (simp add: push_bay_def nextSequentialName_fresh flip: set_map)

section \<open>Step 6: tape sets\<close>

text \<open>\<open>list[i].field = value\<close>: out of range the access of an undefined element throws.\<close>

definition edit_row :: "nat \<Rightarrow> ('a \<Rightarrow> 'a) \<Rightarrow> 'a list option \<Rightarrow> 'a list option" where
  "edit_row i f rows =
     (case rows of None \<Rightarrow> None
      | Some xs \<Rightarrow> if i < length xs then Some (xs[i := f (xs ! i)]) else None)"

definition edit_tape_set :: "nat \<Rightarrow> (tape_set_row \<Rightarrow> tape_set_row) \<Rightarrow> wizard \<Rightarrow> edit" where
  "edit_tape_set i f w =
     (case edit_row i f (tape_sets w) of None \<Rightarrow> Type_Error
      | Some rows \<Rightarrow> Edited (w\<lparr>tape_sets := Some rows\<rparr>))"

definition addTapeSet :: "wizard_options \<Rightarrow> wizard \<Rightarrow> edit" where
  "addTapeSet options w =
     (case tape_types options of
        Some (tt # _) \<Rightarrow>
          Edited (w\<lparr>tape_sets := Some (or_nil (tape_sets w) @
            [\<lparr>ts_name = nextSequentialName (map ts_name (or_nil (tape_sets w))) ''TapeSet'',
              ts_tape_type = tk_name tt, ts_folder = [], ts_count = 1\<rparr>])\<rparr>)
      | _ \<Rightarrow> Alerted ''No tape types are configured; cannot create a tape set.'')"

definition setTapeSetName :: "nat \<Rightarrow> string \<Rightarrow> wizard \<Rightarrow> edit" where
  "setTapeSetName i v = edit_tape_set i (\<lambda>t. t\<lparr>ts_name := v\<rparr>)"

definition setTapeSetType :: "nat \<Rightarrow> string \<Rightarrow> wizard \<Rightarrow> edit" where
  "setTapeSetType i v = edit_tape_set i (\<lambda>t. t\<lparr>ts_tape_type := v\<rparr>)"

definition setTapeSetFolder :: "nat \<Rightarrow> string \<Rightarrow> wizard \<Rightarrow> edit" where
  "setTapeSetFolder i v = edit_tape_set i (\<lambda>t. t\<lparr>ts_folder := v\<rparr>)"

text \<open>\<open>parseInt(value, 10) || 0\<close>\<close>

definition setTapeSetCount :: "nat \<Rightarrow> string \<Rightarrow> wizard \<Rightarrow> edit" where
  "setTapeSetCount i v =
     edit_tape_set i (\<lambda>t. t\<lparr>ts_count := (case parse_int v of None \<Rightarrow> 0 | Some n \<Rightarrow> n)\<rparr>)"

definition removeTapeSet :: "nat \<Rightarrow> wizard \<Rightarrow> edit" where
  "removeTapeSet i w =
     (case tape_sets w of None \<Rightarrow> Type_Error
      | Some ts \<Rightarrow> Edited (w\<lparr>tape_sets := Some (remove_nth i ts)\<rparr>))"

section \<open>Step 7: logical libraries\<close>

definition addLogicalLib :: "wizard \<Rightarrow> edit" where
  "addLogicalLib w =
     (let libs = or_nil (logical_libraries w)
      in Edited (w\<lparr>logical_libraries := Some (libs @
           [\<lparr>lr_name = nextSequentialName (map lr_name libs) ''Library'',
             lr_drives = Some [], lr_magazines = Some [], lr_mailboxes = Some [],
             lr_color = nextLogicalLibraryColor (length libs), lr_changer_model = []\<rparr>])\<rparr>))"

definition edit_lib :: "nat \<Rightarrow> (lib_row \<Rightarrow> lib_row) \<Rightarrow> wizard \<Rightarrow> edit" where
  "edit_lib i f w =
     (case edit_row i f (logical_libraries w) of None \<Rightarrow> Type_Error
      | Some rows \<Rightarrow> Edited (w\<lparr>logical_libraries := Some rows\<rparr>))"

definition setLibName :: "nat \<Rightarrow> string \<Rightarrow> wizard \<Rightarrow> edit" where
  "setLibName i v = edit_lib i (\<lambda>l. l\<lparr>lr_name := v\<rparr>)"

definition setLibColor :: "nat \<Rightarrow> string \<Rightarrow> wizard \<Rightarrow> edit" where
  "setLibColor i v = edit_lib i (\<lambda>l. l\<lparr>lr_color := v\<rparr>)"

definition removeLib :: "nat \<Rightarrow> wizard \<Rightarrow> edit" where
  "removeLib i w =
     (case logical_libraries w of None \<Rightarrow> Type_Error
      | Some ls \<Rightarrow> Edited (w\<lparr>logical_libraries := Some (remove_nth i ls)\<rparr>))"

section \<open>Step 1: kernel mode\<close>

definition kernelModeAvailable :: "wizard_options \<Rightarrow> bool" where
  "kernelModeAvailable options =
     (case kernel_mode_of options of None \<Rightarrow> False | Some km \<Rightarrow> km_available km)"

definition kernelModeHint :: "wizard_options \<Rightarrow> string" where
  "kernelModeHint options =
     (let km = (case kernel_mode_of options of
                  None \<Rightarrow> \<lparr>km_available = False, km_missing_package = False, km_missing_kernel_module = False,
                           km_in_container = False\<rparr>
                | Some km \<Rightarrow> km)
      in if km_in_container km
           then ''Kernel mode isn't available inside a Docker container - it needs real host kernel/TCMU access. Run gotochangerd outside Docker to use this mode.''
         else if km_missing_package km then ''Install the gotochanger-kernel package to enable this mode.''
         else if km_missing_kernel_module km
           then ''The target_core_user kernel module isn't loaded yet - it loads automatically at boot once gotochanger-kernel is installed, or run: sudo modprobe target_core_user''
         else ''Kernel mode isn't available on this host yet.'')"

definition kernelModeShowRefresh :: "wizard_options \<Rightarrow> bool" where
  "kernelModeShowRefresh options =
     (\<not> kernelModeAvailable options \<and>
      \<not> (case kernel_mode_of options of None \<Rightarrow> False | Some km \<Rightarrow> km_in_container km))"

end
