(* ===== verification/Backend.thy ===== *)
theory Backend
  imports Effects Wizard_Data Library_Owners
begin

text \<open>
  The REST calls of app.js: the decoded bodies of the answers the modelled code reads, the asynchronous
  functions it starts without awaiting them, and \<open>api\<close>, the wrapper around \<open>fetch\<close> every call goes through.
\<close>

section \<open>Answers\<close>

text \<open>GET /api/v1/auth/state and the answers of bootstrap and login (internal/api/auth.go).\<close>

record auth_state =
  bootstrap_required :: bool
  authenticated :: bool
  must_change_password :: bool
  auth_role :: string
  auth_username :: string
  auth_version :: string

text \<open>\<open>library.Event\<close>; a missing field is empty.\<close>

record log_event =
  ev_time :: string
  ev_code :: string
  ev_type :: string
  ev_category :: string
  ev_severity :: string
  ev_outcome :: string
  ev_actor :: string
  ev_source_ip :: string
  ev_message :: string

record tape_set_config =
  tsc_name :: string
  tsc_tape_type :: string
  tsc_storage_folder :: string

text \<open>The answers the Admin pages read (the config and internal/api structs of the same shape).\<close>

record user_info =
  usr_name :: string
  usr_role :: string
  usr_must_change :: bool
  usr_created :: string

record token_info =
  tok_name :: string
  tok_role :: string
  tok_created :: string

record snmp_target =
  tg_host :: string
  tg_port :: int
  tg_community :: string
  tg_version :: string

text \<open>The fields of the configuration the Settings page shows; \<open>cfg_json\<close> is all of it.\<close>

record daemon_config =
  cfg_default_capacity :: string
  cfg_poll_interval :: string
  cfg_log_level :: string
  cfg_snmp_enabled :: bool
  cfg_enterprise_oid :: string
  cfg_agent_address :: string
  cfg_targets :: "snmp_target list option"
  cfg_offsite_location :: bool
  cfg_rotation_interval :: string
  cfg_rotation_count :: int
  cfg_json :: json

record latency_settings =
  lt_enabled :: bool
  lt_drive_load :: string
  lt_drive_unload :: string
  lt_tape_positioning :: string
  lt_robot_move_tape :: string
  lt_robot_move_scan :: string
  lt_magazine_scan :: string
  lt_door_action :: string

record cleaning_settings =
  cl_enabled :: bool
  cl_mode :: string
  cl_max_uses :: int
  cl_mount_threshold :: int
  cl_duration :: string

record backup_file =
  bf_name :: string
  bf_size :: nat
  bf_created :: string

record backup_schedule =
  sc_interval :: string
  sc_retention :: int
  sc_last_run :: string

record tape_type_info =
  tt_name :: string
  tt_capacity :: string
  tt_description :: string
  tt_barcode_family :: string
  tt_media_id :: string
  tt_volser_length :: int

record drive_device =
  dd_index :: int
  dd_path :: string
  dd_type :: string
  dd_model :: string
  dd_generation :: string
  dd_capacity :: string

record mailbox_info =
  mbx_id :: string
  mbx_slots :: int
  mbx_pin_set :: bool

datatype payload =
    PError string
  | PAuth auth_state
  | PWizard wizard
  | POptions wizard_options
  | PStatus status
  | PLibraries "logical_library list"
  | PEvents "log_event list"
  | PTapeSets "tape_set_config list"
  | PTapeKinds "tape_kind list"
  | PRelease string
  | PUsers "user_info list"
  | PTokens "token_info list"
  | PToken string
  | PSettings daemon_config "string list option"
  | PLatency latency_settings latency_settings
  | PPrometheus bool string
  | PTelemetry bool string json
  | PPin bool
  | PCleaning cleaning_settings cleaning_settings
  | PVolumes "volume list"
  | PBackups "backup_file list"
  | PSchedule backup_schedule
  | PDriveTypes "drive_kind list"
  | PTapeTypes "tape_type_info list"
  | PTapeSet string "volume list option"
  | PDrives "drive_device list"
  | PBays "bay list"
  | PMailboxes "mailbox_info list"
  | PKernelDevices "(string \<times> device_report) list"
  | POther

text \<open>Functions the code calls without waiting for them to end, and the screens it switches to.\<close>

datatype task =
    Boot
  | Refresh
  | RenderWizardStep wizard
  | ShowApp auth_state
  | ShowWizardScreen wizard
  | CheckForUpdate string
  | LoadTapeSetFamilyMap
  | LoadBackupLastRun
  | ConnectStream
  | LoadAdmin string
  | LoadCleaningSettings
  | LoadCleaningTapes
  | LoadBackupsList

type_synonym ('s, 'a) prog = "(task, payload, 's, 'a) io"

definition io_throw :: "string \<Rightarrow> ('s, 'a) prog" where
  "io_throw e = Throw e"

section \<open>The request wrapper\<close>

definition error_of :: "payload option \<Rightarrow> string" where
  "error_of body = (case body of Some (PError e) \<Rightarrow> e | _ \<Rightarrow> [])"

definition http_ok :: "nat \<Rightarrow> bool" where
  "http_ok code \<longleftrightarrow> 200 \<le> code \<and> code \<le> 299"

text \<open>What follows the awaited \<open>fetch\<close>.\<close>

definition api_answer :: "payload response \<Rightarrow> ('s, payload option) prog" where
  "api_answer r =
     (case r of
        NetworkError e \<Rightarrow> Throw e
      | Answered code statusText body \<Rightarrow>
          if code = 204 then Return None
          else if http_ok code then Return body
          else if code = 401 then Start Boot (Throw (or_else (error_of body) statusText))
          else Throw (or_else (error_of body) statusText))"

definition api :: "request \<Rightarrow> ('s, payload option) prog" where
  "api q = Fetch q api_answer"

definition get_req :: "string \<Rightarrow> request" where
  "get_req path = \<lparr>req_method = ''GET'', req_path = path, req_body = JNull\<rparr>"

definition post_req :: "string \<Rightarrow> json \<Rightarrow> request" where
  "post_req path body = \<lparr>req_method = ''POST'', req_path = path, req_body = body\<rparr>"

definition put_req :: "string \<Rightarrow> json \<Rightarrow> request" where
  "put_req path body = \<lparr>req_method = ''PUT'', req_path = path, req_body = body\<rparr>"

definition delete_req :: "string \<Rightarrow> request" where
  "delete_req path = \<lparr>req_method = ''DELETE'', req_path = path, req_body = JNull\<rparr>"

text \<open>\<open>encodeURIComponent\<close>: unreserved characters stay, every other byte becomes a percent sign and two digits.\<close>

definition uri_unreserved :: "char \<Rightarrow> bool" where
  "uri_unreserved c \<longleftrightarrow> is_digit c \<or> (65 \<le> (of_char c :: nat) \<and> (of_char c :: nat) \<le> 90) \<or>
     (97 \<le> (of_char c :: nat) \<and> (of_char c :: nat) \<le> 122) \<or> c \<in> set ''-_.!~*'()''"

definition hex_upper :: "nat \<Rightarrow> char" where
  "hex_upper n = (if n < 10 then digit_char n else char_of (n + 55))"

definition encodeURIComponent :: "string \<Rightarrow> string" where
  "encodeURIComponent s = concat (map (\<lambda>c. if uri_unreserved c then [c]
     else [CHR ''%'', hex_upper ((of_char c :: nat) div 16), hex_upper ((of_char c :: nat) mod 16)]) s)"

text \<open>The outcome of an answer, and the functions it starts.\<close>

fun answer_outcome :: "payload response \<Rightarrow> payload option outcome" where
  "answer_outcome (NetworkError e) = Failed e"
| "answer_outcome (Answered code txt body) =
     (if code = 204 then Done None else if http_ok code then Done body
      else Failed (or_else (error_of body) txt))"

fun answer_starts :: "payload response \<Rightarrow> task list" where
  "answer_starts (NetworkError e) = []"
| "answer_starts (Answered code txt body) = (if code = 401 then [Boot] else [])"

lemma http_ok_codes [simp]: "http_ok 200" "http_ok 204" "\<not> http_ok 401"
  by (simp_all add: http_ok_def)

lemma exec_api_answer:
  "exec R (api_answer p) s tr ts s' r \<longleftrightarrow> s' = s \<and> tr = [] \<and> ts = answer_starts p \<and> r = answer_outcome p"
  by (cases p) (auto simp: api_answer_def)

lemma exec_api:
  "exec R (api q) s tr ts s' r \<longleftrightarrow>
     (\<exists>p. R s s' \<and> tr = [SFetch q p] \<and> ts = answer_starts p \<and> r = answer_outcome p)"
  by (auto simp: api_def exec_api_answer)

lemma keeps_api [keeps_intros]: "keeps J (api q)"
  by (auto simp: keeps_def exec_api)

section \<open>Properties\<close>

text \<open>
  C33: Every call of \<open>api\<close> sends its request exactly once. It succeeds only on a 2xx answer, with the body
  (null for 204); on any other status, and when the request itself fails, it throws, with the server's
  error text when there is one and the status text otherwise. A 401, and nothing else, sends the user
  back to the login screen.
\<close>

theorem api_outcome:
  assumes "exec R (api q) s tr ts s' r"
  shows "\<exists>p. tr = [SFetch q p] \<and> R s s' \<and>
     (case p of
        NetworkError e \<Rightarrow> r = Failed e \<and> ts = []
      | Answered code txt body \<Rightarrow>
          (http_ok code \<longrightarrow> r = Done (if code = 204 then None else body) \<and> ts = []) \<and>
          (\<not> http_ok code \<longrightarrow>
             r = Failed (case body of Some (PError e) \<Rightarrow> if e = [] then txt else e | _ \<Rightarrow> txt) \<and>
             (Boot \<in> set ts \<longleftrightarrow> code = 401)))"
proof -
  from assms obtain p where p: "R s s'" "tr = [SFetch q p]" "ts = answer_starts p" "r = answer_outcome p"
    by (auto simp: exec_api)
  show ?thesis
  proof (cases p)
    case (NetworkError e)
    with p show ?thesis by simp
  next
    case (Answered code msg body)
    have "error_of body = (case body of Some (PError e) \<Rightarrow> e | _ \<Rightarrow> [])" by (simp add: error_of_def)
    then have "or_else (error_of body) msg = (case body of Some (PError e) \<Rightarrow> if e = [] then msg else e | _ \<Rightarrow> msg)"
      by (simp add: or_else_def split: option.split payload.split)
    moreover have "code = 204 \<Longrightarrow> http_ok code" "code = 401 \<Longrightarrow> \<not> http_ok code" by auto
    ultimately show ?thesis using p Answered by (intro exI [of _ p]) auto
  qed
qed

theorem api_outcome_witness:
  "\<exists>p. [SFetch (get_req ''/api/v1/status'') (Answered 401 ''Unauthorized'' (Some (PError ''expired'')))] =
     [SFetch (get_req ''/api/v1/status'') p]"
proof -
  have "exec (=) (api (get_req ''/api/v1/status'')) ()
      [SFetch (get_req ''/api/v1/status'') (Answered 401 ''Unauthorized'' (Some (PError ''expired'')))]
      [Boot] () (Failed ''expired'')"
    by (simp add: exec_api error_of_def)
  from api_outcome [OF this] show ?thesis by blast
qed

end
