(* ===== verification/Wizard_Board.thy ===== *)
theory Wizard_Board
  imports Wizard_Data Library_Owners Drag_Drop
begin

text \<open>
  Step 7 of the setup wizard: the board on which drives, magazines and mailboxes are dragged between the
  pool "Available" and the logical libraries. The chips and zones are those \<open>renderWizardStepContent\<close>
  produces (case 7), \<open>board_accepts\<close> and \<open>board_drop\<close> the callbacks \<open>attachWizardStepEditors\<close> registers.
  The board interprets \<open>drag_board\<close>; its invariant is that no item is listed by two libraries and no
  library lists one twice.

  \<open>chipFields\<close> maps a chip's kind to a list of the library row and parses its id; here an item carries
  its kind and parsed id at once (\<open>parse_int_show_nat\<close> is the parse of a drive's printed index).
\<close>

section \<open>Items, chips, zones\<close>

datatype kind = KDrive | KMagazine | KMailbox

datatype item = DriveItem int | MagazineItem string | MailboxItem string

fun kind_of :: "item \<Rightarrow> kind" where
  "kind_of (DriveItem i) = KDrive"
| "kind_of (MagazineItem m) = KMagazine"
| "kind_of (MailboxItem m) = KMailbox"

datatype zone = Pool kind | LibZone kind nat

fun zone_kind :: "zone \<Rightarrow> kind" where
  "zone_kind (Pool k) = k"
| "zone_kind (LibZone k i) = k"

text \<open>\<open>data-zone-owner\<close> and \<open>data-chip-owner\<close>: None is "pool".\<close>

fun zone_owner :: "zone \<Rightarrow> nat option" where
  "zone_owner (Pool k) = None"
| "zone_owner (LibZone k i) = Some i"

text \<open>The drag payload \<open>{kind, id, currentLibrary}\<close>.\<close>

record chip =
  chip_item :: item
  currentLibrary :: "nat option"

section \<open>Owners\<close>

record row_owners =
  row_driveOwner :: "int \<rightharpoonup> nat"
  row_magazineOwner :: "string \<rightharpoonup> nat"
  row_mailboxOwner :: "string \<rightharpoonup> nat"

definition wizardLibraryOwners :: "wizard \<Rightarrow> row_owners" where
  "wizardLibraryOwners w =
     fold (\<lambda>(i, lib) m.
         \<lparr>row_driveOwner = assign_all (or_nil (lr_drives lib)) i (row_driveOwner m),
          row_magazineOwner = assign_all (or_nil (lr_magazines lib)) i (row_magazineOwner m),
          row_mailboxOwner = assign_all (or_nil (lr_mailboxes lib)) i (row_mailboxOwner m)\<rparr>)
       (enumerate 0 (or_nil (logical_libraries w)))
       \<lparr>row_driveOwner = Map.empty, row_magazineOwner = Map.empty, row_mailboxOwner = Map.empty\<rparr>"

fun owner_of :: "row_owners \<Rightarrow> item \<Rightarrow> nat option" where
  "owner_of os (DriveItem i) = row_driveOwner os i"
| "owner_of os (MagazineItem m) = row_magazineOwner os m"
| "owner_of os (MailboxItem m) = row_mailboxOwner os m"

text \<open>The items a library row lists.\<close>

definition row_items :: "lib_row \<Rightarrow> item list" where
  "row_items lib = map DriveItem (or_nil (lr_drives lib)) @ map MagazineItem (or_nil (lr_magazines lib)) @
     map MailboxItem (or_nil (lr_mailboxes lib))"

definition lib_rows :: "wizard \<Rightarrow> lib_row list" where
  "lib_rows w = or_nil (logical_libraries w)"

lemma row_items_mem [simp]:
  "DriveItem i \<in> set (row_items lib) \<longleftrightarrow> i \<in> set (or_nil (lr_drives lib))"
  "MagazineItem m \<in> set (row_items lib) \<longleftrightarrow> m \<in> set (or_nil (lr_magazines lib))"
  "MailboxItem m \<in> set (row_items lib) \<longleftrightarrow> m \<in> set (or_nil (lr_mailboxes lib))"
  by (auto simp: row_items_def)

lemma wizardLibraryOwners_eq:
  "row_driveOwner (wizardLibraryOwners w) =
     claim_map (\<lambda>p. or_nil (lr_drives (snd p))) fst (enumerate 0 (lib_rows w)) Map.empty"
  "row_magazineOwner (wizardLibraryOwners w) =
     claim_map (\<lambda>p. or_nil (lr_magazines (snd p))) fst (enumerate 0 (lib_rows w)) Map.empty"
  "row_mailboxOwner (wizardLibraryOwners w) =
     claim_map (\<lambda>p. or_nil (lr_mailboxes (snd p))) fst (enumerate 0 (lib_rows w)) Map.empty"
proof -
  define step where "step = (\<lambda>(p :: nat \<times> lib_row) (m :: row_owners).
         \<lparr>row_driveOwner = assign_all (or_nil (lr_drives (snd p))) (fst p) (row_driveOwner m),
          row_magazineOwner = assign_all (or_nil (lr_magazines (snd p))) (fst p) (row_magazineOwner m),
          row_mailboxOwner = assign_all (or_nil (lr_mailboxes (snd p))) (fst p) (row_mailboxOwner m)\<rparr>)"
  have "row_driveOwner (fold step ps m) = claim_map (\<lambda>p. or_nil (lr_drives (snd p))) fst ps (row_driveOwner m) \<and>
        row_magazineOwner (fold step ps m) = claim_map (\<lambda>p. or_nil (lr_magazines (snd p))) fst ps (row_magazineOwner m) \<and>
        row_mailboxOwner (fold step ps m) = claim_map (\<lambda>p. or_nil (lr_mailboxes (snd p))) fst ps (row_mailboxOwner m)" for ps m
    by (induction ps arbitrary: m) (simp_all add: claim_map_def step_def)
  moreover have "wizardLibraryOwners w = fold step (enumerate 0 (lib_rows w))
      \<lparr>row_driveOwner = Map.empty, row_magazineOwner = Map.empty, row_mailboxOwner = Map.empty\<rparr>"
    by (simp add: wizardLibraryOwners_def step_def lib_rows_def case_prod_beta')
  ultimately show
    "row_driveOwner (wizardLibraryOwners w) =
       claim_map (\<lambda>p. or_nil (lr_drives (snd p))) fst (enumerate 0 (lib_rows w)) Map.empty"
    "row_magazineOwner (wizardLibraryOwners w) =
       claim_map (\<lambda>p. or_nil (lr_magazines (snd p))) fst (enumerate 0 (lib_rows w)) Map.empty"
    "row_mailboxOwner (wizardLibraryOwners w) =
       claim_map (\<lambda>p. or_nil (lr_mailboxes (snd p))) fst (enumerate 0 (lib_rows w)) Map.empty"
    by simp_all
qed

definition owner_in :: "wizard \<Rightarrow> item \<Rightarrow> nat option" where
  "owner_in w it = owner_of (wizardLibraryOwners w) it"

text \<open>An item without an owner is listed nowhere; an owner lists its item and is a row of the board.\<close>

lemma owner_in_None: "owner_in w it = None \<longleftrightarrow> (\<forall>lib\<in>set (lib_rows w). it \<notin> set (row_items lib))"
proof -
  have ball: "(\<forall>p\<in>set (enumerate 0 (lib_rows w)). P (snd p)) \<longleftrightarrow> (\<forall>x\<in>set (lib_rows w). P x)" for P
  proof -
    have "set (lib_rows w) = snd ` set (enumerate 0 (lib_rows w))"
      by (metis list.set_map map_snd_enumerate)
    then show ?thesis by simp
  qed
  show ?thesis
  proof (cases it)
    case (DriveItem i)
    with ball [of "\<lambda>l. i \<notin> set (or_nil (lr_drives l))"] show ?thesis
      by (simp add: owner_in_def wizardLibraryOwners_eq claim_map_None)
  next
    case (MagazineItem m)
    with ball [of "\<lambda>l. m \<notin> set (or_nil (lr_magazines l))"] show ?thesis
      by (simp add: owner_in_def wizardLibraryOwners_eq claim_map_None)
  next
    case (MailboxItem m)
    with ball [of "\<lambda>l. m \<notin> set (or_nil (lr_mailboxes l))"] show ?thesis
      by (simp add: owner_in_def wizardLibraryOwners_eq claim_map_None)
  qed
qed

lemma owner_in_Some:
  "owner_in w it = Some i \<Longrightarrow> i < length (lib_rows w) \<and> it \<in> set (row_items (lib_rows w ! i))"
  by (cases it)
    (auto simp: owner_in_def wizardLibraryOwners_eq in_set_enumerate_eq dest!: claim_map_Some)

section \<open>The rendered board\<close>

definition drive_items :: "wizard \<Rightarrow> (item \<times> string) list" where
  "drive_items w = map (\<lambda>(di, d). (DriveItem (int di), ''Drive '' @ show_nat di @ '' ('' @ dk_name d @ '')''))
     (enumerate 0 (or_nil (w_drives w)))"

definition magazine_items :: "wizard \<Rightarrow> (item \<times> string) list" where
  "magazine_items w = map (\<lambda>m. (MagazineItem (bay_id m), bay_id m)) (or_nil (w_magazines w))"

definition mailbox_items :: "wizard \<Rightarrow> (item \<times> string) list" where
  "mailbox_items w = map (\<lambda>m. (MailboxItem (bay_id m), bay_id m)) (or_nil (w_mailboxes w))"

definition items_of_kind :: "wizard \<Rightarrow> kind \<Rightarrow> (item \<times> string) list" where
  "items_of_kind w k =
     (case k of KDrive \<Rightarrow> drive_items w | KMagazine \<Rightarrow> magazine_items w | KMailbox \<Rightarrow> mailbox_items w)"

text \<open>The chips of one zone: the items of its kind whose owner is the zone's.\<close>

definition zone_chips :: "wizard \<Rightarrow> zone \<Rightarrow> (chip \<times> string) list" where
  "zone_chips w z =
     map (\<lambda>(it, l). (\<lparr>chip_item = it, currentLibrary = zone_owner z\<rparr>, l))
       (filter (\<lambda>(it, l). owner_in w it = zone_owner z) (items_of_kind w (zone_kind z)))"

definition all_kinds :: "kind list" where
  "all_kinds = [KDrive, KMagazine, KMailbox]"

definition board_zones :: "wizard \<Rightarrow> zone list" where
  "board_zones w =
     map Pool all_kinds @ concat (map (\<lambda>i. map (\<lambda>k. LibZone k i) all_kinds) [0..<length (lib_rows w)])"

definition board_chips :: "wizard \<Rightarrow> chip set" where
  "board_chips w = (\<Union>z\<in>set (board_zones w). fst ` set (zone_chips w z))"

definition board_items :: "wizard \<Rightarrow> item set" where
  "board_items w = fst ` (set (drive_items w) \<union> set (magazine_items w) \<union> set (mailbox_items w))"

lemma set_all_kinds [simp]: "set all_kinds = UNIV"
  using kind.exhaust by (auto simp: all_kinds_def)

lemma board_zones_mem: "z \<in> set (board_zones w) \<longleftrightarrow>
    (case zone_owner z of None \<Rightarrow> True | Some i \<Rightarrow> i < length (lib_rows w))"
  by (cases z) (force simp: board_zones_def)+

lemma items_of_kind_kind: "(it, l) \<in> set (items_of_kind w k) \<Longrightarrow> kind_of it = k"
  by (cases k)
    (auto simp: items_of_kind_def drive_items_def magazine_items_def mailbox_items_def)

lemma board_items_eq: "board_items w = (\<Union>k. fst ` set (items_of_kind w k))"
proof -
  have U: "(UNIV :: kind set) = {KDrive, KMagazine, KMailbox}"
    using kind.exhaust by blast
  show ?thesis unfolding U by (simp add: board_items_def items_of_kind_def image_Un Un_assoc)
qed

lemma board_itemI: "(it, l) \<in> set (items_of_kind w k) \<Longrightarrow> it \<in> board_items w"
  by (force simp: board_items_eq)

lemma zone_chips_items:
  "it \<in> (chip_item \<circ> fst) ` set (zone_chips w z) \<longleftrightarrow>
     owner_in w it = zone_owner z \<and> (\<exists>l. (it, l) \<in> set (items_of_kind w (zone_kind z)))"
  by (auto simp: zone_chips_def image_image case_prod_beta' intro!: rev_image_eqI)

lemma board_chips_owner:
  "p \<in> board_chips w \<Longrightarrow> currentLibrary p = owner_in w (chip_item p) \<and> chip_item p \<in> board_items w"
  by (auto simp: board_chips_def zone_chips_def intro: board_itemI)

section \<open>Dropping\<close>

definition board_accepts :: "zone \<Rightarrow> chip \<Rightarrow> bool" where
  "board_accepts z p \<longleftrightarrow> kind_of (chip_item p) = zone_kind z \<and>
     (case zone_owner z of None \<Rightarrow> True | Some i \<Rightarrow> currentLibrary p = None)"

text \<open>\<open>lib[field] = lib[field].filter(\<dots>)\<close>; None where the field is null.\<close>

fun row_remove :: "item \<Rightarrow> lib_row \<Rightarrow> lib_row option" where
  "row_remove (DriveItem i) lib =
     map_option (\<lambda>xs. lib\<lparr>lr_drives := Some (filter (\<lambda>v. v \<noteq> i) xs)\<rparr>) (lr_drives lib)"
| "row_remove (MagazineItem m) lib =
     map_option (\<lambda>xs. lib\<lparr>lr_magazines := Some (filter (\<lambda>v. v \<noteq> m) xs)\<rparr>) (lr_magazines lib)"
| "row_remove (MailboxItem m) lib =
     map_option (\<lambda>xs. lib\<lparr>lr_mailboxes := Some (filter (\<lambda>v. v \<noteq> m) xs)\<rparr>) (lr_mailboxes lib)"

definition push_new :: "'a \<Rightarrow> 'a list \<Rightarrow> 'a list" where
  "push_new x xs = (if x \<in> set xs then xs else xs @ [x])"

text \<open>\<open>if (!lib[field].includes(p.id)) lib[field].push(p.id)\<close>; None where the field is null.\<close>

fun row_add :: "item \<Rightarrow> lib_row \<Rightarrow> lib_row option" where
  "row_add (DriveItem i) lib = map_option (\<lambda>xs. lib\<lparr>lr_drives := Some (push_new i xs)\<rparr>) (lr_drives lib)"
| "row_add (MagazineItem m) lib =
     map_option (\<lambda>xs. lib\<lparr>lr_magazines := Some (push_new m xs)\<rparr>) (lr_magazines lib)"
| "row_add (MailboxItem m) lib =
     map_option (\<lambda>xs. lib\<lparr>lr_mailboxes := Some (push_new m xs)\<rparr>) (lr_mailboxes lib)"

definition update_row :: "nat \<Rightarrow> (lib_row \<Rightarrow> lib_row option) \<Rightarrow> wizard \<Rightarrow> wizard option" where
  "update_row i f w =
     (if i < length (lib_rows w)
      then map_option (\<lambda>lib. w\<lparr>logical_libraries := Some ((lib_rows w)[i := lib])\<rparr>) (f (lib_rows w ! i))
      else None)"

text \<open>\<open>onDrop\<close>; None is the TypeError of an undefined library or a null list.\<close>

definition board_drop :: "zone \<Rightarrow> chip \<Rightarrow> wizard \<Rightarrow> wizard option" where
  "board_drop z p w =
     (case zone_owner z of
        None \<Rightarrow> (case currentLibrary p of None \<Rightarrow> None
                  | Some i \<Rightarrow> update_row i (row_remove (chip_item p)) w)
      | Some i \<Rightarrow> update_row i (row_add (chip_item p)) w)"

lemma push_new_set [simp]: "set (push_new x xs) = insert x (set xs)"
  by (auto simp: push_new_def)

lemma push_new_distinct [simp]: "distinct (push_new x xs) \<longleftrightarrow> distinct xs"
  by (auto simp: push_new_def)

lemma update_row_rows:
  "update_row i f w = Some w' \<Longrightarrow>
     \<exists>lib. i < length (lib_rows w) \<and> f (lib_rows w ! i) = Some lib \<and> lib_rows w' = (lib_rows w)[i := lib] \<and>
       board_items w' = board_items w"
  by (auto simp: update_row_def lib_rows_def board_items_def drive_items_def magazine_items_def
      mailbox_items_def split: if_splits)

lemma filter_other:
  "filter (\<lambda>x. x \<noteq> DriveItem i) (map MagazineItem ms) = map MagazineItem ms"
  "filter (\<lambda>x. x \<noteq> DriveItem i) (map MailboxItem ms) = map MailboxItem ms"
  "filter (\<lambda>x. x \<noteq> MagazineItem m) (map DriveItem ds) = map DriveItem ds"
  "filter (\<lambda>x. x \<noteq> MagazineItem m) (map MailboxItem ms) = map MailboxItem ms"
  "filter (\<lambda>x. x \<noteq> MailboxItem m) (map DriveItem ds) = map DriveItem ds"
  "filter (\<lambda>x. x \<noteq> MailboxItem m) (map MagazineItem ms) = map MagazineItem ms"
  by (simp_all add: filter_id_conv)

lemma row_remove_items:
  "row_remove it lib = Some lib' \<Longrightarrow> row_items lib' = filter (\<lambda>x. x \<noteq> it) (row_items lib)"
  by (cases it) (auto simp: row_items_def filter_map comp_def filter_other)

lemma row_add_items:
  "row_add it lib = Some lib' \<Longrightarrow> set (row_items lib') = insert it (set (row_items lib)) \<and>
     (distinct (row_items lib) \<longrightarrow> distinct (row_items lib'))"
  by (cases it) (auto simp: row_items_def distinct_map inj_on_def)

section \<open>Exclusivity\<close>

definition exclusive :: "lib_row list \<Rightarrow> bool" where
  "exclusive libs \<longleftrightarrow>
     (\<forall>i<length libs. \<forall>j<length libs. i \<noteq> j \<longrightarrow> set (row_items (libs ! i)) \<inter> set (row_items (libs ! j)) = {}) \<and>
     (\<forall>lib\<in>set libs. distinct (row_items lib))"

definition board_inv :: "wizard \<Rightarrow> bool" where
  "board_inv w \<longleftrightarrow> exclusive (lib_rows w)"

lemma exclusive_shrink:
  assumes "exclusive libs" and "i < length libs" and "set (row_items lib) \<subseteq> set (row_items (libs ! i))"
    and "distinct (row_items lib)"
  shows "exclusive (libs[i := lib])"
  unfolding exclusive_def
proof (intro conjI allI impI ballI)
  fix a b
  assume "a < length (libs[i := lib])" "b < length (libs[i := lib])" "a \<noteq> b"
  then show "set (row_items (libs[i := lib] ! a)) \<inter> set (row_items (libs[i := lib] ! b)) = {}"
    using assms by (auto simp: exclusive_def nth_list_update)
next
  fix l
  assume "l \<in> set (libs[i := lib])"
  then show "distinct (row_items l)"
    using assms set_update_subset_insert [of libs i lib] by (auto simp: exclusive_def)
qed

lemma exclusive_grow:
  assumes "exclusive libs" and "i < length libs" and "set (row_items lib) = insert it (set (row_items (libs ! i)))"
    and "distinct (row_items lib)" and "\<forall>l\<in>set libs. it \<notin> set (row_items l)"
  shows "exclusive (libs[i := lib])"
  unfolding exclusive_def
proof (intro conjI allI impI ballI)
  fix a b
  assume ab: "a < length (libs[i := lib])" "b < length (libs[i := lib])" "a \<noteq> b"
  then have "it \<notin> set (row_items (libs ! a))" "it \<notin> set (row_items (libs ! b))"
    using assms(5) by simp_all
  with ab show "set (row_items (libs[i := lib] ! a)) \<inter> set (row_items (libs[i := lib] ! b)) = {}"
    using assms by (auto simp: exclusive_def nth_list_update)
next
  fix l
  assume "l \<in> set (libs[i := lib])"
  then show "distinct (row_items l)"
    using assms set_update_subset_insert [of libs i lib] by (auto simp: exclusive_def)
qed

lemma exclusive_snoc:
  "exclusive libs \<Longrightarrow> row_items lib = [] \<Longrightarrow> exclusive (libs @ [lib])"
  by (auto simp: exclusive_def nth_append)

lemma exclusive_remove: "exclusive libs \<Longrightarrow> exclusive (remove_nth i libs)"
proof (cases "i < length libs")
  case True
  assume ex: "exclusive libs"
  show ?thesis
    unfolding exclusive_def
  proof (intro conjI allI impI ballI)
    fix a b
    assume ab: "a < length (remove_nth i libs)" "b < length (remove_nth i libs)" "a \<noteq> b"
    define f where "f = (\<lambda>j. if j < i then j else Suc j)"
    have "remove_nth i libs ! a = libs ! f a" "remove_nth i libs ! b = libs ! f b"
      "f a < length libs" "f b < length libs" "f a \<noteq> f b"
      using ab True length_remove_nth [OF True] by (auto simp: nth_remove_nth f_def)
    with ex show "set (row_items (remove_nth i libs ! a)) \<inter> set (row_items (remove_nth i libs ! b)) = {}"
      by (simp add: exclusive_def)
  qed (use ex set_remove_nth [of i libs] in \<open>auto simp: exclusive_def\<close>)
qed (simp add: remove_nth_beyond)

lemma board_drop_inv:
  assumes inv: "board_inv w" and offered: "p \<in> board_chips w" and acc: "board_accepts z p"
    and drop: "board_drop z p w = Some w'"
  shows "board_inv w'"
proof (cases "zone_owner z")
  case None
  with drop obtain i where "update_row i (row_remove (chip_item p)) w = Some w'"
    by (auto simp: board_drop_def split: option.splits)
  then obtain lib where i: "i < length (lib_rows w)" and lib: "row_remove (chip_item p) (lib_rows w ! i) = Some lib"
    and eq: "lib_rows w' = (lib_rows w)[i := lib]" using update_row_rows by blast
  have "distinct (row_items (lib_rows w ! i))"
    using inv i by (simp add: board_inv_def exclusive_def)
  with row_remove_items [OF lib] inv i eq show ?thesis
    by (auto simp: board_inv_def intro!: exclusive_shrink)
next
  case (Some i)
  with drop have "update_row i (row_add (chip_item p)) w = Some w'" by (simp add: board_drop_def)
  then obtain lib where i: "i < length (lib_rows w)" and lib: "row_add (chip_item p) (lib_rows w ! i) = Some lib"
    and eq: "lib_rows w' = (lib_rows w)[i := lib]" using update_row_rows by blast
  have "owner_in w (chip_item p) = None"
    using offered acc Some board_chips_owner by (simp add: board_accepts_def)
  then have free: "\<forall>l\<in>set (lib_rows w). chip_item p \<notin> set (row_items l)" by (simp add: owner_in_None)
  have "distinct (row_items (lib_rows w ! i))"
    using inv i by (simp add: board_inv_def exclusive_def)
  with row_add_items [OF lib] inv i eq free show ?thesis
    by (auto simp: board_inv_def intro!: exclusive_grow)
qed

interpretation wb: drag_board board_chips "\<lambda>w. set (board_zones w)" board_accepts board_drop board_inv
  by unfold_locales (blast intro: board_drop_inv)

section \<open>Runs of the wizard's editors\<close>

text \<open>
  What the user can do between two submissions: any editor of any step (the board's drops included). An
  editor that throws or alerts leaves the state as it was.
\<close>

inductive editor_step :: "wizard_options \<Rightarrow> wizard \<Rightarrow> wizard \<Rightarrow> bool" for options where
  step_addDrive: "addDrive options w = Edited w' \<Longrightarrow> editor_step options w w'"
| step_changeDrive: "changeDrive options i v w = Edited w' \<Longrightarrow> editor_step options w w'"
| step_removeDrive: "removeDrive i w = Edited w' \<Longrightarrow> editor_step options w w'"
| step_addMagazine: "addMagazine w = Edited w' \<Longrightarrow> editor_step options w w'"
| step_setMagazineSlots: "setMagazineSlots b n w = Edited w' \<Longrightarrow> editor_step options w w'"
| step_removeMagazine: "removeMagazine b w = Edited w' \<Longrightarrow> editor_step options w w'"
| step_addMailbox: "addMailbox w = Edited w' \<Longrightarrow> editor_step options w w'"
| step_setMailboxSlots: "setMailboxSlots b n w = Edited w' \<Longrightarrow> editor_step options w w'"
| step_removeMailbox: "removeMailbox b w = Edited w' \<Longrightarrow> editor_step options w w'"
| step_addTapeSet: "addTapeSet options w = Edited w' \<Longrightarrow> editor_step options w w'"
| step_edit_tape_set: "edit_tape_set i f w = Edited w' \<Longrightarrow> editor_step options w w'"
| step_removeTapeSet: "removeTapeSet i w = Edited w' \<Longrightarrow> editor_step options w w'"
| step_addLogicalLib: "addLogicalLib w = Edited w' \<Longrightarrow> editor_step options w w'"
| step_setLibName: "setLibName i v w = Edited w' \<Longrightarrow> editor_step options w w'"
| step_setLibColor: "setLibColor i v w = Edited w' \<Longrightarrow> editor_step options w w'"
| step_removeLib: "removeLib i w = Edited w' \<Longrightarrow> editor_step options w w'"
| step_drop: "gesture board_chips (\<lambda>w. set (board_zones w)) board_accepts board_drop w w' \<Longrightarrow> editor_step options w w'"

lemma edit_lib_exclusive:
  assumes "edit_lib i f w = Edited w'" and "\<And>l. row_items (f l) = row_items l" and "board_inv w"
  shows "board_inv w'"
proof -
  from assms(1) obtain libs where libs: "logical_libraries w = Some libs" "i < length libs"
      "lib_rows w' = libs[i := f (libs ! i)]"
    by (auto simp: edit_lib_def edit_row_def lib_rows_def split: option.splits if_splits)
  with assms(3) have "exclusive libs" by (simp add: board_inv_def lib_rows_def)
  with libs assms(2) have "exclusive (libs[i := f (libs ! i)])"
    by (intro exclusive_shrink) (auto simp: exclusive_def)
  with libs show ?thesis by (simp add: board_inv_def)
qed

definition bays_ok :: "wizard \<Rightarrow> bool" where
  "bays_ok w \<longleftrightarrow> distinct (map bay_id (or_nil (w_magazines w))) \<and> distinct (map bay_id (or_nil (w_mailboxes w)))"

text \<open>One step of any editor keeps both invariants.\<close>

lemma lib_rows_cong: "logical_libraries w' = logical_libraries w \<Longrightarrow> lib_rows w' = lib_rows w"
  by (simp add: lib_rows_def)

lemma same_libs_inv: "logical_libraries w' = logical_libraries w \<Longrightarrow> board_inv w \<Longrightarrow> board_inv w'"
  by (simp add: board_inv_def lib_rows_def)

lemmas editor_defs = addDrive_def changeDrive_def removeDrive_def addMagazine_def setMagazineSlots_def
  removeMagazine_def addMailbox_def setMailboxSlots_def removeMailbox_def addTapeSet_def edit_tape_set_def
  removeTapeSet_def addLogicalLib_def setLibName_def setLibColor_def removeLib_def edit_lib_def

lemma gesture_board_bays:
  "gesture board_chips (\<lambda>w. set (board_zones w)) board_accepts board_drop w w' \<Longrightarrow>
     w_magazines w' = w_magazines w \<and> w_mailboxes w' = w_mailboxes w \<and> w_drives w' = w_drives w"
  by (auto elim!: gestureE simp: board_drop_def update_row_def split: option.splits if_splits)

lemma editor_step_exclusive: "editor_step options w w' \<Longrightarrow> board_inv w \<Longrightarrow> board_inv w'"
proof (induction rule: editor_step.induct)
  case (step_addLogicalLib w w')
  then show ?case
    by (auto simp: addLogicalLib_def board_inv_def lib_rows_def Let_def row_items_def intro!: exclusive_snoc)
next
  case (step_setLibName i v w w')
  then show ?case by (auto simp: setLibName_def row_items_def intro: edit_lib_exclusive)
next
  case (step_setLibColor i v w w')
  then show ?case by (auto simp: setLibColor_def row_items_def intro: edit_lib_exclusive)
next
  case (step_removeLib i w w')
  then show ?case
    by (auto simp: removeLib_def board_inv_def lib_rows_def intro: exclusive_remove split: option.splits)
next
  case (step_drop w w')
  then show ?case by (rule wb.gesture_inv)
qed (auto simp: editor_defs intro: same_libs_inv split: option.splits list.splits)

lemma editor_step_bays: "editor_step options w w' \<Longrightarrow> bays_ok w \<Longrightarrow> bays_ok w'"
proof (induction rule: editor_step.induct)
  case (step_drop w w')
  then show ?case using gesture_board_bays by (simp add: bays_ok_def)
qed (auto simp: editor_defs bays_ok_def Let_def intro: push_bay_ids distinct_map_filter_key
    split: option.splits list.splits)

text \<open>On an exclusive board the owner map is exactly the rows' lists.\<close>

lemma owner_in_iff:
  assumes "board_inv w"
  shows "owner_in w it = Some i \<longleftrightarrow> i < length (lib_rows w) \<and> it \<in> set (row_items (lib_rows w ! i))"
proof
  assume r: "i < length (lib_rows w) \<and> it \<in> set (row_items (lib_rows w ! i))"
  then obtain j where j: "owner_in w it = Some j"
    using owner_in_None [of w it] by (cases "owner_in w it") auto
  then have "j < length (lib_rows w)" "it \<in> set (row_items (lib_rows w ! j))"
    using owner_in_Some by simp_all
  then have "i = j" using r assms by (auto simp: board_inv_def exclusive_def)
  with j show "owner_in w it = Some i" by simp
qed (rule owner_in_Some)

lemma owner_in_eqI:
  assumes "board_inv w" and "\<And>i. i < length (lib_rows w) \<and> it \<in> set (row_items (lib_rows w ! i)) \<longleftrightarrow> r = Some i"
  shows "owner_in w it = r"
proof (cases "owner_in w it")
  case None
  show ?thesis
  proof (cases r)
    case (Some i)
    then have "i < length (lib_rows w) \<and> it \<in> set (row_items (lib_rows w ! i))" using assms(2) by simp
    with None show ?thesis using nth_mem by (auto simp: owner_in_None)
  qed (use None in simp)
next
  case (Some i)
  then show ?thesis using assms(2) owner_in_iff [OF assms(1)] by simp
qed

text \<open>The list of a row a chip of kind \<open>k\<close> goes to is null.\<close>

fun row_null :: "kind \<Rightarrow> lib_row \<Rightarrow> bool" where
  "row_null KDrive lib = (lr_drives lib = None)"
| "row_null KMagazine lib = (lr_magazines lib = None)"
| "row_null KMailbox lib = (lr_mailboxes lib = None)"

lemma row_add_None: "row_add it lib = None \<longleftrightarrow> row_null (kind_of it) lib"
  by (cases it) simp_all

lemma row_remove_None: "row_remove it lib = None \<longleftrightarrow> row_null (kind_of it) lib"
  by (cases it) simp_all

lemma row_null_items: "row_null (kind_of it) lib \<Longrightarrow> it \<notin> set (row_items lib)"
  by (cases it) simp_all

section \<open>Properties\<close>

text \<open>
  C1: Whatever sequence of wizard edits a user makes, starting from a board on which every drive, magazine
  and mailbox is listed by at most one library (an empty board, for one), no item is ever listed by two
  libraries or twice by one. The bulk save has no such check of its own; the board is the only guard.
\<close>

theorem wizard_items_exclusive:
  assumes "(editor_step options)\<^sup>*\<^sup>* w w'" and "board_inv w"
  shows "board_inv w'"
  using assms by (induction rule: rtranclp_induct) (auto intro: editor_step_exclusive)

text \<open>Two libraries, two drives; the first drive is dropped on the second library.\<close>

definition sample_lib :: "string \<Rightarrow> lib_row" where
  "sample_lib n = \<lparr>lr_name = n, lr_drives = Some [], lr_magazines = Some [], lr_mailboxes = Some [],
     lr_color = ''#4285F4'', lr_changer_model = []\<rparr>"

definition sample_kind :: "string \<Rightarrow> drive_kind" where
  "sample_kind n = \<lparr>dk_name = n, dk_speed = [], dk_capacity = [], dk_description = [], dk_model = [],
     dk_generation = [], dk_barcode_family = ''lto'', dk_scsi_identity = []\<rparr>"

definition sample_wizard :: wizard where
  "sample_wizard = \<lparr>completed = False, current_step = 7, vtl_name = ''VTL0'', operational_mode = ''changer'',
     w_drives = Some [sample_kind ''LTO-8'', sample_kind ''LTO-9''],
     w_magazines = Some [\<lparr>bay_id = ''Magazine1'', bay_slots = 5\<rparr>], w_mailboxes = None,
     offsite_location = False, tape_sets = None,
     logical_libraries = Some [sample_lib ''Library1'', sample_lib ''Library2''],
     latency_enabled = False, telemetry_enabled = False\<rparr>"

definition sample_chip :: chip where
  "sample_chip = \<lparr>chip_item = DriveItem 0, currentLibrary = None\<rparr>"

definition sample_dropped :: wizard where
  "sample_dropped = sample_wizard\<lparr>logical_libraries :=
     Some [sample_lib ''Library1'', (sample_lib ''Library2'')\<lparr>lr_drives := Some [0]\<rparr>]\<rparr>"

lemma sample_board:
  "board_inv sample_wizard" "sample_chip \<in> board_chips sample_wizard"
  "LibZone KDrive 1 \<in> set (board_zones sample_wizard)" "board_accepts (LibZone KDrive 1) sample_chip"
  "board_drop (LibZone KDrive 1) sample_chip sample_wizard = Some sample_dropped"
proof -
  show "board_inv sample_wizard"
    by (simp add: board_inv_def exclusive_def sample_wizard_def lib_rows_def sample_lib_def row_items_def
        less_Suc_eq numeral_2_eq_2)
  have "owner_in sample_wizard (DriveItem 0) = None"
    by (simp add: owner_in_None sample_wizard_def lib_rows_def sample_lib_def)
  moreover have "drive_items sample_wizard =
      [(DriveItem 0, ''Drive '' @ show_nat 0 @ '' (LTO-8)''), (DriveItem 1, ''Drive '' @ show_nat 1 @ '' (LTO-9)'')]"
    by (simp add: drive_items_def sample_wizard_def sample_kind_def)
  ultimately have "(sample_chip, ''Drive '' @ show_nat 0 @ '' (LTO-8)'') \<in> set (zone_chips sample_wizard (Pool KDrive))"
    by (simp add: zone_chips_def items_of_kind_def sample_chip_def)
  moreover have "Pool KDrive \<in> set (board_zones sample_wizard)" by (simp add: board_zones_mem)
  ultimately show "sample_chip \<in> board_chips sample_wizard" by (force simp: board_chips_def)
  show "LibZone KDrive 1 \<in> set (board_zones sample_wizard)"
    by (simp add: board_zones_mem lib_rows_def sample_wizard_def)
  show "board_accepts (LibZone KDrive 1) sample_chip" by (simp add: board_accepts_def sample_chip_def)
  show "board_drop (LibZone KDrive 1) sample_chip sample_wizard = Some sample_dropped"
    by (simp add: board_drop_def update_row_def sample_wizard_def sample_chip_def sample_dropped_def
        sample_lib_def lib_rows_def push_new_def)
qed

lemma sample_drop_step: "editor_step options sample_wizard sample_dropped"
  using sample_board by (intro editor_step.step_drop gesture.dropped)

theorem wizard_items_exclusive_witness: "board_inv sample_dropped"
  by (rule wizard_items_exclusive [OF r_into_rtranclp, OF sample_drop_step sample_board(1)])

text \<open>
  C14: The step-7 board shows every drive, magazine and mailbox of the wizard in exactly one drop zone: the
  pool when no library lists it, else the zone of its kind on the card of the library that owns it.
\<close>

theorem board_shows_each_item_once:
  assumes "it \<in> board_items w"
  shows "\<exists>!z. z \<in> set (board_zones w) \<and> it \<in> (chip_item \<circ> fst) ` set (zone_chips w z)"
proof -
  define z0 where "z0 = (case owner_in w it of None \<Rightarrow> Pool (kind_of it) | Some i \<Rightarrow> LibZone (kind_of it) i)"
  from assms obtain k l where kl: "(it, l) \<in> set (items_of_kind w k)" by (auto simp: board_items_eq)
  then have k: "kind_of it = k" by (rule items_of_kind_kind)
  have z0: "zone_kind z0 = k" "zone_owner z0 = owner_in w it"
    by (simp_all add: z0_def k split: option.splits)
  have shown: "it \<in> (chip_item \<circ> fst) ` set (zone_chips w z) \<longleftrightarrow> zone_kind z = k \<and> zone_owner z = owner_in w it" for z
  proof -
    have "(\<exists>l. (it, l) \<in> set (items_of_kind w (zone_kind z))) \<longleftrightarrow> zone_kind z = k"
      using kl k items_of_kind_kind by metis
    then show ?thesis unfolding zone_chips_items by auto
  qed
  have "z0 \<in> set (board_zones w)"
    using owner_in_Some by (auto simp: board_zones_mem z0 split: option.splits)
  moreover have "z = z0" if "zone_kind z = k" "zone_owner z = owner_in w it" for z
    using that z0 by (cases z; cases z0; cases "owner_in w it") auto
  ultimately show ?thesis unfolding shown using z0 by blast
qed

theorem board_shows_each_item_once_witness:
  "\<exists>!z. z \<in> set (board_zones sample_wizard) \<and>
        MagazineItem ''Magazine1'' \<in> (chip_item \<circ> fst) ` set (zone_chips sample_wizard z)"
  by (rule board_shows_each_item_once) (simp add: board_items_def magazine_items_def sample_wizard_def)

text \<open>
  C28: A drop that the board accepts and carries out moves exactly the dragged item: its owner becomes the
  library of the zone (none for the pool) and the owner of every other item stays what it was.
\<close>

theorem board_drop_moves_the_item:
  assumes "board_inv w" and "p \<in> board_chips w" and "board_accepts z p" and "board_drop z p w = Some w'"
  shows "owner_in w' it = (if it = chip_item p then zone_owner z else owner_in w it)"
proof -
  have inv': "board_inv w'" using assms by (rule board_drop_inv)
  have own: "currentLibrary p = owner_in w (chip_item p)" using assms(2) board_chips_owner by simp
  show ?thesis
  proof (cases "zone_owner z")
    case None
    with assms(4) obtain i where i: "currentLibrary p = Some i"
      and up: "update_row i (row_remove (chip_item p)) w = Some w'"
      by (auto simp: board_drop_def split: option.splits)
    from update_row_rows [OF up] obtain lib where lib: "row_remove (chip_item p) (lib_rows w ! i) = Some lib"
      and len: "i < length (lib_rows w)" and eq: "lib_rows w' = (lib_rows w)[i := lib]" by blast
    have "chip_item p \<notin> set (row_items (lib_rows w ! j))" if "j < length (lib_rows w)" "j \<noteq> i" for j
      using that own i owner_in_iff [OF assms(1), of "chip_item p" j] by auto
    then show ?thesis
      using None eq len row_remove_items [OF lib] owner_in_iff [OF assms(1), of it]
      by (intro owner_in_eqI [OF inv']) (auto simp: nth_list_update)
  next
    case (Some i)
    with assms(4) have up: "update_row i (row_add (chip_item p)) w = Some w'" by (simp add: board_drop_def)
    from update_row_rows [OF up] obtain lib where lib: "row_add (chip_item p) (lib_rows w ! i) = Some lib"
      and len: "i < length (lib_rows w)" and eq: "lib_rows w' = (lib_rows w)[i := lib]" by blast
    have "owner_in w (chip_item p) = None" using own assms(3) Some by (simp add: board_accepts_def)
    then have "chip_item p \<notin> set (row_items (lib_rows w ! j))" if "j < length (lib_rows w)" for j
      using that by (simp add: owner_in_None)
    then show ?thesis
      using Some eq len row_add_items [OF lib] owner_in_iff [OF assms(1), of it]
      by (intro owner_in_eqI [OF inv']) (auto simp: nth_list_update)
  qed
qed

theorem board_drop_moves_the_item_witness:
  "owner_in sample_dropped (DriveItem 0) = Some 1 \<and>
   owner_in sample_dropped (DriveItem 1) = owner_in sample_wizard (DriveItem 1)"
  using board_drop_moves_the_item [OF sample_board(1,2,4,5)] by (simp add: sample_chip_def)

text \<open>
  C29: The drops the board accepts but fails on, exactly: a chip that lies in the pool dropped on the pool
  (there is no library to take it from), and a chip dropped on a library whose list of that kind is null,
  as the server sends the empty lists of a saved library. In both the handler throws a TypeError.
\<close>

theorem board_drop_fails_iff:
  assumes "p \<in> board_chips w" and "z \<in> set (board_zones w)" and "board_accepts z p"
  shows "board_drop z p w = None \<longleftrightarrow>
     (case zone_owner z of None \<Rightarrow> currentLibrary p = None
      | Some i \<Rightarrow> row_null (zone_kind z) (lib_rows w ! i))"
proof (cases "zone_owner z")
  case None
  show ?thesis
  proof (cases "currentLibrary p")
    case (Some i)
    then have "owner_in w (chip_item p) = Some i" using assms(1) board_chips_owner by simp
    then have "i < length (lib_rows w)" "chip_item p \<in> set (row_items (lib_rows w ! i))"
      using owner_in_Some by simp_all
    then show ?thesis
      using None Some row_null_items by (auto simp: board_drop_def update_row_def row_remove_None)
  qed (use None in \<open>simp add: board_drop_def\<close>)
next
  case (Some i)
  then have "i < length (lib_rows w)" using assms(2) by (simp add: board_zones_mem)
  then show ?thesis
    using Some assms(3) by (auto simp: board_drop_def update_row_def row_add_None board_accepts_def)
qed

definition sample_null :: wizard where
  "sample_null = sample_wizard\<lparr>logical_libraries := Some [(sample_lib ''Library1'')\<lparr>lr_drives := None\<rparr>]\<rparr>"

lemma sample_null_chip: "sample_chip \<in> board_chips sample_null"
proof -
  have "owner_in sample_null (DriveItem 0) = None"
    by (simp add: owner_in_None sample_null_def sample_wizard_def lib_rows_def sample_lib_def)
  moreover have "drive_items sample_null =
      [(DriveItem 0, ''Drive '' @ show_nat 0 @ '' (LTO-8)''), (DriveItem 1, ''Drive '' @ show_nat 1 @ '' (LTO-9)'')]"
    by (simp add: drive_items_def sample_null_def sample_wizard_def sample_kind_def)
  ultimately have "(sample_chip, ''Drive '' @ show_nat 0 @ '' (LTO-8)'') \<in> set (zone_chips sample_null (Pool KDrive))"
    by (simp add: zone_chips_def items_of_kind_def sample_chip_def)
  moreover have "Pool KDrive \<in> set (board_zones sample_null)" by (simp add: board_zones_mem)
  ultimately show ?thesis by (force simp: board_chips_def)
qed

theorem board_drop_fails_iff_witness:
  "board_drop (LibZone KDrive 0) sample_chip sample_null = None \<and>
   board_drop (Pool KDrive) sample_chip sample_null = None"
proof -
  have z: "LibZone KDrive 0 \<in> set (board_zones sample_null)" "Pool KDrive \<in> set (board_zones sample_null)"
    by (simp_all add: board_zones_mem lib_rows_def sample_null_def)
  have a: "board_accepts (LibZone KDrive 0) sample_chip" "board_accepts (Pool KDrive) sample_chip"
    by (simp_all add: board_accepts_def sample_chip_def)
  show ?thesis
    using board_drop_fails_iff [OF sample_null_chip z(1) a(1)] board_drop_fails_iff [OF sample_null_chip z(2) a(2)]
    by (simp add: sample_null_def lib_rows_def sample_chip_def)
qed

text \<open>
  Magazine and mailbox ids stay distinct under every sequence of wizard edits, because a new id is
  always one no existing row has, even after rows in the middle were removed.
\<close>

theorem wizard_ids_distinct:
  assumes "(editor_step options)\<^sup>*\<^sup>* w w'" and "bays_ok w"
  shows "bays_ok w'"
  using assms by (induction rule: rtranclp_induct) (auto intro: editor_step_bays)

theorem wizard_ids_distinct_witness: "bays_ok sample_dropped"
  by (rule wizard_ids_distinct [OF r_into_rtranclp, OF sample_drop_step])
    (simp add: bays_ok_def sample_wizard_def)

text \<open>
  Removing a drive in step 2 renumbers the drives behind it but leaves the libraries' lists alone: a
  library that listed the number of a drive at or behind the removed one now means the next drive, and the
  last number means no drive at all.
\<close>

theorem removeDrive_shifts_owners:
  assumes "w_drives w = Some ds" and "i < length ds"
  shows "\<exists>w' ds'. removeDrive i w = Edited w' \<and> w_drives w' = Some ds' \<and> lib_rows w' = lib_rows w \<and>
     length ds' = length ds - 1 \<and>
     (\<forall>j<length ds'. ds' ! j = (if j < i then ds ! j else ds ! Suc j)) \<and>
     DriveItem (int (length ds - 1)) \<notin> board_items w'"
proof -
  define w' where "w' = w\<lparr>w_drives := Some (remove_nth i ds)\<rparr>"
  have len: "length (remove_nth i ds) = length ds - 1" using assms(2) by (rule length_remove_nth)
  have "DriveItem (int (length ds - 1)) \<notin> board_items w'"
    using len by (auto simp: board_items_def drive_items_def magazine_items_def mailbox_items_def w'_def
        in_set_enumerate_eq)
  moreover have "removeDrive i w = Edited w'" using assms(1) by (simp add: removeDrive_def w'_def)
  ultimately show ?thesis
    using len nth_remove_nth [of _ i ds] by (intro exI [of _ w'] exI [of _ "remove_nth i ds"])
      (auto simp: w'_def lib_rows_def)
qed

text \<open>The library that owned the LTO-8 drive owns the LTO-9 drive after the LTO-8 one is removed.\<close>

theorem removeDrive_shifts_owners_witness:
  "\<exists>w' ds'. removeDrive 0 sample_dropped = Edited w' \<and> w_drives w' = Some ds' \<and>
     lib_rows w' = lib_rows sample_dropped \<and> length ds' = 1 \<and> ds' ! 0 = sample_kind ''LTO-9''"
  using removeDrive_shifts_owners [of sample_dropped "[sample_kind ''LTO-8'', sample_kind ''LTO-9'']" 0]
  by (auto simp: sample_dropped_def sample_wizard_def)

text \<open>
  The name proposed for a new magazine, mailbox, tape set or library differs from every existing name,
  whatever names the user typed and whichever rows were removed before.
\<close>

theorem next_name_unused: "nextSequentialName names prefix \<notin> set names"
  by (rule nextSequentialName_fresh)

end
