(* ===== verification/Wizard_Submit.thy ===== *)
theory Wizard_Submit
  imports Wizard_Board Backend
begin

text \<open>
  The wizard's requests (app.js \<open>handleWizardStepSubmit\<close>, the Previous button of \<open>renderWizardStepUI\<close>, the
  SCSI-identity editor of step 2). The programs run on the page's wizard state and options, a pair.

  \<open>wizard_request\<close> is the body as the server decodes it (internal/api/wizard.go, WizardRequest): fields the
  JSON object lacks are empty. \<open>request_json\<close> lists the fields that are really sent.
\<close>

section \<open>The request\<close>

record wizard_request =
  rq_step :: nat
  rq_vtl_name :: string
  rq_operational_mode :: string
  rq_drives :: "drive_kind list"
  rq_magazines :: "bay list"
  rq_mailboxes :: "bay list"
  rq_offsite_location :: bool
  rq_tape_sets :: "tape_set_row list"
  rq_logical_libraries :: "lib_row list"
  rq_latency_enabled :: bool
  rq_telemetry_enabled :: bool

definition empty_request :: "nat \<Rightarrow> wizard_request" where
  "empty_request n = \<lparr>rq_step = n, rq_vtl_name = [], rq_operational_mode = [], rq_drives = [], rq_magazines = [],
     rq_mailboxes = [], rq_offsite_location = False, rq_tape_sets = [], rq_logical_libraries = [],
     rq_latency_enabled = False, rq_telemetry_enabled = False\<rparr>"

definition drive_kind_json :: "drive_kind \<Rightarrow> json" where
  "drive_kind_json d = JObj [(''name'', JStr (dk_name d)), (''speed'', JStr (dk_speed d)),
     (''capacity'', JStr (dk_capacity d)), (''description'', JStr (dk_description d)), (''model'', JStr (dk_model d)),
     (''generation'', JStr (dk_generation d)), (''barcode_family'', JStr (dk_barcode_family d)),
     (''scsi_identity'', JStr (dk_scsi_identity d))]"

definition bay_json :: "bay \<Rightarrow> json" where
  "bay_json b = JObj [(''id'', JStr (bay_id b)), (''slots'', JNum (bay_slots b))]"

definition tape_set_json :: "tape_set_row \<Rightarrow> json" where
  "tape_set_json t = JObj [(''name'', JStr (ts_name t)), (''tape_type'', JStr (ts_tape_type t)),
     (''storage_folder'', JStr (ts_folder t)), (''tape_count'', JNum (ts_count t))]"

definition opt_list_json :: "('a \<Rightarrow> json) \<Rightarrow> 'a list option \<Rightarrow> json" where
  "opt_list_json f xs = (case xs of None \<Rightarrow> JNull | Some ys \<Rightarrow> JArr (map f ys))"

definition lib_row_json :: "lib_row \<Rightarrow> json" where
  "lib_row_json l = JObj [(''name'', JStr (lr_name l)), (''drives'', opt_list_json JNum (lr_drives l)),
     (''magazines'', opt_list_json JStr (lr_magazines l)), (''mailboxes'', opt_list_json JStr (lr_mailboxes l)),
     (''color'', JStr (lr_color l))]"

definition field_json :: "wizard_request \<Rightarrow> string \<Rightarrow> json" where
  "field_json q f =
     (if f = ''vtl_name'' then JStr (rq_vtl_name q)
      else if f = ''operational_mode'' then JStr (rq_operational_mode q)
      else if f = ''drives'' then JArr (map drive_kind_json (rq_drives q))
      else if f = ''magazines'' then JArr (map bay_json (rq_magazines q))
      else if f = ''mailboxes'' then JArr (map bay_json (rq_mailboxes q))
      else if f = ''offsite_location'' then JBool (rq_offsite_location q)
      else if f = ''tape_sets'' then JArr (map tape_set_json (rq_tape_sets q))
      else if f = ''logical_libraries'' then JArr (map lib_row_json (rq_logical_libraries q))
      else if f = ''latency_enabled'' then JBool (rq_latency_enabled q)
      else JBool (rq_telemetry_enabled q))"

definition request_json :: "string list \<Rightarrow> wizard_request \<Rightarrow> json" where
  "request_json fs q =
     JObj ((''step'', JNum (int (rq_step q))) # map (\<lambda>f. (f, field_json q f)) fs)"

definition step_fields :: "nat \<Rightarrow> string list" where
  "step_fields n =
     (if n = 1 then [''vtl_name'', ''operational_mode''] else if n = 2 then [''drives'']
      else if n = 3 then [''magazines''] else if n = 4 then [''mailboxes'']
      else if n = 5 then [''offsite_location''] else if n = 6 then [''tape_sets'']
      else if n = 7 then [''logical_libraries''] else if n = 8 then [''latency_enabled'']
      else if n = 9 then [''telemetry_enabled''] else [])"

definition all_fields :: "string list" where
  "all_fields = concat (map step_fields [1..<10])"

section \<open>What Next sends\<close>

text \<open>The form's inputs; a text input or radio group that is not on the page reads as null (None).\<close>

record wizard_form =
  form_vtlName :: "string option"
  form_operationalMode :: "string option"
  form_offsiteLocation :: bool
  form_latencyEnabled :: bool
  form_telemetryEnabled :: bool

definition or_text :: "string option \<Rightarrow> string \<Rightarrow> string" where
  "or_text x d = (case x of None \<Rightarrow> d | Some s \<Rightarrow> or_else s d)"

text \<open>The first tape set whose fields are not acceptable, as the message thrown.\<close>

fun tape_sets_error :: "tape_set_row list \<Rightarrow> string option" where
  "tape_sets_error [] = None"
| "tape_sets_error (t # ts) =
     (case validateTapeSetInput (ts_name t) (ts_tape_type t) (ts_folder t) (Some (ts_count t)) of
        None \<Rightarrow> tape_sets_error ts
      | Some err \<Rightarrow> Some (''Tape set '' @ or_else (ts_name t) ''(unnamed)'' @ '': '' @ err))"

definition submission :: "nat \<Rightarrow> wizard_form \<Rightarrow> wizard \<Rightarrow> string + wizard_request" where
  "submission step form w =
     (if step = 1 then Inr ((empty_request 1)\<lparr>rq_vtl_name := or_text (form_vtlName form) [],
          rq_operational_mode := or_text (form_operationalMode form) ''changer''\<rparr>)
      else if step = 2 then Inr ((empty_request 2)\<lparr>rq_drives := or_nil (w_drives w)\<rparr>)
      else if step = 3 then Inr ((empty_request 3)\<lparr>rq_magazines := or_nil (w_magazines w)\<rparr>)
      else if step = 4 then Inr ((empty_request 4)\<lparr>rq_mailboxes := or_nil (w_mailboxes w)\<rparr>)
      else if step = 5 then Inr ((empty_request 5)\<lparr>rq_offsite_location := form_offsiteLocation form\<rparr>)
      else if step = 6 then
        (case tape_sets_error (or_nil (tape_sets w)) of
           Some err \<Rightarrow> Inl err
         | None \<Rightarrow> Inr ((empty_request 6)\<lparr>rq_tape_sets := or_nil (tape_sets w)\<rparr>))
      else if step = 7 then Inr ((empty_request 7)\<lparr>rq_logical_libraries := or_nil (logical_libraries w)\<rparr>)
      else if step = 8 then Inr ((empty_request 8)\<lparr>rq_latency_enabled := form_latencyEnabled form\<rparr>)
      else if step = 9 then Inr ((empty_request 9)\<lparr>rq_telemetry_enabled := form_telemetryEnabled form\<rparr>)
      else Inr (empty_request step))"

section \<open>What Previous sends\<close>

text \<open>Everything the state holds but \<open>completed\<close> and \<open>current_step\<close>, with the step before.\<close>

definition previous_request :: "nat \<Rightarrow> wizard \<Rightarrow> wizard_request" where
  "previous_request step w =
     \<lparr>rq_step = step - 1, rq_vtl_name = vtl_name w, rq_operational_mode = operational_mode w,
      rq_drives = or_nil (w_drives w), rq_magazines = or_nil (w_magazines w), rq_mailboxes = or_nil (w_mailboxes w),
      rq_offsite_location = offsite_location w, rq_tape_sets = or_nil (tape_sets w),
      rq_logical_libraries = or_nil (logical_libraries w), rq_latency_enabled = latency_enabled w,
      rq_telemetry_enabled = telemetry_enabled w\<rparr>"

section \<open>The programs\<close>

definition throw_error :: "string \<Rightarrow> ('s, 'a) prog" where
  "throw_error msg = Throw msg"

definition wizard_post :: "json \<Rightarrow> ('s, payload option) prog" where
  "wizard_post body = api (post_req ''/api/v1/wizard'' body)"

definition handleWizardStepSubmit :: "nat \<Rightarrow> wizard_form \<Rightarrow> wizard \<Rightarrow> ('s, unit) prog" where
  "handleWizardStepSubmit step form w =
     (case submission step form w of
        Inl err \<Rightarrow> throw_error err
      | Inr q \<Rightarrow>
          io_bind (wizard_post (request_json (step_fields step) q)) (\<lambda>answer.
            case answer of
              Some (PWizard newState) \<Rightarrow>
                if completed newState then
                  io_seq (api (post_req ''/api/v1/wizard/complete'' JNull))
                    (io_bind (api (get_req ''/api/v1/auth/state'')) (\<lambda>s.
                       case s of Some (PAuth a) \<Rightarrow> start (ShowApp a)
                       | _ \<Rightarrow> throw_error ''TypeError''))
                else start (RenderWizardStep newState)
            | _ \<Rightarrow> throw_error ''TypeError''))"

text \<open>The submit listener of \<open>renderWizardStepUI\<close>, and the click listener of its Previous button.\<close>

definition on_wizard_submit :: "nat \<Rightarrow> wizard_form \<Rightarrow> wizard \<Rightarrow> ('s, unit) prog" where
  "on_wizard_submit step form w =
     io_catch (handleWizardStepSubmit step form w) (\<lambda>e. alert (''Error: '' @ e))"

definition on_wizard_previous :: "nat \<Rightarrow> wizard \<Rightarrow> ('s, unit) prog" where
  "on_wizard_previous step w =
     io_catch
       (io_bind (wizard_post (request_json all_fields (previous_request step w))) (\<lambda>answer.
          case answer of Some (PWizard newState) \<Rightarrow> start (RenderWizardStep newState)
          | _ \<Rightarrow> throw_error ''TypeError''))
       (\<lambda>e. alert (''Error: '' @ e))"

section \<open>The SCSI identity of a drive type (step 2)\<close>

fun set_identity_first :: "string \<Rightarrow> string \<Rightarrow> drive_kind list \<Rightarrow> drive_kind list" where
  "set_identity_first n v [] = []"
| "set_identity_first n v (d # ds) =
     (if dk_name d = n then d\<lparr>dk_scsi_identity := v\<rparr> # ds else d # set_identity_first n v ds)"

definition set_identity_rows :: "string \<Rightarrow> string \<Rightarrow> drive_kind list \<Rightarrow> drive_kind list" where
  "set_identity_rows n v ds = map (\<lambda>d. if dk_name d = n then d\<lparr>dk_scsi_identity := v\<rparr> else d) ds"

text \<open>The catalog entry and every row of that type get the new identity.\<close>

definition apply_identity :: "string \<Rightarrow> string \<Rightarrow> wizard \<times> wizard_options \<Rightarrow> wizard \<times> wizard_options" where
  "apply_identity n v wo =
     ((fst wo)\<lparr>w_drives := map_option (set_identity_rows n v) (w_drives (fst wo))\<rparr>,
      (snd wo)\<lparr>drive_types := map_option (set_identity_first n v) (drive_types (snd wo))\<rparr>)"

definition scsiIdentityOptions :: "choice list" where
  "scsiIdentityOptions =
     [\<lparr>ch_value = [], ch_label = ''Default (GOTOCHNG)'', ch_disabled = False\<rparr>,
      \<lparr>ch_value = ''realistic'', ch_label = ''Realistic (LTO-8/LTO-9 only)'', ch_disabled = False\<rparr>]"

definition identity_field :: "drive_kind \<Rightarrow> dialog_field" where
  "identity_field d = \<lparr>df_name = ''scsi_identity'', df_label = ''SCSI Identity'', df_type = ''select'',
     df_options = scsiIdentityOptions, df_value = dk_scsi_identity d\<rparr>"

text \<open>When the type is no longer in the catalog, the request
  carries the identity alone and the assignment to the missing entry throws afterwards.\<close>

definition put_identity :: "string \<Rightarrow> json \<Rightarrow> ('s, bool) prog" where
  "put_identity n body =
     io_catch (io_seq (api (put_req (''/api/v1/drive-types/'' @ encodeURIComponent n) body)) (Return True))
       (\<lambda>e. io_seq (alert e) (Return False))"

definition editScsiIdentity :: "drive_kind \<Rightarrow> (wizard \<times> wizard_options, unit) prog" where
  "editScsiIdentity d =
     Dialog (''SCSI Identity for '' @ dk_name d) [identity_field d] (\<lambda>v.
       case v of
         None \<Rightarrow> Return ()
       | Some ans \<Rightarrow>
           (let ident = (case ans ''scsi_identity'' of Some (AStr s) \<Rightarrow> s | _ \<Rightarrow> [])
            in Get (\<lambda>wo.
              let dt = js_find (\<lambda>t. dk_name t = dk_name d) (or_nil (drive_types (snd wo)));
                  body = (case dt of None \<Rightarrow> JObj [(''scsi_identity'', JStr ident)]
                          | Some t \<Rightarrow> drive_kind_json (t\<lparr>dk_scsi_identity := ident\<rparr>))
              in io_bind (put_identity (dk_name d) body) (\<lambda>ok.
                   if \<not> ok then Return ()
                   else if dt = None then throw_error ''TypeError''
                   else update (apply_identity (dk_name d) ident)))))"

end
