(* ===== verification/Wizard_Server.thy ===== *)
theory Wizard_Server
  imports Wizard_Submit
begin

text \<open>
  The server's side of the wizard (internal/api/wizard.go \<open>UpdateWizardState\<close>, \<open>fillWizardStateFromTopology\<close>;
  the topology store, internal/store/topology.go; the validators of internal/config/config.go), and what
  the browser's Next and Previous do against it.

  \<open>wizard_store\<close> holds what the wizard's steps save. The tables' primary keys reject a duplicate name; other
  database failures are not modelled. \<open>wizard_env\<close> holds what the steps consult outside the store: the
  catalogs, the file system (creating a tape set's folder) and the running library (its slots, its I/O slots, and the
  addresses the cartridges in its drives were taken from). Errors are values of \<open>wizard_error\<close>; their texts are not
  modelled.
\<close>

section \<open>State\<close>

record wizard_store =
  sv_vtl_name :: string
  sv_operational_mode :: string
  sv_devices :: "string list"
  sv_selected :: string
  sv_magazines :: "bay list"
  sv_mailboxes :: "bay list"
  sv_offsite :: bool
  sv_tape_sets :: "tape_set_config list"
  sv_tape_counts :: "string \<rightharpoonup> int"
  sv_libraries :: "lib_row list"
  sv_latency :: bool
  sv_telemetry :: bool
  sv_current_step :: nat
  sv_completed :: bool

record wizard_env =
  env_drive_types :: "drive_kind list"
  env_tape_types :: "string list"
  env_folder_error :: "string \<Rightarrow> bool"
  env_slots :: "slot list"
  env_ioslots :: "ioslot list"
  env_slot_origins :: "int list"
  env_io_origins :: "int list"

datatype wizard_error = Invalid_Step | Name_Required | Invalid_Mode | Drive_Required | Magazine_Required
  | Invalid_Magazine string | Invalid_Mailbox string | Resubmission_Unsafe | Tape_Set_Required
  | Invalid_Tape_Set string | Folder_Error string | Tape_Count_Required string | Library_Required
  | Invalid_Library string | Duplicate_Key

section \<open>Validators\<close>

definition valid_magazine :: "bay \<Rightarrow> bool" where
  "valid_magazine m \<longleftrightarrow> \<not> (bay_slots m < 5 \<or> bay_slots m > 20) \<and> bay_slots m mod 5 = 0"

definition valid_mailbox :: "bay \<Rightarrow> bool" where
  "valid_mailbox m \<longleftrightarrow> \<not> (bay_slots m < 1 \<or> bay_slots m > 5)"

definition name_char :: "char \<Rightarrow> bool" where
  "name_char c \<longleftrightarrow> is_digit c \<or> (65 \<le> (of_char c :: nat) \<and> (of_char c :: nat) \<le> 90) \<or>
     (97 \<le> (of_char c :: nat) \<and> (of_char c :: nat) \<le> 122) \<or> c = CHR ''_'' \<or> c = CHR ''-''"

definition tapeSetNameRE :: "string \<Rightarrow> bool" where
  "tapeSetNameRE s \<longleftrightarrow> 1 \<le> length s \<and> length s \<le> 32 \<and> list_all name_char s"

definition ValidateTapeSet :: "string list \<Rightarrow> string \<Rightarrow> string \<Rightarrow> bool" where
  "ValidateTapeSet known name tape_type \<longleftrightarrow>
     tapeSetNameRE name \<and> tape_type \<noteq> [] \<and> tape_type \<in> set known"

definition ValidateLogicalLibrary :: "lib_row \<Rightarrow> bool" where
  "ValidateLogicalLibrary l \<longleftrightarrow> 1 \<le> length (or_nil (lr_drives l)) \<and> 1 \<le> length (or_nil (lr_magazines l))"

section \<open>One step\<close>

fun first_error :: "('a \<Rightarrow> wizard_error option) \<Rightarrow> 'a list \<Rightarrow> wizard_error option" where
  "first_error f [] = None"
| "first_error f (x # xs) = (case f x of Some e \<Rightarrow> Some e | None \<Rightarrow> first_error f xs)"

definition tape_set_error :: "wizard_env \<Rightarrow> tape_set_row \<Rightarrow> wizard_error option" where
  "tape_set_error env t =
     (if \<not> ValidateTapeSet (env_tape_types env) (ts_name t) (ts_tape_type t) then Some (Invalid_Tape_Set (ts_name t))
      else if ts_folder t = [] \<or> hd (ts_folder t) \<noteq> CHR ''/'' \<or> env_folder_error env (ts_folder t)
        then Some (Folder_Error (ts_folder t))
      else if ts_count t < 1 then Some (Tape_Count_Required (ts_name t))
      else None)"

definition no_duplicates :: "'a list \<Rightarrow> wizard_error option" where
  "no_duplicates xs = (if distinct xs then None else Some Duplicate_Key)"

definition or_err :: "wizard_error option \<Rightarrow> wizard_error option \<Rightarrow> wizard_error option" where
  "or_err a b = (case a of None \<Rightarrow> b | Some e \<Rightarrow> Some e)"

definition name_error :: "string \<Rightarrow> string \<Rightarrow> wizard_error option" where
  "name_error vtl mode =
     (if trim vtl = [] then Some Name_Required
      else if mode \<noteq> ''changer'' \<and> mode \<noteq> ''kernel'' then Some Invalid_Mode
      else None)"

text \<open>
  The resubmission checks: a magazine or mailbox of the store that the request leaves out loses all its slots in the
  running library, one the request makes smaller the slots behind the new count. None of these may hold a cartridge, nor
  be the place a drive's cartridge came from.
\<close>

definition new_slots :: "bay list \<Rightarrow> string \<rightharpoonup> int" where
  "new_slots ms = fold (\<lambda>m f. f(bay_id m \<mapsto> bay_slots m)) ms Map.empty"

definition removed_slots :: "(string \<rightharpoonup> int) \<Rightarrow> string \<Rightarrow> 'e list \<Rightarrow> 'e list" where
  "removed_slots new i current =
     (case new i of
        None \<Rightarrow> current
      | Some n \<Rightarrow> if n < int (length current) then drop (nat n) current else [])"

definition slotsInMagazine :: "slot list \<Rightarrow> string \<Rightarrow> slot list" where
  "slotsInMagazine ss i = filter (\<lambda>s. magazine_id s = i) ss"

definition ioslotsInMailbox :: "ioslot list \<Rightarrow> string \<Rightarrow> ioslot list" where
  "ioslotsInMailbox ss i = filter (\<lambda>s. mailbox_id s = i) ss"

definition checkMagazineResubmissionSafe :: "wizard_env \<Rightarrow> bay list \<Rightarrow> bay list \<Rightarrow> bool" where
  "checkMagazineResubmissionSafe env existing ms =
     list_all (\<lambda>old. list_all (\<lambda>s. slot_volume s = None \<and> slot_address s \<notin> set (env_slot_origins env))
        (removed_slots (new_slots ms) (bay_id old) (slotsInMagazine (env_slots env) (bay_id old)))) existing"

definition checkMailboxResubmissionSafe :: "wizard_env \<Rightarrow> bay list \<Rightarrow> bay list \<Rightarrow> bool" where
  "checkMailboxResubmissionSafe env existing ms =
     list_all (\<lambda>old. list_all (\<lambda>s. io_volume s = None \<and> io_address s \<notin> set (env_io_origins env))
        (removed_slots (new_slots ms) (bay_id old) (ioslotsInMailbox (env_ioslots env) (bay_id old)))) existing"

definition magazines_error :: "wizard_env \<Rightarrow> bay list \<Rightarrow> bay list \<Rightarrow> wizard_error option" where
  "magazines_error env existing ms =
     (if ms = [] then Some Magazine_Required
      else or_err (first_error (\<lambda>m. if valid_magazine m then None else Some (Invalid_Magazine (bay_id m))) ms)
        (if \<not> checkMagazineResubmissionSafe env existing ms then Some Resubmission_Unsafe else no_duplicates (map bay_id ms)))"

definition mailboxes_error :: "wizard_env \<Rightarrow> bay list \<Rightarrow> bay list \<Rightarrow> wizard_error option" where
  "mailboxes_error env existing ms =
     or_err (first_error (\<lambda>m. if valid_mailbox m then None else Some (Invalid_Mailbox (bay_id m))) ms)
       (if \<not> checkMailboxResubmissionSafe env existing ms then Some Resubmission_Unsafe else no_duplicates (map bay_id ms))"

definition tape_sets_request_error :: "wizard_env \<Rightarrow> tape_set_row list \<Rightarrow> wizard_error option" where
  "tape_sets_request_error env ts =
     (if ts = [] then Some Tape_Set_Required
      else or_err (first_error (tape_set_error env) ts) (no_duplicates (map ts_name ts)))"

definition library_keys_error :: "lib_row \<Rightarrow> wizard_error option" where
  "library_keys_error l =
     (if distinct (or_nil (lr_drives l)) \<and> distinct (or_nil (lr_magazines l)) \<and> distinct (or_nil (lr_mailboxes l))
      then None else Some Duplicate_Key)"

definition libraries_error :: "lib_row list \<Rightarrow> wizard_error option" where
  "libraries_error libs =
     (if libs = [] then Some Library_Required
      else or_err (first_error (\<lambda>l. if ValidateLogicalLibrary l then None else Some (Invalid_Library (lr_name l))) libs)
        (or_err (no_duplicates (map lr_name libs)) (first_error library_keys_error libs)))"

definition request_error :: "wizard_env \<Rightarrow> wizard_store \<Rightarrow> wizard_request \<Rightarrow> wizard_error option" where
  "request_error env st q =
     (let n = rq_step q
      in if n < 1 \<or> n > 9 then Some Invalid_Step
         else if n = 1 then name_error (rq_vtl_name q) (rq_operational_mode q)
         else if n = 2 then (if rq_drives q = [] then Some Drive_Required else None)
         else if n = 3 then magazines_error env (sv_magazines st) (rq_magazines q)
         else if n = 4 then mailboxes_error env (sv_mailboxes st) (rq_mailboxes q)
         else if n = 6 then tape_sets_request_error env (rq_tape_sets q)
         else if n = 7 then libraries_error (rq_logical_libraries q)
         else None)"

text \<open>A device path \<open>DataDir/drives/drive<i>\<close>, without the constant prefix.\<close>

definition save_request :: "wizard_request \<Rightarrow> wizard_store \<Rightarrow> wizard_store" where
  "save_request q st =
     (let n = rq_step q
      in if n = 1 then st\<lparr>sv_vtl_name := rq_vtl_name q, sv_operational_mode := rq_operational_mode q\<rparr>
         else if n = 2 then st\<lparr>sv_devices := map (\<lambda>i. ''drive'' @ show_nat i) [0..<length (rq_drives q)],
                               sv_selected := join '','' (map dk_name (rq_drives q))\<rparr>
         else if n = 3 then st\<lparr>sv_magazines := rq_magazines q\<rparr>
         else if n = 4 then st\<lparr>sv_mailboxes := rq_mailboxes q\<rparr>
         else if n = 5 then st\<lparr>sv_offsite := rq_offsite_location q\<rparr>
         else if n = 6 then
           st\<lparr>sv_tape_sets := map (\<lambda>t. \<lparr>tsc_name = ts_name t, tsc_tape_type = ts_tape_type t,
                                          tsc_storage_folder = ts_folder t\<rparr>) (rq_tape_sets q),
              sv_tape_counts := map_of (map (\<lambda>t. (ts_name t, ts_count t)) (rq_tape_sets q))\<rparr>
         else if n = 7 then st\<lparr>sv_libraries := rq_logical_libraries q\<rparr>
         else if n = 8 then st\<lparr>sv_latency := rq_latency_enabled q\<rparr>
         else st\<lparr>sv_telemetry := rq_telemetry_enabled q, sv_completed := True\<rparr>)"

definition UpdateWizardState :: "wizard_env \<Rightarrow> wizard_request \<Rightarrow> wizard_store \<Rightarrow> wizard_error + wizard_store" where
  "UpdateWizardState env q st =
     (case request_error env st q of
        Some e \<Rightarrow> Inl e
      | None \<Rightarrow>
          Inr ((save_request q st)\<lparr>sv_current_step :=
            (if sv_current_step st \<le> rq_step q \<and> rq_step q < 9 then rq_step q + 1 else rq_step q)\<rparr>))"

section \<open>What the server sends back\<close>

text \<open>Saved rows are read back in the order of their key; an empty column becomes a nil slice, in JSON null.\<close>

definition read_column :: "'a :: linorder list \<Rightarrow> 'a list option" where
  "read_column xs = (if xs = [] then None else Some (sort xs))"

definition read_library :: "lib_row \<Rightarrow> lib_row" where
  "read_library l = l\<lparr>lr_drives := read_column (or_nil (lr_drives l)),
     lr_magazines := read_column (or_nil (lr_magazines l)), lr_mailboxes := read_column (or_nil (lr_mailboxes l))\<rparr>"

definition ListLogicalLibraries :: "wizard_store \<Rightarrow> lib_row list" where
  "ListLogicalLibraries st = map read_library (sort_key lr_name (sv_libraries st))"

definition selectedDriveTypes :: "wizard_env \<Rightarrow> string \<Rightarrow> drive_kind list" where
  "selectedDriveTypes env raw =
     (if raw = [] then []
      else List.map_filter (\<lambda>n. js_find (\<lambda>d. dk_name d = n) (env_drive_types env)) (split_on (CHR '','') raw))"

definition wizardTapeSetsWithCounts :: "wizard_store \<Rightarrow> tape_set_row list" where
  "wizardTapeSetsWithCounts st =
     map (\<lambda>t. \<lparr>ts_name = tsc_name t, ts_tape_type = tsc_tape_type t, ts_folder = tsc_storage_folder t,
               ts_count = (case sv_tape_counts st (tsc_name t) of None \<Rightarrow> 0 | Some n \<Rightarrow> n)\<rparr>)
       (sort_key tsc_name (sv_tape_sets st))"

text \<open>\<open>omitempty\<close> drops an empty list from the JSON object.\<close>

definition omit_empty :: "'a list \<Rightarrow> 'a list option" where
  "omit_empty xs = (if xs = [] then None else Some xs)"

definition fillWizardState :: "wizard_env \<Rightarrow> wizard_store \<Rightarrow> wizard" where
  "fillWizardState env st =
     \<lparr>completed = sv_completed st, current_step = sv_current_step st, vtl_name = sv_vtl_name st,
      operational_mode = sv_operational_mode st, w_drives = omit_empty (selectedDriveTypes env (sv_selected st)),
      w_magazines = omit_empty (sv_magazines st), w_mailboxes = omit_empty (sv_mailboxes st),
      offsite_location = sv_offsite st, tape_sets = omit_empty (wizardTapeSetsWithCounts st),
      logical_libraries = omit_empty (ListLogicalLibraries st),
      latency_enabled = sv_latency st, telemetry_enabled = sv_telemetry st\<rparr>"

lemma or_nil_omit_empty [simp]: "or_nil (omit_empty xs) = xs"
  by (simp add: omit_empty_def)

lemma or_nil_read_column [simp]: "or_nil (read_column xs) = sort xs"
  by (simp add: read_column_def)

lemma sort_key_sorted: "sorted (map f xs) \<Longrightarrow> sort_key f xs = xs"
  by (induction xs) (simp_all add: insort_is_Cons)

lemma sort_key_idem [simp]: "sort_key f (sort_key f xs) = sort_key f xs"
  by (rule sort_key_sorted) simp

lemma insort_key_map_key: "(\<And>x. g (f x) = h x) \<Longrightarrow> insort_key g (f a) (map f xs) = map f (insort_key h a xs)"
  by (induction xs) auto

lemma sort_key_map_key: "(\<And>x. g (f x) = h x) \<Longrightarrow> sort_key g (map f xs) = map f (sort_key h xs)"
  by (induction xs) (simp_all add: insort_key_map_key)

lemma sort_Nil_iff: "sort_key f xs = [] \<longleftrightarrow> xs = []"
  by (metis length_0_conv length_sort)

lemma read_column_sort [simp]: "read_column (sort xs) = read_column xs"
  by (simp add: read_column_def sort_Nil_iff)

lemma read_library_idem [simp]: "read_library (read_library l) = read_library l"
  by (simp add: read_library_def)

lemma lr_name_read_library [simp]: "lr_name (read_library l) = lr_name l"
  by (simp add: read_library_def)

lemma first_error_None: "first_error f xs = None \<longleftrightarrow> (\<forall>x\<in>set xs. f x = None)"
  by (induction xs) (auto split: option.splits)

section \<open>Saving and reading back\<close>

text \<open>Each step's data as it comes back after it was saved.\<close>

definition drives_known :: "wizard_env \<Rightarrow> drive_kind list \<Rightarrow> bool" where
  "drives_known env ds \<longleftrightarrow>
     (\<forall>d\<in>set ds. dk_name d \<noteq> [] \<and> CHR '','' \<notin> set (dk_name d) \<and>
        js_find (\<lambda>t. dk_name t = dk_name d) (env_drive_types env) = Some d)"

lemma map_filter_names:
  "(\<forall>d\<in>set xs. f (g d) = Some d) \<Longrightarrow> List.map_filter f (map g xs) = xs"
  by (induction xs) (simp_all add: List.map_filter_simps)

lemma selectedDriveTypes_join:
  assumes "drives_known env ds" and "ds \<noteq> []"
  shows "selectedDriveTypes env (join '','' (map dk_name ds)) = ds"
proof -
  have "join '','' (map dk_name ds) \<noteq> []"
  proof (cases ds)
    case (Cons d ds')
    with assms show ?thesis by (cases ds') (auto simp: drives_known_def)
  qed (use assms in simp)
  moreover have "split_on (CHR '','') (join '','' (map dk_name ds)) = map dk_name ds"
    using assms by (intro split_on_join) (auto simp: drives_known_def)
  moreover have "List.map_filter (\<lambda>n. js_find (\<lambda>t. dk_name t = n) (env_drive_types env)) (map dk_name ds) = ds"
    using assms by (intro map_filter_names) (simp add: drives_known_def)
  ultimately show ?thesis
    using assms by (simp add: selectedDriveTypes_def drives_known_def)
qed

lemma wizardTapeSets_saved:
  assumes "distinct (map ts_name ts)"
    and "sv_tape_sets st = map (\<lambda>t. \<lparr>tsc_name = ts_name t, tsc_tape_type = ts_tape_type t, tsc_storage_folder = ts_folder t\<rparr>) ts"
    and "sv_tape_counts st = map_of (map (\<lambda>t. (ts_name t, ts_count t)) ts)"
  shows "wizardTapeSetsWithCounts st = sort_key ts_name ts"
proof -
  have count: "map_of (map (\<lambda>t. (ts_name t, ts_count t)) ts) (ts_name t) = Some (ts_count t)" if "t \<in> set ts" for t
    using that assms(1) by (auto intro!: map_of_is_SomeI simp: comp_def)
  have "sort_key tsc_name (map (\<lambda>t. \<lparr>tsc_name = ts_name t, tsc_tape_type = ts_tape_type t, tsc_storage_folder = ts_folder t\<rparr>) ts)
      = map (\<lambda>t. \<lparr>tsc_name = ts_name t, tsc_tape_type = ts_tape_type t, tsc_storage_folder = ts_folder t\<rparr>) (sort_key ts_name ts)"
    by (rule sort_key_map_key) simp
  then show ?thesis
    using count by (simp add: wizardTapeSetsWithCounts_def assms(2,3) comp_def) (rule map_idI; simp)
qed

lemma read_libraries_twice:
  "map read_library (sort_key lr_name (map read_library (sort_key lr_name libs))) =
     map read_library (sort_key lr_name libs)"
proof -
  have "sort_key lr_name (map read_library (sort_key lr_name libs)) = map read_library (sort_key lr_name (sort_key lr_name libs))"
    by (rule sort_key_map_key) simp
  then show ?thesis by simp
qed

lemma read_step_irrelevant [simp]:
  "wizardTapeSetsWithCounts (st\<lparr>sv_current_step := n\<rparr>) = wizardTapeSetsWithCounts st"
  "ListLogicalLibraries (st\<lparr>sv_current_step := n\<rparr>) = ListLogicalLibraries st"
  by (simp_all add: wizardTapeSetsWithCounts_def ListLogicalLibraries_def)

section \<open>Properties\<close>

text \<open>What the server knows of a step it just saved: going back to it from the next one changes nothing.\<close>

definition previous_from :: "wizard_env \<Rightarrow> wizard_store \<Rightarrow> wizard_request" where
  "previous_from env st = previous_request (sv_current_step st) (fillWizardState env st)"

lemma UpdateWizardState_Inr:
  "UpdateWizardState env q st = Inr st' \<longleftrightarrow> request_error env st q = None \<and>
     st' = (save_request q st)\<lparr>sv_current_step :=
       (if sv_current_step st \<le> rq_step q \<and> rq_step q < 9 then rq_step q + 1 else rq_step q)\<rparr>"
  by (auto simp: UpdateWizardState_def split: option.splits)

lemma or_err_None: "or_err a b = None \<longleftrightarrow> a = None \<and> b = None"
  by (cases a) (simp_all add: or_err_def)

lemma tape_sets_request_error_None:
  "tape_sets_request_error env ts = None \<longleftrightarrow>
     ts \<noteq> [] \<and> (\<forall>t\<in>set ts. tape_set_error env t = None) \<and> distinct (map ts_name ts)"
  by (auto simp: tape_sets_request_error_def or_err_None first_error_None no_duplicates_def)

lemma libraries_error_None:
  "libraries_error libs = None \<longleftrightarrow>
     libs \<noteq> [] \<and> (\<forall>l\<in>set libs. ValidateLogicalLibrary l) \<and> distinct (map lr_name libs) \<and>
     (\<forall>l\<in>set libs. library_keys_error l = None)"
  by (auto simp: libraries_error_def or_err_None first_error_None no_duplicates_def)

lemma distinct_map_sort_key: "distinct (map g (sort_key f xs)) \<longleftrightarrow> distinct (map g xs)"
  by (metis mset_map mset_sort mset_eq_imp_distinct_iff)

lemma resubmit_tape_sets:
  "tape_sets_request_error env ts = None \<Longrightarrow> tape_sets_request_error env (sort_key ts_name ts) = None"
  by (simp add: tape_sets_request_error_None sort_Nil_iff distinct_map_sort_key)

lemma resubmit_libraries:
  "libraries_error libs = None \<Longrightarrow> libraries_error (map read_library (sort_key lr_name libs)) = None"
  by (auto simp: libraries_error_None sort_Nil_iff distinct_map_sort_key comp_def ValidateLogicalLibrary_def
      library_keys_error_def read_library_def split: if_splits)

lemma fill_saved:
  assumes "request_error env st0 q = None" and "rq_step q = k" and "k = 2 \<Longrightarrow> drives_known env (rq_drives q)"
  shows "selectedDriveTypes env (sv_selected (save_request q st)) =
      (if k = 2 then rq_drives q else selectedDriveTypes env (sv_selected st))"
    and "wizardTapeSetsWithCounts (save_request q st) =
      (if k = 6 then sort_key ts_name (rq_tape_sets q) else wizardTapeSetsWithCounts st)"
    and "ListLogicalLibraries (save_request q st) =
      (if k = 7 then map read_library (sort_key lr_name (rq_logical_libraries q)) else ListLogicalLibraries st)"
proof -
  have "k = 2 \<Longrightarrow> rq_drives q \<noteq> []" "k = 6 \<Longrightarrow> distinct (map ts_name (rq_tape_sets q))"
    using assms(1,2) by (auto simp: request_error_def Let_def tape_sets_request_error_None split: if_splits)
  then show "selectedDriveTypes env (sv_selected (save_request q st)) =
      (if k = 2 then rq_drives q else selectedDriveTypes env (sv_selected st))"
    and "wizardTapeSetsWithCounts (save_request q st) =
      (if k = 6 then sort_key ts_name (rq_tape_sets q) else wizardTapeSetsWithCounts st)"
    using assms(2,3)
    by (auto simp: save_request_def Let_def selectedDriveTypes_join wizardTapeSets_saved)
       (simp_all add: wizardTapeSetsWithCounts_def)
  show "ListLogicalLibraries (save_request q st) =
      (if k = 7 then map read_library (sort_key lr_name (rq_logical_libraries q)) else ListLogicalLibraries st)"
    using assms(2) by (auto simp: save_request_def Let_def ListLogicalLibraries_def)
qed

text \<open>The state after a save, field by field: only the fields of that step change.\<close>

lemma save_other:
  "rq_step q = k \<Longrightarrow> k \<le> 8 \<Longrightarrow> 1 \<le> k \<Longrightarrow>
     sv_vtl_name (save_request q st) = (if k = 1 then rq_vtl_name q else sv_vtl_name st) \<and>
     sv_operational_mode (save_request q st) = (if k = 1 then rq_operational_mode q else sv_operational_mode st) \<and>
     sv_magazines (save_request q st) = (if k = 3 then rq_magazines q else sv_magazines st) \<and>
     sv_mailboxes (save_request q st) = (if k = 4 then rq_mailboxes q else sv_mailboxes st) \<and>
     sv_offsite (save_request q st) = (if k = 5 then rq_offsite_location q else sv_offsite st) \<and>
     sv_latency (save_request q st) = (if k = 8 then rq_latency_enabled q else sv_latency st) \<and>
     sv_telemetry (save_request q st) = sv_telemetry st \<and> sv_completed (save_request q st) = sv_completed st"
  by (auto simp: save_request_def Let_def)

lemma request_error_cong:
  assumes "rq_step q' = rq_step q"
    and "rq_step q = 1 \<Longrightarrow> rq_vtl_name q' = rq_vtl_name q \<and> rq_operational_mode q' = rq_operational_mode q"
    and "rq_step q = 2 \<Longrightarrow> rq_drives q' = rq_drives q"
    and "rq_step q = 3 \<Longrightarrow> rq_magazines q' = rq_magazines q"
    and "rq_step q = 4 \<Longrightarrow> rq_mailboxes q' = rq_mailboxes q"
    and "rq_step q = 6 \<Longrightarrow> rq_tape_sets q' = rq_tape_sets q"
    and "rq_step q = 7 \<Longrightarrow> rq_logical_libraries q' = rq_logical_libraries q"
  shows "request_error env st q' = request_error env st q"
  using assms by (simp add: request_error_def Let_def)

lemma save_request_cong:
  assumes "rq_step q' = rq_step q"
    and "rq_step q = 1 \<Longrightarrow> rq_vtl_name q' = rq_vtl_name q \<and> rq_operational_mode q' = rq_operational_mode q"
    and "rq_step q = 2 \<Longrightarrow> rq_drives q' = rq_drives q"
    and "rq_step q = 3 \<Longrightarrow> rq_magazines q' = rq_magazines q"
    and "rq_step q = 4 \<Longrightarrow> rq_mailboxes q' = rq_mailboxes q"
    and "rq_step q = 5 \<Longrightarrow> rq_offsite_location q' = rq_offsite_location q"
    and "rq_step q = 6 \<Longrightarrow> rq_tape_sets q' = rq_tape_sets q"
    and "rq_step q = 7 \<Longrightarrow> rq_logical_libraries q' = rq_logical_libraries q"
    and "rq_step q \<notin> {1, 2, 3, 4, 5, 6, 7} \<Longrightarrow>
      rq_latency_enabled q' = rq_latency_enabled q \<and> rq_telemetry_enabled q' = rq_telemetry_enabled q"
  shows "save_request q' st = save_request q st"
  using assms by (simp add: save_request_def Let_def)

text \<open>As long as no cartridge is in the slots or was taken from one, the running library never refuses a list.\<close>

definition nothing_live :: "wizard_env \<Rightarrow> bool" where
  "nothing_live env \<longleftrightarrow> (\<forall>s\<in>set (env_slots env). slot_volume s = None) \<and> (\<forall>s\<in>set (env_ioslots env). io_volume s = None) \<and>
     env_slot_origins env = [] \<and> env_io_origins env = []"

lemma set_removed_slots: "set (removed_slots new i current) \<subseteq> set current"
  by (auto simp: removed_slots_def dest: in_set_dropD split: option.splits)

lemma nothing_live_safe:
  assumes "nothing_live env"
  shows "checkMagazineResubmissionSafe env existing ms" "checkMailboxResubmissionSafe env existing ms"
  using assms set_removed_slots
  by (fastforce simp: nothing_live_def checkMagazineResubmissionSafe_def checkMailboxResubmissionSafe_def list_all_iff
      slotsInMagazine_def ioslotsInMailbox_def)+

lemma request_error_store:
  "rq_step q \<in> {3, 4} \<longrightarrow> nothing_live env \<Longrightarrow> request_error env st q = request_error env st' q"
  by (simp add: request_error_def Let_def magazines_error_def mailboxes_error_def nothing_live_safe)

text \<open>The data of one step in two wizard states.\<close>

definition same_step :: "nat \<Rightarrow> wizard \<Rightarrow> wizard \<Rightarrow> bool" where
  "same_step k v w \<longleftrightarrow>
     (if k = 1 then vtl_name v = vtl_name w \<and> operational_mode v = operational_mode w
      else if k = 2 then w_drives v = w_drives w else if k = 3 then w_magazines v = w_magazines w
      else if k = 4 then w_mailboxes v = w_mailboxes w else if k = 5 then offsite_location v = offsite_location w
      else if k = 6 then tape_sets v = tape_sets w else if k = 7 then logical_libraries v = logical_libraries w
      else latency_enabled v = latency_enabled w \<and> telemetry_enabled v = telemetry_enabled w)"

lemma previous_same_step:
  assumes "same_step (k - 1) v w"
  shows "UpdateWizardState env (previous_request k v) st = UpdateWizardState env (previous_request k w) st"
proof -
  have "request_error env st (previous_request k v) = request_error env st (previous_request k w)"
    using assms(1) by (intro request_error_cong) (simp_all add: previous_request_def same_step_def)
  moreover have "save_request (previous_request k v) st = save_request (previous_request k w) st"
    using assms(1) by (intro save_request_cong) (simp_all add: previous_request_def same_step_def)
  moreover have "rq_step (previous_request k v) = rq_step (previous_request k w)" by (simp add: previous_request_def)
  ultimately show ?thesis unfolding UpdateWizardState_def by (simp only:)
qed

text \<open>What Previous sends is what the server sent.\<close>

lemma previous_from_fields:
  "rq_step (previous_from env st) = sv_current_step st - 1"
  "rq_vtl_name (previous_from env st) = sv_vtl_name st" "rq_operational_mode (previous_from env st) = sv_operational_mode st"
  "rq_drives (previous_from env st) = selectedDriveTypes env (sv_selected st)" "rq_magazines (previous_from env st) = sv_magazines st"
  "rq_mailboxes (previous_from env st) = sv_mailboxes st" "rq_offsite_location (previous_from env st) = sv_offsite st"
  "rq_tape_sets (previous_from env st) = wizardTapeSetsWithCounts st"
  "rq_logical_libraries (previous_from env st) = ListLogicalLibraries st"
  "rq_latency_enabled (previous_from env st) = sv_latency st"
  by (simp_all add: previous_from_def previous_request_def fillWizardState_def)

lemma read_step_other:
  "selectedDriveTypes env (sv_selected (st\<lparr>sv_current_step := n\<rparr>)) = selectedDriveTypes env (sv_selected st)"
  "wizardTapeSetsWithCounts (st\<lparr>sv_current_step := n\<rparr>) = wizardTapeSetsWithCounts st"
  "ListLogicalLibraries (st\<lparr>sv_current_step := n\<rparr>) = ListLogicalLibraries st"
  by simp_all

lemma previous_accepted:
  assumes err: "request_error env st q = None" and live: "k \<in> {3, 4} \<longrightarrow> nothing_live env" and q: "rq_step q = k" and k: "1 \<le> k" "k \<le> 8"
    and kd: "k = 2 \<Longrightarrow> drives_known env (rq_drives q)" and st1: "st1 = (save_request q st)\<lparr>sv_current_step := k + 1\<rparr>"
  shows "request_error env st1 (previous_from env st1) = None"
proof -
  note saved = fill_saved [OF err q kd, of st] save_other [OF q k(2,1), of st]
  note fields = previous_from_fields [of env st1]
  have read: "selectedDriveTypes env (sv_selected st1) = selectedDriveTypes env (sv_selected (save_request q st))"
    "wizardTapeSetsWithCounts st1 = wizardTapeSetsWithCounts (save_request q st)"
    "ListLogicalLibraries st1 = ListLogicalLibraries (save_request q st)"
    by (simp_all add: st1)
  have q': "rq_step (previous_from env st1) = k" using fields(1) by (simp add: st1)
  consider "k = 6" | "k = 7" | "k \<in> {1, 2, 3, 4, 5, 8}" using k by force
  then show ?thesis
  proof cases
    case 1
    with err q q' saved read fields resubmit_tape_sets show ?thesis by (simp add: request_error_def)
  next
    case 2
    with err q q' saved read fields resubmit_libraries show ?thesis by (simp add: request_error_def)
  next
    case 3
    then have "request_error env st (previous_from env st1) = request_error env st q"
      by (intro request_error_cong) (simp_all only: q q' fields read saved, simp_all add: st1 saved)
    with err live q' show ?thesis using request_error_store [of "previous_from env st1" env st1 st] by simp
  qed
qed

text \<open>
  C9: Going back keeps everything the server has saved: when the server has accepted a step of the wizard and the user
  then clicks Previous, whatever was edited meanwhile in the following step, the request the browser builds passes the
  server's checks again, and the state it gets back is the saved one, but for the step shown; the edits of the following
  step, which were never submitted, are gone. For step 2 this needs drive type names without a comma, since the server
  keeps them as one comma-separated text; for steps 3 and 4 that the running library has no cartridge in its slots or
  taken from them, as on a first setup, since otherwise the server may refuse.
\<close>

theorem wizard_previous_lossless:
  assumes ok: "UpdateWizardState env q st = Inr st1" and at: "rq_step q = sv_current_step st"
    and last: "sv_current_step st < 9" and known: "sv_current_step st = 2 \<Longrightarrow> drives_known env (rq_drives q)"
    and live: "sv_current_step st \<in> {3, 4} \<longrightarrow> nothing_live env"
    and edited: "same_step (sv_current_step st) w (fillWizardState env st1)"
  shows "\<exists>st2. UpdateWizardState env (previous_request (sv_current_step st1) w) st1 = Inr st2 \<and>
     fillWizardState env st2 = (fillWizardState env st1)\<lparr>current_step := sv_current_step st\<rparr>"
proof -
  define k where "k = sv_current_step st"
  let ?q = "previous_from env st1"
  have err: "request_error env st q = None" and st1: "st1 = (save_request q st)\<lparr>sv_current_step := k + 1\<rparr>"
    using ok at last by (auto simp: UpdateWizardState_Inr k_def)
  have q: "rq_step q = k" and k: "1 \<le> k" "k \<le> 8"
    using err at last by (auto simp: k_def request_error_def Let_def split: if_splits)
  have kd: "k = 2 \<Longrightarrow> drives_known env (rq_drives q)" using known by (simp add: k_def)
  note saved = fill_saved [OF err q kd, of st] save_other [OF q k(2,1), of st]
  note fields = previous_from_fields [of env st1]
  note read = read_step_other [where st = "save_request q st" and n = "k + 1", folded st1]
  have q': "rq_step ?q = k" using fields(1) by (simp add: st1)
  have err': "request_error env st1 ?q = None"
    using live by (intro previous_accepted [OF err _ q k kd st1]) (simp_all add: k_def)
  have kd': "k = 2 \<Longrightarrow> drives_known env (rq_drives ?q)" using kd saved(1) fields read by simp
  note saved' = fill_saved [OF err' q' kd', of st1] save_other [OF q' k(2,1), of st1]
  define st2 where "st2 = (save_request ?q st1)\<lparr>sv_current_step := k\<rparr>"
  have "UpdateWizardState env ?q st1 = Inr st2"
    using err' q' k by (simp add: UpdateWizardState_Inr st2_def st1)
  moreover have "fillWizardState env st2 = (fillWizardState env st1)\<lparr>current_step := k\<rparr>"
  proof -
    have same: "selectedDriveTypes env (sv_selected st2) = selectedDriveTypes env (sv_selected st1)"
      "wizardTapeSetsWithCounts st2 = wizardTapeSetsWithCounts st1" "ListLogicalLibraries st2 = ListLogicalLibraries st1"
      using saved(1-3) saved'(1-3) read fields
      by (simp_all add: st2_def read_libraries_twice split: if_splits)
    then show ?thesis using saved saved' fields by (simp add: fillWizardState_def) (simp add: st2_def)
  qed
  moreover have "UpdateWizardState env (previous_request (sv_current_step st1) w) st1 = UpdateWizardState env ?q st1"
    unfolding previous_from_def using edited by (intro previous_same_step) (simp_all add: st1 k_def)
  ultimately show ?thesis by (auto simp: k_def)
qed

definition sample_env :: wizard_env where
  "sample_env = \<lparr>env_drive_types = [sample_kind ''LTO-8'', sample_kind ''LTO-9''], env_tape_types = [''LTO-8''],
     env_folder_error = (\<lambda>f. False), env_slots = [], env_ioslots = [], env_slot_origins = [], env_io_origins = []\<rparr>"

definition fresh_store :: wizard_store where
  "fresh_store = \<lparr>sv_vtl_name = ''VTL0'', sv_operational_mode = ''changer'', sv_devices = [], sv_selected = [],
     sv_magazines = [], sv_mailboxes = [], sv_offsite = False, sv_tape_sets = [], sv_tape_counts = Map.empty,
     sv_libraries = [], sv_latency = False, sv_telemetry = False, sv_current_step = 3, sv_completed = False\<rparr>"

definition sample_request :: wizard_request where
  "sample_request = (empty_request 3)\<lparr>rq_magazines := [\<lparr>bay_id = ''Magazine1'', bay_slots = 10\<rparr>]\<rparr>"

definition sample_saved :: wizard_store where
  "sample_saved = fresh_store\<lparr>sv_magazines := [\<lparr>bay_id = ''Magazine1'', bay_slots = 10\<rparr>], sv_current_step := 4\<rparr>"

lemma sample_accepted: "UpdateWizardState sample_env sample_request fresh_store = Inr sample_saved"
  by (simp add: UpdateWizardState_Inr request_error_def magazines_error_def or_err_def no_duplicates_def
      checkMagazineResubmissionSafe_def valid_magazine_def save_request_def sample_request_def empty_request_def fresh_store_def sample_saved_def
      sample_env_def)

theorem wizard_previous_lossless_witness:
  "\<exists>st2. UpdateWizardState sample_env (previous_request 4
       ((fillWizardState sample_env sample_saved)\<lparr>w_mailboxes := Some [\<lparr>bay_id = ''Mailbox1'', bay_slots = 2\<rparr>]\<rparr>)) sample_saved = Inr st2 \<and>
     fillWizardState sample_env st2 = (fillWizardState sample_env sample_saved)\<lparr>current_step := 3\<rparr>"
proof -
  have "sv_current_step fresh_store = 3" "sv_current_step sample_saved = 4" "nothing_live sample_env"
    by (simp_all add: fresh_store_def sample_saved_def sample_env_def nothing_live_def)
  then show ?thesis
    using wizard_previous_lossless [OF sample_accepted]
    by (simp add: sample_request_def empty_request_def same_step_def)
qed

text \<open>
  C40: How the browser's tape-set check relates to the server's (its comment says it mirrors it). It never
  refuses a row the server would accept; a row it lets through is accepted exactly when moreover the name
  is 1 to 32 characters of [A-Za-z0-9_-], the tape type is in the catalog and the folder can be created.
  A name with a space, say, passes the browser's check and is refused by the server.
\<close>

theorem tape_set_check_gap:
  "(tape_set_error env t = None \<longrightarrow>
      validateTapeSetInput (ts_name t) (ts_tape_type t) (ts_folder t) (Some (ts_count t)) = None) \<and>
   (validateTapeSetInput (ts_name t) (ts_tape_type t) (ts_folder t) (Some (ts_count t)) = None \<longrightarrow>
      (tape_set_error env t = None \<longleftrightarrow>
         tapeSetNameRE (ts_name t) \<and> ts_tape_type t \<in> set (env_tape_types env) \<and> \<not> env_folder_error env (ts_folder t)))"
  by (auto simp: tape_set_error_def validateTapeSetInput_def ValidateTapeSet_def tapeSetNameRE_def)

definition spaced_row :: tape_set_row where
  "spaced_row = \<lparr>ts_name = ''My tapes'', ts_tape_type = ''LTO-8'', ts_folder = ''/srv/tapes'', ts_count = 3\<rparr>"

theorem tape_set_check_gap_witness:
  "validateTapeSetInput (ts_name spaced_row) (ts_tape_type spaced_row) (ts_folder spaced_row) (Some (ts_count spaced_row)) = None \<and>
   tape_set_error sample_env spaced_row \<noteq> None"
proof -
  have v: "validateTapeSetInput (ts_name spaced_row) (ts_tape_type spaced_row) (ts_folder spaced_row) (Some (ts_count spaced_row)) = None"
    by (simp add: validateTapeSetInput_def spaced_row_def)
  have "\<not> name_char CHR '' ''" by (simp add: name_char_def is_digit_def)
  then have "\<not> tapeSetNameRE (ts_name spaced_row)" by (simp add: tapeSetNameRE_def spaced_row_def)
  with v tape_set_check_gap [of sample_env spaced_row] show ?thesis by simp
qed

text \<open>
  Once a logical library was saved without mailboxes, the wizard cannot give it one: the server reads
  its empty list back as null, and every drop of a mailbox on its card throws.
\<close>

theorem saved_library_takes_no_mailbox:
  assumes "w = fillWizardState env st1" and "i < length (lib_rows w)"
    and "or_nil (lr_mailboxes (lib_rows w ! i)) = []"
  shows "board_drop (LibZone KMailbox i) \<lparr>chip_item = MailboxItem m, currentLibrary = None\<rparr> w = None"
proof -
  have "lib_rows w = ListLogicalLibraries st1" using assms(1) by (simp add: lib_rows_def fillWizardState_def)
  moreover have "lr_mailboxes (ListLogicalLibraries st1 ! i) = None"
    if "i < length (ListLogicalLibraries st1)" "or_nil (lr_mailboxes (ListLogicalLibraries st1 ! i)) = []"
    using that by (auto simp: ListLogicalLibraries_def read_library_def read_column_def sort_Nil_iff split: if_splits)
  ultimately show ?thesis using assms(2,3) by (simp add: board_drop_def update_row_def)
qed

definition library_request :: wizard_request where
  "library_request = (empty_request 7)\<lparr>rq_logical_libraries :=
     [(sample_lib ''Library1'')\<lparr>lr_drives := Some [0], lr_magazines := Some [''Magazine1'']\<rparr>]\<rparr>"

definition library_store :: wizard_store where
  "library_store = (save_request library_request fresh_store)\<lparr>sv_current_step := 8\<rparr>"

theorem saved_library_takes_no_mailbox_witness:
  "board_drop (LibZone KMailbox 0) \<lparr>chip_item = MailboxItem ''Mailbox1'', currentLibrary = None\<rparr>
     (fillWizardState sample_env library_store) = None"
proof -
  have rows: "lib_rows (fillWizardState sample_env library_store) =
      [(sample_lib ''Library1'')\<lparr>lr_drives := Some [0], lr_magazines := Some [''Magazine1''], lr_mailboxes := None\<rparr>]"
    by (simp add: lib_rows_def fillWizardState_def ListLogicalLibraries_def library_store_def save_request_def
        library_request_def empty_request_def read_library_def read_column_def sample_lib_def)
  show ?thesis
    by (rule saved_library_takes_no_mailbox [OF refl]) (simp_all add: rows)
qed

end
