(* ===== verification/Wizard_View.thy ===== *)
theory Wizard_View
  imports Wizard_Submit
begin

text \<open>
  The HTML of the setup wizard (app.js \<open>renderWizardStepUI\<close> and \<open>renderWizardStepContent\<close>): one
  definition per step, the board of step 7 in terms of \<open>zone_chips\<close>. The layout white space the template
  literals hold between tags is left out; everything else is the text the code builds. As in the code,
  names are put into the HTML as they are, without escaping.
\<close>

section \<open>Helpers\<close>

definition map_join :: "('a \<Rightarrow> string) \<Rightarrow> 'a list \<Rightarrow> string" where
  "map_join f xs = concat (map f xs)"

definition show_if :: "bool \<Rightarrow> string \<Rightarrow> string" where
  "show_if b s = (if b then s else [])"

text \<open>\<open>JSON.stringify\<close> of a text: the short escapes, and the hexadecimal form of the other control characters.\<close>

definition hex_digit :: "nat \<Rightarrow> char" where
  "hex_digit n = (if n < 10 then char_of (48 + n) else char_of (87 + n))"

definition json_char :: "char \<Rightarrow> string" where
  "json_char c =
     (if c = CHR 0x22 then [CHR 0x5C, CHR 0x22] else if c = CHR 0x5C then [CHR 0x5C, CHR 0x5C]
      else if c = CHR 0x08 then [CHR 0x5C, CHR ''b''] else if c = CHR 0x0C then [CHR 0x5C, CHR ''f'']
      else if c = CHR 0x0A then [CHR 0x5C, CHR ''n''] else if c = CHR 0x0D then [CHR 0x5C, CHR ''r'']
      else if c = CHR 0x09 then [CHR 0x5C, CHR ''t'']
      else if (of_char c :: nat) < 32
        then [CHR 0x5C, CHR ''u'', CHR ''0'', CHR ''0'', hex_digit (of_char c div 16), hex_digit (of_char c mod 16)]
      else [c])"

definition json_string :: "string \<Rightarrow> string" where
  "json_string s = CHR 0x22 # map_join json_char s @ [CHR 0x22]"

definition json_break :: "nat \<Rightarrow> string" where
  "json_break n = CHR 0x0A # replicate (2 * n) (CHR '' '')"

text \<open>\<open>JSON.stringify(v, null, 2)\<close> at nesting depth \<open>n\<close>.\<close>

fun json_text :: "nat \<Rightarrow> json \<Rightarrow> string" where
  "json_text n JNull = ''null''"
| "json_text n (JBool b) = (if b then ''true'' else ''false'')"
| "json_text n (JNum i) = show_int i"
| "json_text n (JDec m k) = decimal_text m k"
| "json_text n (JStr s) = json_string s"
| "json_text n (JArr xs) =
     (if xs = [] then ''[]''
      else ''['' @ join '','' (map (\<lambda>x. json_break (n + 1) @ json_text (n + 1) x) xs) @ json_break n @ '']'')"
| "json_text n (JObj kvs) =
     (if kvs = [] then ''{}''
      else ''{'' @ join '','' (map (\<lambda>(k, v). json_break (n + 1) @ json_string k @ '': '' @ json_text (n + 1) v) kvs) @
           json_break n @ ''}'')"

section \<open>Steps 1 to 6\<close>

definition wizard_step_1 :: "wizard_options \<Rightarrow> wizard \<Rightarrow> string" where
  "wizard_step_1 options w =
     ''<h2>Operational Mode</h2><p>Name this virtual tape library and choose its operational mode.</p><div class=\"form-group\"><label>VTL Name:</label><input type=\"text\" name=\"vtlName\" value=\"'' @ vtl_name w @ ''\" placeholder=\"VTL0\" required></div>'' @
     ''<div class=\"form-group\"><label><input type=\"radio\" name=\"operationalMode\" value=\"changer\" '' @ show_if (operational_mode w = ''changer'' \<or> operational_mode w = []) ''checked'' @ '' required>Changer Command Script</label></div>'' @
     ''<div class=\"form-group\"><label><input type=\"radio\" name=\"operationalMode\" value=\"kernel\" '' @ show_if (operational_mode w = ''kernel'') ''checked'' @ '' '' @ show_if (\<not> kernelModeAvailable options) ''disabled'' @ ''>Kernel SCSI devices via TCMU/LIO</label>'' @
     show_if (\<not> kernelModeAvailable options) (''<p class=\"hint\">'' @ kernelModeHint options @ ''</p>'') @
     show_if (kernelModeShowRefresh options)
       ''<button type=\"button\" id=\"wizardKernelModeRefresh\" class=\"btn\">Refresh</button>'' @
     ''</div><h3>Restore from an existing backup</h3><p>Already have a backup of a previously configured virtual tape library? Restore it instead of configuring one from scratch. This replaces the entire database and restarts the service.</p><div class=\"form-group\"><input type=\"file\" id=\"wizardRestoreFile\" accept=\".db\"><button type=\"button\" id=\"wizardRestoreBtn\" class=\"btn\">Restore backup</button></div><p class=\"auth-error\" id=\"wizardRestoreError\"></p><p class=\"hint\" id=\"wizardRestoreStatus\"></p>''"

text \<open>One row of step 2; \<open>options.drive_types.map\<close> throws (None) when the catalog is null.\<close>

definition drive_row_html :: "drive_kind list \<Rightarrow> nat \<Rightarrow> drive_kind \<Rightarrow> string" where
  "drive_row_html dts i d =
     ''<div class=\"form-group wizard-row\" data-index=\"'' @ show_nat i @ ''\"><label>Drive '' @ show_nat (i + 1) @ '' Type:</label><select name=\"driveType\" data-index=\"'' @ show_nat i @ ''\">'' @
     map_join (\<lambda>dt. ''<option value=\"'' @ dk_name dt @ ''\" '' @ show_if (dk_name dt = dk_name d) ''selected'' @ ''>'' @ dk_name dt @ '' ('' @ dk_description dt @ '')</option>'') dts @
     ''</select><span class=\"hint\">SCSI Identity: '' @ (if dk_scsi_identity d = ''realistic'' then ''Realistic'' else ''Default'') @ ''</span><button type=\"button\" class=\"btn\" data-edit-drive-type=\"'' @ show_nat i @ ''\">SCSI Identity'' @ ellipsis @ ''</button><button type=\"button\" class=\"btn\" data-remove-drive=\"'' @ show_nat i @ ''\">Remove</button></div>''"

definition wizard_step_2 :: "wizard_options \<Rightarrow> wizard \<Rightarrow> string option" where
  "wizard_step_2 options w =
     (case (or_nil (w_drives w), drive_types options) of
        (_ # _, None) \<Rightarrow> None
      | (ds, dts) \<Rightarrow> Some
          (''<h2>Drives</h2><p>Configure the drives for the virtual tape library.</p><div id=\"driveTypes\">'' @
           map_join (\<lambda>(i, d). drive_row_html (or_nil dts) i d) (enumerate 0 ds) @
           ''</div><button type=\"button\" id=\"addDrive\" class=\"btn\">Add Drive</button>''))"

definition slots_option_html :: "int \<Rightarrow> int \<Rightarrow> string" where
  "slots_option_html current n =
     ''<option value=\"'' @ show_int n @ ''\" '' @ show_if (current = n) ''selected'' @ ''>'' @ show_int n @ ''</option>''"

definition wizard_step_3 :: "wizard \<Rightarrow> string" where
  "wizard_step_3 w =
     ''<h2>Magazines</h2><p>Configure the magazines for the virtual tape library.</p><div id=\"magazines\">'' @
     map_join (\<lambda>mag.
       ''<div class=\"form-group wizard-row\"><label>'' @ bay_id mag @ '' Slots:</label><select name=\"magazineSlots\" data-id=\"'' @ bay_id mag @ ''\">'' @
       map_join (slots_option_html (bay_slots mag)) [5, 10, 15, 20] @
       ''</select><button type=\"button\" class=\"btn\" data-remove-magazine=\"'' @ bay_id mag @ ''\">Remove</button></div>'')
       (or_nil (w_magazines w)) @
     ''</div><button type=\"button\" id=\"addMagazine\" class=\"btn\">Add Magazine</button>''"

definition wizard_step_4 :: "wizard \<Rightarrow> string" where
  "wizard_step_4 w =
     ''<h2>Mailboxes</h2><p>Configure the mailboxes (I/O door element groups) for the virtual tape library. Optional - skip this step if you don't need import/export I/O slots.</p><div id=\"mailboxes\">'' @
     map_join (\<lambda>mb.
       ''<div class=\"form-group wizard-row\"><label>'' @ bay_id mb @ '' Slots:</label><select name=\"mailboxSlots\" data-id=\"'' @ bay_id mb @ ''\">'' @
       map_join (slots_option_html (bay_slots mb)) [1, 2, 3, 4, 5] @
       ''</select><button type=\"button\" class=\"btn\" data-remove-mailbox=\"'' @ bay_id mb @ ''\">Remove</button></div>'')
       (or_nil (w_mailboxes w)) @
     ''</div><button type=\"button\" id=\"addMailbox\" class=\"btn\">Add Mailbox</button>''"

definition wizard_step_5 :: "wizard \<Rightarrow> string" where
  "wizard_step_5 w =
     ''<h2>Offsite Location</h2><p>Optionally create a virtual offsite location.</p><div class=\"form-group\"><label><input type=\"checkbox\" name=\"offsiteLocation\" '' @ show_if (offsite_location w) ''checked'' @ ''>Enable Offsite Location</label></div>''"

definition tape_set_row_html :: "tape_kind list \<Rightarrow> nat \<Rightarrow> tape_set_row \<Rightarrow> string" where
  "tape_set_row_html tts i ts =
     ''<div class=\"form-group wizard-row\" data-index=\"'' @ show_nat i @ ''\"><label>Name:</label><input type=\"text\" name=\"tapeSetName\" data-index=\"'' @ show_nat i @ ''\" value=\"'' @ ts_name ts @ ''\" required><label>Tape Type:</label><select name=\"tapeSetType\" data-index=\"'' @ show_nat i @ ''\">'' @
     map_join (\<lambda>tt. ''<option value=\"'' @ tk_name tt @ ''\" '' @ show_if (tk_name tt = ts_tape_type ts) ''selected'' @ ''>'' @ tk_name tt @ '' ('' @ tk_capacity tt @ '')</option>'') tts @
     ''</select><label>Storage Folder:</label><div class=\"field-with-button\"><input type=\"text\" name=\"tapeSetFolder\" data-index=\"'' @ show_nat i @ ''\" value=\"'' @ ts_folder ts @ ''\" placeholder=\"'' @ defaultTapeSetFolder (ts_name ts) @ ''\" required><button type=\"button\" class=\"btn\" data-browse-tapeset=\"'' @ show_nat i @ ''\">Browse&hellip;</button></div><label>Number of tapes:</label><input type=\"number\" name=\"tapeSetCount\" data-index=\"'' @ show_nat i @ ''\" min=\"1\" value=\"'' @ show_int (if ts_count ts = 0 then 1 else ts_count ts) @ ''\"><button type=\"button\" class=\"btn\" data-remove-tapeset=\"'' @ show_nat i @ ''\">Remove</button></div>''"

definition wizard_step_6 :: "wizard_options \<Rightarrow> wizard \<Rightarrow> string" where
  "wizard_step_6 options w =
     ''<h2>Tape Sets</h2><p>Group cartridges into tape sets by tape type, each stored in its own folder on disk. Cartridges are auto-generated with barcodes matching the tape type's format (e.g. LTO-8 &rarr; 000001L8, 000002L8, ...).</p><div id=\"tapeSets\">'' @
     map_join (\<lambda>(i, ts). tape_set_row_html (or_nil (tape_types options)) i ts) (enumerate 0 (or_nil (tape_sets w))) @
     ''</div><button type=\"button\" id=\"addTapeSet\" class=\"btn\">Add Tape Set</button>''"

section \<open>Step 7\<close>

fun kind_name :: "kind \<Rightarrow> string" where
  "kind_name KDrive = ''drive''"
| "kind_name KMagazine = ''magazine''"
| "kind_name KMailbox = ''mailbox''"

fun item_id :: "item \<Rightarrow> string" where
  "item_id (DriveItem i) = show_int i"
| "item_id (MagazineItem m) = m"
| "item_id (MailboxItem m) = m"

definition owner_attr :: "nat option \<Rightarrow> string" where
  "owner_attr owner = (case owner of None \<Rightarrow> ''pool'' | Some i \<Rightarrow> show_nat i)"

definition chip_html :: "chip \<times> string \<Rightarrow> string" where
  "chip_html c =
     ''<span class=\"chip\" data-chip-kind=\"'' @ kind_name (kind_of (chip_item (fst c))) @ ''\" data-chip-id=\"'' @ item_id (chip_item (fst c)) @ ''\" data-chip-owner=\"'' @ owner_attr (currentLibrary (fst c)) @ ''\">'' @ snd c @ ''</span>''"

definition zone_html :: "wizard \<Rightarrow> zone \<Rightarrow> string" where
  "zone_html w z =
     ''<div class=\"board-dropzone\" data-zone-kind=\"'' @ kind_name (zone_kind z) @ ''\" data-zone-owner=\"'' @ owner_attr (zone_owner z) @ ''\">'' @ map_join chip_html (zone_chips w z) @ ''</div>''"

definition zone_at :: "nat option \<Rightarrow> kind \<Rightarrow> zone" where
  "zone_at owner k = (case owner of None \<Rightarrow> Pool k | Some i \<Rightarrow> LibZone k i)"

definition boardSections :: "wizard \<Rightarrow> nat option \<Rightarrow> string" where
  "boardSections w owner =
     ''<div class=\"board-section-label\">Drives</div>'' @ zone_html w (zone_at owner KDrive) @ ''<div class=\"board-section-label\">Magazines</div>'' @ zone_html w (zone_at owner KMagazine) @ ''<div class=\"board-section-label\">Mailboxes</div>'' @ zone_html w (zone_at owner KMailbox)"

definition lib_card_html :: "wizard \<Rightarrow> nat \<Rightarrow> lib_row \<Rightarrow> string" where
  "lib_card_html w i lib =
     ''<div class=\"form-group wizard-row board-card lib-bordered\" data-index=\"'' @ show_nat i @ ''\" style=\"border-left-color: '' @ or_else (lr_color lib) ''#4285F4'' @ ''\"><label>Logical Library '' @ show_nat (i + 1) @ '' Name:</label><input type=\"text\" name=\"logicalLibName\" data-index=\"'' @ show_nat i @ ''\" value=\"'' @ lr_name lib @ ''\" required><label>Color:</label><input type=\"color\" name=\"logicalLibColor\" data-index=\"'' @ show_nat i @ ''\" value=\"'' @ or_else (lr_color lib) ''#4285F4'' @ ''\">'' @ boardSections w (Some i) @ ''<button type=\"button\" class=\"btn\" data-remove-lib=\"'' @ show_nat i @ ''\">Remove</button></div>''"

definition wizard_step_7 :: "wizard \<Rightarrow> string" where
  "wizard_step_7 w =
     ''<h2>Logical Libraries</h2><p>Create logical libraries to partition the virtual tape library. Drag a drive, magazine, or mailbox from Available into a library to assign it, or back into Available to unassign it - an item already assigned to a library can only be dropped back into Available, not directly into another library.</p><div class=\"board\"><div class=\"board-card board-pool\"><h3>Available</h3>'' @ boardSections w None @ ''</div><div id=\"logicalLibs\">'' @
     map_join (\<lambda>(i, lib). lib_card_html w i lib) (enumerate 0 (lib_rows w)) @
     ''</div><button type=\"button\" id=\"addLogicalLib\" class=\"btn\">Add Logical Library</button></div>''"

section \<open>Steps 8 and 9\<close>

definition wizard_step_8 :: "wizard \<Rightarrow> string" where
  "wizard_step_8 w =
     ''<h2>Latency Simulation</h2><p>Simulate real tape library timing (drive load/unload, robotic arm movement, barcode scans, and more) instead of instant operations.</p><div class=\"form-group\"><label><input type=\"checkbox\" name=\"latencyEnabled\" '' @ show_if (latency_enabled w) ''checked'' @ ''> Enable tape library latency simulation</label><p class=\"hint\">You can fine-tune the exact delays afterwards from Admin &gt; Latency.</p></div>''"

definition wizard_step_9 :: "wizard_options \<Rightarrow> json option \<Rightarrow> wizard \<Rightarrow> string" where
  "wizard_step_9 options preview w =
     ''<h2>Anonymous Statistics</h2><p>Help gotochanger development by sending a small, anonymous report once when the daemon starts. This is entirely optional and can be changed at any time from Admin &gt; Settings.</p><div class=\"form-group\"><label><input type=\"checkbox\" name=\"telemetryEnabled\" '' @ show_if (telemetry_enabled w) ''checked'' @ ''> Send anonymous usage statistics</label><p class=\"hint\">Sent to <code>'' @ telemetry_endpoint options @ ''</code>, once per daemon startup (plus once now, immediately, if you enable it here).</p></div>'' @
     ''<div class=\"form-group raw-config\"><p><strong>Exactly what would be sent</strong> (this is a live preview, generated from your actual configuration):</p><pre>'' @ json_text 0 (case preview of None \<Rightarrow> JObj [] | Some v \<Rightarrow> v) @ ''</pre><p class=\"hint\">Never sent: the VTL name, magazine/mailbox/drive/tape-type names, volume barcodes or file paths, usernames, or any IP address/hostname. Only anonymous counts, feature toggles, and a one-way, non-reversible instance ID.</p></div>''"

definition renderWizardStepContent :: "nat \<Rightarrow> wizard_options \<Rightarrow> json option \<Rightarrow> wizard \<Rightarrow> string option" where
  "renderWizardStepContent step options preview w =
     (if step = 1 then Some (wizard_step_1 options w)
      else if step = 2 then wizard_step_2 options w
      else if step = 3 then Some (wizard_step_3 w)
      else if step = 4 then Some (wizard_step_4 w)
      else if step = 5 then Some (wizard_step_5 w)
      else if step = 6 then Some (wizard_step_6 options w)
      else if step = 7 then Some (wizard_step_7 w)
      else if step = 8 then Some (wizard_step_8 w)
      else if step = 9 then Some (wizard_step_9 options preview w)
      else Some [])"

section \<open>The frame\<close>

definition wizardSteps :: "string list" where
  "wizardSteps = [''Operational Mode'', ''Drives'', ''Magazines'', ''Mailboxes'', ''Offsite Location'', ''Tape Sets'',
     ''Logical Libraries'', ''Latency Simulation'', ''Anonymous Statistics'']"

definition step_class :: "nat \<Rightarrow> nat \<Rightarrow> string" where
  "step_class step i = (if i + 1 = step then ''active'' else if i + 1 < step then ''completed'' else [])"

definition step_bar_html :: "nat \<Rightarrow> string" where
  "step_bar_html step = map_join (\<lambda>(i, title).
     ''<div class=\"wizard-step '' @ step_class step i @ ''\"><div class=\"wizard-step-number\">'' @ show_nat (i + 1) @ ''</div><div class=\"wizard-step-title\">'' @ title @ ''</div></div>'')
     (enumerate 0 wizardSteps)"

definition wizard_form_html :: "nat \<Rightarrow> string \<Rightarrow> string" where
  "wizard_form_html step content =
     ''<form id=\"wizardForm\" class=\"wizard-form\">'' @ content @ ''<div class=\"wizard-actions\">'' @
     show_if (step > 1) ''<button type=\"button\" id=\"wizardPrev\" class=\"btn\">Previous</button>'' @
     ''<button type=\"submit\" id=\"wizardNext\" class=\"btn primary\">'' @ (if step = length wizardSteps then ''Finish'' else ''Next'') @ ''</button></div></form>''"

text \<open>The two elements \<open>renderWizardStepUI\<close> fills; None when a step's content throws.\<close>

definition renderWizardStepUI :: "nat \<Rightarrow> wizard_options \<Rightarrow> json option \<Rightarrow> wizard \<Rightarrow> (string \<times> string) option" where
  "renderWizardStepUI step options preview w =
     map_option (\<lambda>content. (step_bar_html step, wizard_form_html step content))
       (renderWizardStepContent step options preview w)"

text \<open>The step shown: \<open>state.current_step || 1\<close>.\<close>

definition shown_step :: "wizard \<Rightarrow> nat" where
  "shown_step w = (if current_step w = 0 then 1 else current_step w)"

section \<open>Properties\<close>

lemma tape_sets_error_count:
  "t \<in> set ts \<Longrightarrow> ts_count t < 1 \<Longrightarrow> tape_sets_error ts \<noteq> None"
proof (induction ts)
  case (Cons u ts)
  then show ?case
    by (cases "u = t") (auto simp: validateTapeSetInput_def split: option.splits if_splits)
qed simp

text \<open>
  A tape set whose count is 0 (its field was emptied, or the server no longer knows the count) is
  rendered exactly as one with 1 tape, yet Next refuses the step because of it: the page shows a value the
  state does not hold.
\<close>

theorem zero_count_shown_as_one:
  assumes "ts \<in> set (or_nil (tape_sets w))" and "ts_count ts = 0"
  shows "tape_set_row_html tts i ts = tape_set_row_html tts i (ts\<lparr>ts_count := 1\<rparr>) \<and>
     (\<exists>err. submission 6 form w = Inl err)"
proof
  show "tape_set_row_html tts i ts = tape_set_row_html tts i (ts\<lparr>ts_count := 1\<rparr>)"
    by (simp add: tape_set_row_html_def assms(2))
  have "tape_sets_error (or_nil (tape_sets w)) \<noteq> None"
    using assms by (intro tape_sets_error_count [of ts]) simp_all
  then show "\<exists>err. submission 6 form w = Inl err"
    by (auto simp: submission_def)
qed

definition emptied_row :: tape_set_row where
  "emptied_row = \<lparr>ts_name = ''TapeSet1'', ts_tape_type = ''LTO-8'', ts_folder = ''/srv/t'', ts_count = 0\<rparr>"

definition empty_form :: wizard_form where
  "empty_form = \<lparr>form_vtlName = None, form_operationalMode = None, form_offsiteLocation = False,
     form_latencyEnabled = False, form_telemetryEnabled = False\<rparr>"

theorem zero_count_shown_as_one_witness:
  "tape_set_row_html [] 0 emptied_row = tape_set_row_html [] 0 (emptied_row\<lparr>ts_count := 1\<rparr>) \<and>
   (\<exists>err. submission 6 empty_form (sample_wizard\<lparr>tape_sets := Some [emptied_row]\<rparr>) = Inl err)"
  by (rule zero_count_shown_as_one) (simp_all add: emptied_row_def)

end
