(* ===== verification/Dialogs.thy ===== *)
theory Dialogs
  imports Prelude
begin

text \<open>
  The three dialogs whose promises app.js builds by hand: the generic form (\<open>openDialog\<close>), the folder
  picker (\<open>openFolderPicker\<close>) and the PIN keypad (\<open>openPINPrompt\<close>). Each is one shared HTML element
  (static/index.html) with event listeners that live as long as a call is pending; the models keep the
  element, the pending calls and what they resolved with.
\<close>

section \<open>The form dialog\<close>

text \<open>
  The element's \<open>returnValue\<close> is set by the button that submits its form (OK or Cancel) and stays as it
  was when the dialog is closed with the Escape key. \<open>fd_pending\<close> are the calls whose close listener is
  registered, each with the values its inputs hold; \<open>fd_results\<close> what calls resolved with, oldest first.
\<close>

record 'v form_dialog =
  fd_open :: bool
  fd_returnValue :: string
  fd_pending :: "(nat \<times> 'v) list"
  fd_results :: "(nat \<times> 'v option) list"
  fd_next :: nat

definition fresh_dialog :: "'v form_dialog" where
  "fresh_dialog = \<lparr>fd_open = False, fd_returnValue = [], fd_pending = [], fd_results = [], fd_next = 0\<rparr>"

definition openDialog :: "'v \<Rightarrow> 'v form_dialog \<Rightarrow> 'v form_dialog" where
  "openDialog v d = d\<lparr>fd_open := True, fd_pending := fd_pending d @ [(fd_next d, v)], fd_next := fd_next d + 1\<rparr>"

text \<open>The close listeners run and remove themselves.\<close>

definition dialog_onClose :: "'v form_dialog \<Rightarrow> 'v form_dialog" where
  "dialog_onClose d =
     d\<lparr>fd_open := False, fd_pending := [],
       fd_results := fd_results d @
         map (\<lambda>(i, v). (i, if fd_returnValue d \<noteq> ''ok'' then None else Some v)) (fd_pending d)\<rparr>"

datatype close_by = OkButton | CancelButton | EscapeKey

fun close_dialog :: "close_by \<Rightarrow> 'v form_dialog \<Rightarrow> 'v form_dialog" where
  "close_dialog OkButton d = dialog_onClose (d\<lparr>fd_returnValue := ''ok''\<rparr>)"
| "close_dialog CancelButton d = dialog_onClose (d\<lparr>fd_returnValue := ''cancel''\<rparr>)"
| "close_dialog EscapeKey d = dialog_onClose d"

text \<open>A session: dialogs opened one after the other, each closed before the next.\<close>

fun dialog_session :: "('v \<times> close_by) list \<Rightarrow> 'v form_dialog \<Rightarrow> 'v form_dialog" where
  "dialog_session [] d = d"
| "dialog_session ((v, c) # us) d = dialog_session us (close_dialog c (openDialog v d))"

text \<open>The last button that closed a dialog, as the element remembers it.\<close>

fun last_button :: "('v \<times> close_by) list \<Rightarrow> bool \<Rightarrow> bool" where
  "last_button [] ok = ok"
| "last_button ((v, OkButton) # us) ok = last_button us True"
| "last_button ((v, CancelButton) # us) ok = last_button us False"
| "last_button ((v, EscapeKey) # us) ok = last_button us ok"

lemma dialog_session_append: "dialog_session (us @ vs) d = dialog_session vs (dialog_session us d)"
  by (induction us d rule: dialog_session.induct) simp_all

lemma last_button_append: "last_button (us @ vs) ok = last_button vs (last_button us ok)"
  by (induction us ok rule: last_button.induct) simp_all

lemma dialog_session_state:
  "fd_pending d = [] \<Longrightarrow>
     fd_pending (dialog_session us d) = [] \<and>
     (fd_returnValue (dialog_session us d) = ''ok'' \<longleftrightarrow> last_button us (fd_returnValue d = ''ok'')) \<and>
     length (fd_results (dialog_session us d)) = length (fd_results d) + length us"
proof (induction us d rule: dialog_session.induct)
  case (2 v c us d)
  have "fd_pending (close_dialog c (openDialog v d)) = []"
    by (cases c) (simp_all add: dialog_onClose_def)
  with 2 show ?case
    by (cases c) (simp_all add: dialog_onClose_def openDialog_def)
qed simp

section \<open>The folder picker\<close>

text \<open>
  \<open>fp_pending\<close> are the calls whose Select and Cancel listeners are registered. Escape closes the element
  without running either, so the call stays pending.
\<close>

record folder_picker =
  fp_open :: bool
  fp_path :: string
  fp_pending :: "nat list"
  fp_results :: "(nat \<times> string option) list"

definition openFolderPicker :: "nat \<Rightarrow> string \<Rightarrow> folder_picker \<Rightarrow> folder_picker" where
  "openFolderPicker i startPath p =
     p\<lparr>fp_open := True, fp_pending := fp_pending p @ [i],
       fp_path := or_else startPath ''/var/lib/gotochanger''\<rparr>"

text \<open>Browsing to a folder, once its listing arrived.\<close>

definition renderFolderPicker :: "string \<Rightarrow> folder_picker \<Rightarrow> folder_picker" where
  "renderFolderPicker path p = p\<lparr>fp_path := path\<rparr>"

definition folder_resolve :: "string option \<Rightarrow> folder_picker \<Rightarrow> folder_picker" where
  "folder_resolve r p =
     p\<lparr>fp_open := False, fp_pending := [], fp_results := fp_results p @ map (\<lambda>i. (i, r)) (fp_pending p)\<rparr>"

definition folder_select :: "folder_picker \<Rightarrow> folder_picker" where
  "folder_select p = folder_resolve (Some (fp_path p)) p"

definition folder_cancel :: "folder_picker \<Rightarrow> folder_picker" where
  "folder_cancel p = folder_resolve None p"

definition folder_escape :: "folder_picker \<Rightarrow> folder_picker" where
  "folder_escape p = p\<lparr>fp_open := False\<rparr>"

section \<open>The PIN keypad\<close>

text \<open>
  One record per call of \<open>openPINPrompt\<close> (the closure's variables \<open>digits\<close>, \<open>submitting\<close>, \<open>resolved\<close> with
  its result, and, for the specification, the digits of every attempt started), and the shared element:
  its display, error line and OK button. A call's listeners are registered until it is resolved.
\<close>

record pin_prompt =
  digits :: string
  submitting :: bool
  resolved :: "bool option"
  attempts :: "string list"

record pin_page =
  prompts :: "pin_prompt list"
  pin_display :: string
  pin_error :: string
  pin_okDisabled :: bool
  pin_open :: bool

definition fresh_prompt :: pin_prompt where
  "fresh_prompt = \<lparr>digits = [], submitting = False, resolved = None, attempts = []\<rparr>"

definition circles :: "nat \<Rightarrow> string" where
  "circles n = concat (replicate n (filled_circle @ '' '')) @ concat (replicate (4 - n) (hollow_circle @ '' ''))"

definition set_prompt :: "nat \<Rightarrow> (pin_prompt \<Rightarrow> pin_prompt) \<Rightarrow> pin_page \<Rightarrow> pin_page" where
  "set_prompt i f p = p\<lparr>prompts := (prompts p)[i := f (prompts p ! i)]\<rparr>"

definition pin_render :: "nat \<Rightarrow> pin_page \<Rightarrow> pin_page" where
  "pin_render i p =
     (let q = prompts p ! i
      in p\<lparr>pin_display := circles (length (digits q)),
           pin_okDisabled := (submitting q \<or> length (digits q) \<noteq> 4)\<rparr>)"

definition pin_finish :: "nat \<Rightarrow> bool \<Rightarrow> pin_page \<Rightarrow> pin_page" where
  "pin_finish i ok p =
     (if resolved (prompts p ! i) \<noteq> None then p
      else (set_prompt i (\<lambda>q. q\<lparr>resolved := Some ok\<rparr>) p)\<lparr>pin_open := False\<rparr>)"

text \<open>\<open>submit\<close> up to the awaited attempt.\<close>

definition pin_submit :: "nat \<Rightarrow> pin_page \<Rightarrow> pin_page" where
  "pin_submit i p =
     (if submitting (prompts p ! i) \<or> length (digits (prompts p ! i)) \<noteq> 4 then p
      else pin_render i (set_prompt i (\<lambda>q. q\<lparr>submitting := True, attempts := attempts q @ [digits q]\<rparr>) p))"

text \<open>The rest of \<open>submit\<close>: the attempt answered \<open>{ok, message}\<close>, or threw (no ok, its message).\<close>

definition pin_attempt_done :: "nat \<Rightarrow> bool \<Rightarrow> string \<Rightarrow> pin_page \<Rightarrow> pin_page" where
  "pin_attempt_done i ok message p =
     (let p1 = set_prompt i (\<lambda>q. q\<lparr>submitting := False\<rparr>) p
      in if ok then pin_finish i True p1
         else (pin_render i (set_prompt i (\<lambda>q. q\<lparr>digits := []\<rparr>) p1))\<lparr>pin_error := or_else message ''Incorrect PIN''\<rparr>)"

definition pin_digit :: "nat \<Rightarrow> char \<Rightarrow> pin_page \<Rightarrow> pin_page" where
  "pin_digit i c p =
     (if submitting (prompts p ! i) \<or> 4 \<le> length (digits (prompts p ! i)) then p
      else (let p1 = pin_render i ((set_prompt i (\<lambda>q. q\<lparr>digits := digits q @ [c]\<rparr>) p)\<lparr>pin_error := []\<rparr>)
            in if length (digits (prompts p1 ! i)) = 4 then pin_submit i p1 else p1))"

definition pin_backspace :: "nat \<Rightarrow> pin_page \<Rightarrow> pin_page" where
  "pin_backspace i p =
     (if submitting (prompts p ! i) then p
      else pin_render i ((set_prompt i (\<lambda>q. q\<lparr>digits := butlast (digits q)\<rparr>) p)\<lparr>pin_error := []\<rparr>))"

definition openPINPrompt :: "pin_page \<Rightarrow> pin_page" where
  "openPINPrompt p =
     (pin_render (length (prompts p)) (p\<lparr>prompts := prompts p @ [fresh_prompt], pin_error := []\<rparr>))\<lparr>pin_open := True\<rparr>"

definition no_prompts :: pin_page where
  "no_prompts = \<lparr>prompts = [], pin_display = [], pin_error = [], pin_okDisabled = False, pin_open = False\<rparr>"

text \<open>
  What can happen: a prompt is opened while none is on screen; a key of the keypad, OK or Escape reaches the
  prompt whose listeners are registered (the pending one); an attempt in flight, of this prompt or of one
  already closed, is answered.
\<close>

definition pending :: "nat \<Rightarrow> pin_page \<Rightarrow> bool" where
  "pending i p \<longleftrightarrow> i < length (prompts p) \<and> resolved (prompts p ! i) = None"

inductive pin_step :: "pin_page \<Rightarrow> pin_page \<Rightarrow> bool" where
  step_open: "\<not> pin_open p \<Longrightarrow> pin_step p (openPINPrompt p)"
| step_digit: "pending i p \<Longrightarrow> is_digit c \<Longrightarrow> pin_step p (pin_digit i c p)"
| step_backspace: "pending i p \<Longrightarrow> pin_step p (pin_backspace i p)"
| step_cancel: "pending i p \<Longrightarrow> pin_step p (pin_finish i False p)"
| step_ok: "pending i p \<Longrightarrow> pin_step p (pin_submit i p)"
| step_answer: "i < length (prompts p) \<Longrightarrow> submitting (prompts p ! i) \<Longrightarrow>
    pin_step p (pin_attempt_done i ok message p)"

inductive_cases pin_stepE: "pin_step p p'"

section \<open>Lemmas on the keypad\<close>

definition prompt_ok :: "pin_prompt \<Rightarrow> bool" where
  "prompt_ok q \<longleftrightarrow> length (digits q) \<le> 4 \<and> list_all is_digit (digits q) \<and>
     (submitting q \<longrightarrow> attempts q \<noteq> [] \<and> last (attempts q) = digits q \<and> length (digits q) = 4) \<and>
     (\<forall>a\<in>set (attempts q). length a = 4 \<and> list_all is_digit a) \<and>
     (resolved q = Some True \<longrightarrow> attempts q \<noteq> [])"

definition page_ok :: "pin_page \<Rightarrow> bool" where
  "page_ok p \<longleftrightarrow> (\<forall>q\<in>set (prompts p). prompt_ok q) \<and>
     (\<forall>i j. pending i p \<longrightarrow> pending j p \<longrightarrow> i = j) \<and> (\<forall>i. pending i p \<longrightarrow> pin_open p)"

lemma set_prompt_prompts [simp]: "prompts (set_prompt i f p) = (prompts p)[i := f (prompts p ! i)]"
  by (simp add: set_prompt_def)

lemma set_prompt_dom [simp]:
  "pin_open (set_prompt i f p) = pin_open p" "pin_display (set_prompt i f p) = pin_display p"
  "pin_error (set_prompt i f p) = pin_error p" "pin_okDisabled (set_prompt i f p) = pin_okDisabled p"
  by (simp_all add: set_prompt_def)

lemma pin_render_prompts [simp]: "prompts (pin_render i p) = prompts p" "pin_open (pin_render i p) = pin_open p"
  by (simp_all add: pin_render_def Let_def)

text \<open>An operation on one prompt that neither reopens it nor opens the element keeps the page well formed.\<close>

lemma page_ok_set:
  assumes "page_ok p" and "i < length (prompts p)" and "prompts p' = (prompts p)[i := q]" and "prompt_ok q"
    and "pin_open p' = pin_open p \<or> (\<forall>j. \<not> pending j p')"
    and "resolved (prompts p ! i) \<noteq> None \<longrightarrow> resolved q \<noteq> None"
  shows "page_ok p'"
proof -
  have "pending j p' \<Longrightarrow> pending j p" for j
    using assms(2,3,6) by (auto simp: pending_def nth_list_update split: if_splits)
  moreover have "\<forall>r\<in>set (prompts p'). prompt_ok r"
    using assms(1,3,4) set_update_subset_insert [of "prompts p" i q] by (auto simp: page_ok_def)
  ultimately show ?thesis using assms(1,5) by (auto simp: page_ok_def)
qed

lemma page_ok_nth: "page_ok p \<Longrightarrow> i < length (prompts p) \<Longrightarrow> prompt_ok (prompts p ! i)"
  by (simp add: page_ok_def)

lemma pin_submit_ok: "page_ok p \<Longrightarrow> i < length (prompts p) \<Longrightarrow> page_ok (pin_submit i p)"
proof -
  assume p: "page_ok p" "i < length (prompts p)"
  let ?q = "prompts p ! i"
  show ?thesis
  proof (cases "submitting ?q \<or> length (digits ?q) \<noteq> 4")
    case False
    with page_ok_nth [OF p] have "prompt_ok (?q\<lparr>submitting := True, attempts := attempts ?q @ [digits ?q]\<rparr>)"
      by (auto simp: prompt_ok_def)
    with False p show ?thesis
      by (intro page_ok_set [OF p, of _ "?q\<lparr>submitting := True, attempts := attempts ?q @ [digits ?q]\<rparr>"])
        (auto simp: pin_submit_def)
  qed (use p in \<open>simp add: pin_submit_def\<close>)
qed

lemma pin_finish_ok:
  "page_ok p \<Longrightarrow> i < length (prompts p) \<Longrightarrow> (ok \<longrightarrow> attempts (prompts p ! i) \<noteq> []) \<Longrightarrow> page_ok (pin_finish i ok p)"
proof -
  assume p: "page_ok p" "i < length (prompts p)" and a: "ok \<longrightarrow> attempts (prompts p ! i) \<noteq> []"
  let ?q = "prompts p ! i"
  show ?thesis
  proof (cases "resolved ?q")
    case None
    have "prompt_ok (?q\<lparr>resolved := Some ok\<rparr>)" using page_ok_nth [OF p] a by (simp add: prompt_ok_def)
    moreover have "j \<noteq> i \<Longrightarrow> \<not> pending j p" for j
    proof -
      have "pending i p" using p(2) None by (simp add: pending_def)
      moreover have "\<forall>i j. pending i p \<longrightarrow> pending j p \<longrightarrow> i = j" using p(1) by (simp add: page_ok_def)
      ultimately show "j \<noteq> i \<Longrightarrow> \<not> pending j p" by blast
    qed
    then have "\<not> pending j (pin_finish i ok p)" for j
      using p(2) None by (cases "j = i") (simp_all add: pin_finish_def pending_def)
    moreover have "prompts (pin_finish i ok p) = (prompts p)[i := ?q\<lparr>resolved := Some ok\<rparr>]"
      using None by (simp add: pin_finish_def)
    ultimately show ?thesis
      by (intro page_ok_set [OF p, of _ "?q\<lparr>resolved := Some ok\<rparr>"]) simp_all
  qed (use p in \<open>simp add: pin_finish_def\<close>)
qed

lemma pin_edit_ok:
  assumes p: "page_ok p" "i < length (prompts p)" and q: "prompt_ok (f (prompts p ! i))"
    and r: "resolved (f (prompts p ! i)) = resolved (prompts p ! i)"
  shows "page_ok (pin_render i ((set_prompt i f p)\<lparr>pin_error := e\<rparr>))"
  using q r by (intro page_ok_set [OF p, of _ "f (prompts p ! i)"]) auto

lemma pin_digit_ok:
  assumes p: "page_ok p" "i < length (prompts p)" and c: "is_digit c"
  shows "page_ok (pin_digit i c p)"
proof (cases "submitting (prompts p ! i) \<or> 4 \<le> length (digits (prompts p ! i))")
  case False
  then have "prompt_ok ((prompts p ! i)\<lparr>digits := digits (prompts p ! i) @ [c]\<rparr>)"
    using page_ok_nth [OF p] c by (simp add: prompt_ok_def)
  then have "page_ok (pin_render i ((set_prompt i (\<lambda>q. q\<lparr>digits := digits q @ [c]\<rparr>) p)\<lparr>pin_error := []\<rparr>))"
    by (intro pin_edit_ok [OF p]) simp_all
  with False p show ?thesis by (simp add: pin_digit_def Let_def pin_submit_ok)
qed (use p in \<open>simp add: pin_digit_def\<close>)

lemma pin_backspace_ok:
  assumes p: "page_ok p" "i < length (prompts p)"
  shows "page_ok (pin_backspace i p)"
proof (cases "submitting (prompts p ! i)")
  case False
  have "list_all is_digit (butlast (digits (prompts p ! i)))"
    using page_ok_nth [OF p] by (auto simp: prompt_ok_def list_all_iff dest: in_set_butlastD)
  with False have "prompt_ok ((prompts p ! i)\<lparr>digits := butlast (digits (prompts p ! i))\<rparr>)"
    using page_ok_nth [OF p] by (auto simp: prompt_ok_def)
  then show ?thesis using False by (simp add: pin_backspace_def pin_edit_ok [OF p])
qed (use p in \<open>simp add: pin_backspace_def\<close>)

lemma pin_attempt_done_ok:
  assumes p: "page_ok p" "i < length (prompts p)" and s: "submitting (prompts p ! i)"
  shows "page_ok (pin_attempt_done i ok m p)"
proof -
  let ?q = "prompts p ! i"
  define p1 where "p1 = set_prompt i (\<lambda>q. q\<lparr>submitting := False\<rparr>) p"
  have a: "attempts ?q \<noteq> []" using page_ok_nth [OF p] s by (simp add: prompt_ok_def)
  have "prompt_ok (?q\<lparr>submitting := False\<rparr>)" using page_ok_nth [OF p] by (simp add: prompt_ok_def)
  then have p1: "page_ok p1"
    by (intro page_ok_set [OF p, of _ "?q\<lparr>submitting := False\<rparr>"]) (auto simp: p1_def)
  have i1: "i < length (prompts p1)" "attempts (prompts p1 ! i) \<noteq> []" using p a by (simp_all add: p1_def)
  have "prompt_ok ((prompts p1 ! i)\<lparr>digits := []\<rparr>)"
    using page_ok_nth [OF p1 i1(1)] p by (simp add: prompt_ok_def p1_def)
  then have "page_ok ((pin_render i (set_prompt i (\<lambda>q. q\<lparr>digits := []\<rparr>) p1))\<lparr>pin_error := or_else m ''Incorrect PIN''\<rparr>)"
    by (intro page_ok_set [OF p1 i1(1), of _ "(prompts p1 ! i)\<lparr>digits := []\<rparr>"]) auto
  then show ?thesis
    using pin_finish_ok [OF p1 i1(1)] i1(2) by (simp add: pin_attempt_done_def Let_def p1_def [symmetric])
qed

lemma pin_open_ok: "page_ok p \<Longrightarrow> \<not> pin_open p \<Longrightarrow> page_ok (openPINPrompt p)"
  by (auto simp: page_ok_def openPINPrompt_def pending_def nth_append prompt_ok_def fresh_prompt_def
      split: if_splits)

lemma pin_step_ok: "pin_step p p' \<Longrightarrow> page_ok p \<Longrightarrow> page_ok p'"
  by (erule pin_stepE)
    (auto simp: pending_def intro: pin_open_ok pin_digit_ok pin_backspace_ok pin_submit_ok pin_attempt_done_ok
      pin_finish_ok)

lemma pin_reachable_ok: "pin_step\<^sup>*\<^sup>* p p' \<Longrightarrow> page_ok p \<Longrightarrow> page_ok p'"
  by (induction rule: rtranclp_induct) (auto intro: pin_step_ok)

section \<open>Properties\<close>

text \<open>
  C7: The PIN keypad under every sequence of keys, openings, closings and answers: a prompt never holds more
  than four digits, every attempt it starts is exactly four digits, while an attempt is in flight the digits
  are those of that attempt and cannot change, and at most one prompt is waiting at a time. A prompt that
  reports success has made an attempt.
\<close>

theorem pin_keypad_invariant:
  assumes "pin_step\<^sup>*\<^sup>* no_prompts p" and "q \<in> set (prompts p)"
  shows "length (digits q) \<le> 4 \<and> (\<forall>a\<in>set (attempts q). length a = 4 \<and> list_all is_digit a) \<and>
     (submitting q \<longrightarrow> digits q = last (attempts q)) \<and> (resolved q = Some True \<longrightarrow> attempts q \<noteq> []) \<and>
     (\<forall>i j. pending i p \<longrightarrow> pending j p \<longrightarrow> i = j)"
proof -
  have "page_ok no_prompts" by (simp add: page_ok_def no_prompts_def pending_def)
  with assms(1) have "page_ok p" by (rule pin_reachable_ok)
  with assms(2) show ?thesis by (auto simp: page_ok_def prompt_ok_def)
qed

text \<open>A run: open, press 1 2 3 4 (which submits), cancel while the attempt is in flight, open again, press 9.\<close>

definition four_pressed :: pin_page where
  "four_pressed = fold (pin_digit 0) ''1234'' (openPINPrompt no_prompts)"

definition reopened :: pin_page where
  "reopened = pin_digit 1 (CHR ''9'') (openPINPrompt (pin_finish 0 False four_pressed))"

lemmas pin_evals = openPINPrompt_def no_prompts_def fresh_prompt_def pin_digit_def pin_render_def pin_submit_def
  pin_finish_def set_prompt_def pending_def Let_def is_digit_def

lemma four_pressed_eval:
  "prompts four_pressed = [\<lparr>digits = ''1234'', submitting = True, resolved = None, attempts = [''1234'']\<rparr>]"
  "pin_open four_pressed"
  by (simp_all add: four_pressed_def pin_evals)

lemma four_pressed_run: "pin_step\<^sup>*\<^sup>* no_prompts four_pressed"
proof -
  have d: "pin_step p (pin_digit 0 c p)" if "pending 0 p" "is_digit c" for c p
    using that by (rule step_digit)
  have 0: "pin_step no_prompts (openPINPrompt no_prompts)" by (rule step_open) (simp add: no_prompts_def)
  have 1: "pin_step (openPINPrompt no_prompts) (pin_digit 0 (CHR ''1'') (openPINPrompt no_prompts))"
    by (rule d) (simp_all add: pin_evals)
  have 2: "pin_step (fold (pin_digit 0) ''1'' (openPINPrompt no_prompts)) (fold (pin_digit 0) ''12'' (openPINPrompt no_prompts))"
    by simp (rule d; simp add: pin_evals)
  have 3: "pin_step (fold (pin_digit 0) ''12'' (openPINPrompt no_prompts)) (fold (pin_digit 0) ''123'' (openPINPrompt no_prompts))"
    by simp (rule d; simp add: pin_evals)
  have 4: "pin_step (fold (pin_digit 0) ''123'' (openPINPrompt no_prompts)) four_pressed"
    by (simp add: four_pressed_def) (rule d; simp add: pin_evals)
  show ?thesis using 0 1 2 3 4 by (simp add: rtranclp.rtrancl_into_rtrancl)
qed

theorem pin_keypad_invariant_witness:
  "length (digits \<lparr>digits = ''1234'', submitting = True, resolved = None, attempts = [''1234'']\<rparr>) \<le> 4"
  using pin_keypad_invariant [OF four_pressed_run] four_pressed_eval by simp

lemma nth_list_update_if: "xs[i := q] ! j = (if i = j \<and> i < length xs then q else xs ! j)"
  by (cases "i < length xs") (simp_all add: nth_list_update list_update_beyond not_less)

lemma pin_ops_resolved:
  "resolved (prompts (pin_submit i p) ! j) = resolved (prompts p ! j)"
  "resolved (prompts (pin_backspace i p) ! j) = resolved (prompts p ! j)"
  "resolved (prompts (pin_digit i c p) ! j) = resolved (prompts p ! j)"
proof -
  show sub: "resolved (prompts (pin_submit i p) ! j) = resolved (prompts p ! j)" for p
    by (simp add: pin_submit_def nth_list_update_if)
  show "resolved (prompts (pin_backspace i p) ! j) = resolved (prompts p ! j)"
    by (simp add: pin_backspace_def nth_list_update_if)
  show "resolved (prompts (pin_digit i c p) ! j) = resolved (prompts p ! j)"
    by (simp add: pin_digit_def Let_def sub nth_list_update_if)
qed

lemma pin_finish_resolved:
  "j < length (prompts p) \<Longrightarrow> resolved (prompts (pin_finish i ok p) ! j) =
     (if i = j \<and> resolved (prompts p ! j) = None then Some ok else resolved (prompts p ! j))"
  by (auto simp: pin_finish_def nth_list_update_if)

lemma pin_attempt_done_resolved:
  "j < length (prompts p) \<Longrightarrow> resolved (prompts (pin_attempt_done i ok m p) ! j) =
     (if ok \<and> i = j \<and> resolved (prompts p ! j) = None then Some True else resolved (prompts p ! j))"
proof -
  assume j: "j < length (prompts p)"
  then have "j < length (prompts (set_prompt i (\<lambda>q. q\<lparr>submitting := False\<rparr>) p))" by simp
  from pin_finish_resolved [OF this, of i True] j show ?thesis
    by (auto simp: pin_attempt_done_def Let_def nth_list_update_if)
qed

text \<open>
  What a prompt reports is final, and it reports success only for an attempt of its own: no step changes
  the result of a resolved prompt, and one that turns a pending prompt into a success answers the attempt
  that prompt has in flight, with the digits it holds.
\<close>

theorem pin_result_final:
  assumes "pin_step p p'" and "j < length (prompts p)"
  shows "(resolved (prompts p ! j) \<noteq> None \<longrightarrow> resolved (prompts p' ! j) = resolved (prompts p ! j)) \<and>
     (resolved (prompts p ! j) = None \<and> resolved (prompts p' ! j) = Some True \<longrightarrow> submitting (prompts p ! j))"
  using assms
  by (auto elim!: pin_stepE simp: pin_ops_resolved pin_finish_resolved pin_attempt_done_resolved openPINPrompt_def
      nth_append split: if_splits)

theorem pin_result_final_witness:
  "resolved (prompts (pin_attempt_done 0 True [] four_pressed) ! 0) = Some True \<and> submitting (prompts four_pressed ! 0)"
proof -
  have "pin_step four_pressed (pin_attempt_done 0 True [] four_pressed)"
    by (rule step_answer) (simp_all add: four_pressed_eval)
  from pin_result_final [OF this, of 0] show ?thesis
    by (simp add: four_pressed_eval pin_attempt_done_resolved)
qed

text \<open>
  A late failure leaks into the next prompt: when a cancelled prompt's attempt is refused while another
  prompt is on screen, the shared display goes blank, OK is disabled and the error of the old attempt
  appears, although the new prompt still holds the digits already entered.
\<close>

theorem stale_attempt_overwrites_dom:
  assumes "i < length (prompts p)" and "submitting (prompts p ! i)" and "pending j p" and "i \<noteq> j"
    and "p' = pin_attempt_done i False m p"
  shows "prompts p' ! j = prompts p ! j \<and> pin_display p' = circles 0 \<and> pin_okDisabled p' \<and>
     pin_error p' = or_else m ''Incorrect PIN''"
  using assms by (simp add: pin_attempt_done_def pin_render_def Let_def)

lemma reopened_eval:
  "prompts reopened = [\<lparr>digits = ''1234'', submitting = True, resolved = Some False, attempts = [''1234'']\<rparr>,
     \<lparr>digits = ''9'', submitting = False, resolved = None, attempts = []\<rparr>]"
  using four_pressed_eval by (simp add: reopened_def pin_evals)

theorem stale_attempt_overwrites_dom_witness:
  "digits (prompts (pin_attempt_done 0 False [] reopened) ! 1) = ''9'' \<and>
   pin_display (pin_attempt_done 0 False [] reopened) = circles 0"
  using stale_attempt_overwrites_dom [of 0 reopened 1 _ "[]"] by (simp add: reopened_eval pending_def)

text \<open>
  C13: Escape repeats the previous answer: a form dialog closed with the Escape key resolves with its values,
  as if OK had been pressed, whenever the last dialog closed by a button was closed by OK, because the
  element keeps its \<open>returnValue\<close>; only otherwise is it a cancellation.
\<close>

theorem dialog_escape_repeats_last_button:
  "last (fd_results (dialog_session (us @ [(v, EscapeKey)]) fresh_dialog)) =
     (fd_next (dialog_session us fresh_dialog), if last_button us False then Some v else None)"
proof -
  let ?d = "dialog_session us (fresh_dialog :: 'a form_dialog)"
  have "fd_pending ?d = []" "fd_returnValue ?d = ''ok'' \<longleftrightarrow> last_button us False"
    using dialog_session_state [of "fresh_dialog :: 'a form_dialog" us] by (simp_all add: fresh_dialog_def)
  then show ?thesis by (simp add: dialog_session_append dialog_onClose_def openDialog_def)
qed

text \<open>
  Leaving the folder picker with Escape leaves its caller waiting: the next selection, made for another
  field, resolves the abandoned call too, with the same folder.
\<close>

theorem folder_escape_leaks:
  assumes "p = openFolderPicker j start' (folder_escape (openFolderPicker i start p0))"
    and "p' = folder_select (renderFolderPicker path p)"
  shows "(i, Some path) \<in> set (fp_results p') \<and> (j, Some path) \<in> set (fp_results p') \<and> fp_pending p' = []"
  using assms
  by (simp add: folder_select_def folder_resolve_def renderFolderPicker_def openFolderPicker_def folder_escape_def)

definition closed_picker :: folder_picker where
  "closed_picker = \<lparr>fp_open = False, fp_path = [], fp_pending = [], fp_results = []\<rparr>"

theorem folder_escape_leaks_witness:
  "(0, Some ''/srv/b'') \<in> set (fp_results (folder_select (renderFolderPicker ''/srv/b''
     (openFolderPicker 1 [] (folder_escape (openFolderPicker 0 [] closed_picker))))))"
  using folder_escape_leaks [OF refl refl] by blast

end
