(* ===== verification/Assignment_Board.thy ===== *)
theory Assignment_Board
  imports Wizard_Board
begin

text \<open>
  The drag-and-drop board of the New and Edit logical library dialogs (app.js \<open>buildAssignmentBoardPane\<close>,
  the assignmentboard field of \<open>openDialog\<close>, \<open>logicalLibraryAssignmentKinds\<close>) and the server's check it is
  made to pass (internal/library/library.go \<open>exclusivityConflictLocked\<close>). Two panes per kind: "Available"
  and the library; the staged membership is what the dialog's OK submits. The board is a second
  interpretation of \<open>drag_board\<close>; its invariant is that no member belongs to another library.
\<close>

section \<open>Staged membership\<close>

text \<open>The catalog \<open>logicalLibraryPickerData\<close> fetches, and the owners of the other libraries' elements.\<close>

record picker =
  pk_drives :: "drive list"
  pk_magazines :: "string list"
  pk_mailboxes :: "string list"

definition catalog_items :: "picker \<Rightarrow> item set" where
  "catalog_items pk = DriveItem ` drive_index ` set (pk_drives pk) \<union> MagazineItem ` set (pk_magazines pk) \<union>
     MailboxItem ` set (pk_mailboxes pk)"

fun other_owner :: "library_owners \<Rightarrow> item \<Rightarrow> owner option" where
  "other_owner os (DriveItem i) = driveOwner os i"
| "other_owner os (MagazineItem m) = magazineOwner os m"
| "other_owner os (MailboxItem m) = mailboxOwner os m"

fun is_member :: "membership \<Rightarrow> item \<Rightarrow> bool" where
  "is_member m (DriveItem i) = (i \<in> set (m_drives m))"
| "is_member m (MagazineItem x) = (x \<in> set (m_magazines m))"
| "is_member m (MailboxItem x) = (x \<in> set (m_mailboxes m))"

text \<open>\<open>membership[k.kind].add(id)\<close> and \<open>.delete(id)\<close> on the kind's set.\<close>

fun member_add :: "item \<Rightarrow> membership \<Rightarrow> membership" where
  "member_add (DriveItem i) m = m\<lparr>m_drives := set_add i (m_drives m)\<rparr>"
| "member_add (MagazineItem x) m = m\<lparr>m_magazines := set_add x (m_magazines m)\<rparr>"
| "member_add (MailboxItem x) m = m\<lparr>m_mailboxes := set_add x (m_mailboxes m)\<rparr>"

fun member_delete :: "item \<Rightarrow> membership \<Rightarrow> membership" where
  "member_delete (DriveItem i) m = m\<lparr>m_drives := set_delete i (m_drives m)\<rparr>"
| "member_delete (MagazineItem x) m = m\<lparr>m_magazines := set_delete x (m_magazines m)\<rparr>"
| "member_delete (MailboxItem x) m = m\<lparr>m_mailboxes := set_delete x (m_mailboxes m)\<rparr>"

text \<open>\<open>new Set(k.initial || [])\<close> for each kind.\<close>

definition initial_membership :: "membership \<Rightarrow> membership" where
  "initial_membership m = \<lparr>m_drives = js_set (m_drives m), m_magazines = js_set (m_magazines m),
     m_mailboxes = js_set (m_mailboxes m)\<rparr>"

section \<open>The panes\<close>

text \<open>Which items a pane shows, and which of them can be dragged.\<close>

definition pane_shows :: "picker \<Rightarrow> bool \<Rightarrow> membership \<Rightarrow> item set" where
  "pane_shows pk isRightPane m = {it \<in> catalog_items pk. isRightPane = is_member m it}"

definition pane_offers :: "picker \<Rightarrow> library_owners \<Rightarrow> bool \<Rightarrow> membership \<Rightarrow> item set" where
  "pane_offers pk os isRightPane m =
     {it \<in> pane_shows pk isRightPane m. isRightPane \<or> other_owner os it = None}"

definition assign_offered :: "picker \<Rightarrow> library_owners \<Rightarrow> membership \<Rightarrow> item set" where
  "assign_offered pk os m = pane_offers pk os False m \<union> pane_offers pk os True m"

text \<open>A zone is a kind in a pane (True: the library's).\<close>

definition assign_accepts :: "kind \<times> bool \<Rightarrow> item \<Rightarrow> bool" where
  "assign_accepts z it \<longleftrightarrow> kind_of it = fst z"

definition assign_drop :: "kind \<times> bool \<Rightarrow> item \<Rightarrow> membership \<Rightarrow> membership option" where
  "assign_drop z it m = Some (if snd z then member_add it m else member_delete it m)"

definition no_foreign :: "library_owners \<Rightarrow> membership \<Rightarrow> bool" where
  "no_foreign os m \<longleftrightarrow> (\<forall>it. is_member m it \<longrightarrow> other_owner os it = None)"

lemma is_member_add [simp]: "is_member (member_add it m) x \<longleftrightarrow> x = it \<or> is_member m x"
  by (cases it; cases x) auto

lemma is_member_delete [simp]: "is_member (member_delete it m) x \<longleftrightarrow> x \<noteq> it \<and> is_member m x"
  by (cases it; cases x) auto

lemma is_member_initial [simp]: "is_member (initial_membership m) x \<longleftrightarrow> is_member m x"
  by (cases x) (auto simp: initial_membership_def)

lemma assign_drop_inv:
  "no_foreign os m \<Longrightarrow> it \<in> assign_offered pk os m \<Longrightarrow> assign_drop z it m = Some m' \<Longrightarrow> no_foreign os m'"
  by (auto simp: assign_drop_def no_foreign_def assign_offered_def pane_offers_def pane_shows_def split: if_splits)

interpretation ab: drag_board "assign_offered pk os" "\<lambda>m. UNIV" assign_accepts assign_drop "no_foreign os"
  for pk os
  by unfold_locales (blast intro: assign_drop_inv)

text \<open>What the user can do while the dialog is open.\<close>

definition assign_gesture :: "picker \<Rightarrow> library_owners \<Rightarrow> membership \<Rightarrow> membership \<Rightarrow> bool" where
  "assign_gesture pk os = gesture (assign_offered pk os) (\<lambda>m. UNIV) assign_accepts assign_drop"

section \<open>The server's check\<close>

text \<open>The first other library that already has one of the requested elements.\<close>

definition claims :: "membership \<Rightarrow> logical_library \<Rightarrow> bool" where
  "claims m lib \<longleftrightarrow>
     (\<exists>d\<in>set (or_nil (lib_drives lib)). drive_index d \<in> set (m_drives m)) \<or>
     (\<exists>s\<in>set (or_nil (lib_slots lib)). magazine_id s \<noteq> [] \<and> magazine_id s \<in> set (m_magazines m)) \<or>
     (\<exists>io\<in>set (or_nil (lib_io_slots lib)). mailbox_id io \<noteq> [] \<and> mailbox_id io \<in> set (m_mailboxes m))"

definition exclusivityConflict :: "membership \<Rightarrow> string \<Rightarrow> logical_library list \<Rightarrow> string option" where
  "exclusivityConflict m exclude libs =
     map_option lib_name (List.find (\<lambda>lib. lib_name lib \<noteq> exclude \<and> claims m lib) libs)"

text \<open>\<open>excludeName\<close> of the dialog against \<open>exclude\<close> of the server, which the New dialog leaves empty.\<close>

definition exclude_text :: "string option \<Rightarrow> string" where
  "exclude_text ex = (case ex of None \<Rightarrow> [] | Some n \<Rightarrow> n)"

lemma no_foreign_claims:
  assumes "no_foreign (computeLogicalLibraryOwners libs ex) m" and "lib \<in> set libs"
    and "lib_name lib \<noteq> exclude_text ex"
  shows "\<not> claims m lib"
proof -
  have lib: "lib \<in> set (other_libs ex libs)"
    using assms(2,3) by (cases ex) (auto simp: other_libs_def exclude_text_def)
  have none: "other_owner (computeLogicalLibraryOwners libs ex) it = None" if "is_member m it" for it
    using assms(1) that by (simp add: no_foreign_def)
  have "i \<notin> set (drive_indices lib)" if "i \<in> set (m_drives m)" for i
    using none [of "DriveItem i"] that lib by (auto simp: computeLogicalLibraryOwners_eq claim_map_None)
  moreover have "x \<notin> set (lib_magazine_ids lib)" if "x \<in> set (m_magazines m)" for x
    using none [of "MagazineItem x"] that lib by (auto simp: computeLogicalLibraryOwners_eq claim_map_None)
  moreover have "x \<notin> set (lib_mailbox_ids lib)" if "x \<in> set (m_mailboxes m)" for x
    using none [of "MailboxItem x"] that lib by (auto simp: computeLogicalLibraryOwners_eq claim_map_None)
  ultimately show ?thesis
    by (auto simp: claims_def drive_indices_def lib_magazine_ids_def lib_mailbox_ids_def)
qed

lemma exclusivityConflict_None:
  "exclusivityConflict m exclude libs = None \<longleftrightarrow> (\<forall>lib\<in>set libs. lib_name lib \<noteq> exclude \<longrightarrow> \<not> claims m lib)"
  by (auto simp: exclusivityConflict_def find_None_iff)

text \<open>A library's own elements are no other library's, when the libraries are disjoint.\<close>

definition disjoint_libraries :: "logical_library list \<Rightarrow> bool" where
  "disjoint_libraries libs \<longleftrightarrow>
     (\<forall>l\<in>set libs. \<forall>l'\<in>set libs. lib_name l \<noteq> lib_name l' \<longrightarrow>
        set (drive_indices l) \<inter> set (drive_indices l') = {} \<and>
        set (lib_magazine_ids l) \<inter> set (lib_magazine_ids l') = {} \<and>
        set (lib_mailbox_ids l) \<inter> set (lib_mailbox_ids l') = {})"

lemma own_membership_no_foreign:
  assumes "disjoint_libraries libs" and "lib \<in> set libs"
  shows "no_foreign (computeLogicalLibraryOwners libs (Some (lib_name lib))) (initial_membership (logicalLibraryMembership lib))"
proof -
  have d: "set (drive_indices lib) \<inter> set (drive_indices l) = {} \<and> set (lib_magazine_ids lib) \<inter> set (lib_magazine_ids l) = {} \<and>
      set (lib_mailbox_ids lib) \<inter> set (lib_mailbox_ids l) = {}"
    if "l \<in> set (other_libs (Some (lib_name lib)) libs)" for l
  proof -
    have "l \<in> set libs" "lib_name lib \<noteq> lib_name l" using that by (auto simp: other_libs_def)
    with assms show ?thesis unfolding disjoint_libraries_def by blast
  qed
  have "other_owner (computeLogicalLibraryOwners libs (Some (lib_name lib))) it = None"
    if "is_member (logicalLibraryMembership lib) it" for it
    using that d
    by (cases it) (auto simp: computeLogicalLibraryOwners_eq claim_map_None logicalLibraryMembership_def)
  then show ?thesis by (simp add: no_foreign_def)
qed

section \<open>Properties\<close>

text \<open>
  C6: However a user drags items in the Edit dialog of a logical library, the membership it submits is one
  the server accepts: the exclusivity check finds no other library with any of its elements, as long as the
  libraries are still those the dialog was opened with.
\<close>

theorem edit_dialog_never_conflicts:
  assumes "disjoint_libraries libs" and "lib \<in> set libs"
    and "os = computeLogicalLibraryOwners libs (Some (lib_name lib))"
    and "(assign_gesture pk os)\<^sup>*\<^sup>* (initial_membership (logicalLibraryMembership lib)) m"
  shows "exclusivityConflict m (lib_name lib) libs = None"
proof -
  have "no_foreign os m"
    using assms own_membership_no_foreign unfolding assign_gesture_def by (auto intro: ab.gestures_inv)
  then show ?thesis
    using assms(3) no_foreign_claims [of libs "Some (lib_name lib)" m]
    by (auto simp: exclusivityConflict_None exclude_text_def)
qed

definition sample_drive :: "int \<Rightarrow> drive" where
  "sample_drive i = \<lparr>drive_index = i, device_path = ''/dev/nst'' @ show_int i, drive_type = ''LTO-8'', drive_volume = None,
     fault = False, mounts_since_cleaning = 0, activity = []\<rparr>"

definition sample_library :: "string \<Rightarrow> int \<Rightarrow> logical_library" where
  "sample_library n i = \<lparr>lib_name = n, lib_drives = Some [sample_drive i], lib_slots = None, lib_io_slots = None,
     lib_color = ''#4285F4'', lib_changer_model = []\<rparr>"

definition sample_picker :: picker where
  "sample_picker = \<lparr>pk_drives = [sample_drive 0, sample_drive 1, sample_drive 2], pk_magazines = [], pk_mailboxes = []\<rparr>"

lemma sample_indices [simp]:
  "drive_indices (sample_library n i) = [i]" "lib_magazine_ids (sample_library n i) = []"
  "lib_mailbox_ids (sample_library n i) = []" "lib_name (sample_library n i) = n"
  by (simp_all add: drive_indices_def lib_magazine_ids_def lib_mailbox_ids_def sample_library_def sample_drive_def)

lemma sample_gesture:
  "assign_gesture sample_picker (computeLogicalLibraryOwners [sample_library ''A'' 0, sample_library ''B'' 1] (Some ''A''))
     (initial_membership (logicalLibraryMembership (sample_library ''A'' 0)))
     \<lparr>m_drives = [0, 2], m_magazines = [], m_mailboxes = []\<rparr>"
  unfolding assign_gesture_def
proof (rule gesture.dropped)
  let ?os = "computeLogicalLibraryOwners [sample_library ''A'' 0, sample_library ''B'' 1] (Some ''A'')"
  let ?m = "initial_membership (logicalLibraryMembership (sample_library ''A'' 0))"
  have "driveOwner ?os 2 = None" by (simp add: computeLogicalLibraryOwners_eq claim_map_None other_libs_def)
  then show "DriveItem 2 \<in> assign_offered sample_picker ?os ?m"
    by (simp add: assign_offered_def pane_offers_def pane_shows_def catalog_items_def sample_picker_def sample_drive_def
        logicalLibraryMembership_def image_iff)
  show "(KDrive, True) \<in> UNIV" by simp
  show "assign_accepts (KDrive, True) (DriveItem 2)" by (simp add: assign_accepts_def)
  show "assign_drop (KDrive, True) (DriveItem 2) ?m = Some \<lparr>m_drives = [0, 2], m_magazines = [], m_mailboxes = []\<rparr>"
    by (simp add: assign_drop_def logicalLibraryMembership_def initial_membership_def js_set_def set_add_def)
qed

theorem edit_dialog_never_conflicts_witness:
  "exclusivityConflict \<lparr>m_drives = [0, 2], m_magazines = [], m_mailboxes = []\<rparr> ''A''
     [sample_library ''A'' 0, sample_library ''B'' 1] = None"
  using edit_dialog_never_conflicts [OF _ _ refl r_into_rtranclp, where lib = "sample_library ''A'' 0"
      and libs = "[sample_library ''A'' 0, sample_library ''B'' 1]"] sample_gesture
  by (simp add: disjoint_libraries_def)

text \<open>
  The same for the New dialog, which starts from an empty library: what it submits never conflicts with
  an existing library.
\<close>

theorem new_dialog_never_conflicts:
  assumes "os = computeLogicalLibraryOwners libs None"
    and "(assign_gesture pk os)\<^sup>*\<^sup>* (initial_membership \<lparr>m_drives = [], m_magazines = [], m_mailboxes = []\<rparr>) m"
  shows "exclusivityConflict m [] libs = None"
proof -
  have "is_member \<lparr>m_drives = [], m_magazines = [], m_mailboxes = []\<rparr> it = False" for it by (cases it) simp_all
  then have "no_foreign os (initial_membership \<lparr>m_drives = [], m_magazines = [], m_mailboxes = []\<rparr>)"
    by (simp add: no_foreign_def)
  then have "no_foreign os m"
    using assms(2) unfolding assign_gesture_def by (rule ab.gestures_inv [rotated])
  then show ?thesis
    using assms(1) no_foreign_claims [of libs None m] by (auto simp: exclusivityConflict_None exclude_text_def)
qed

theorem new_dialog_never_conflicts_witness:
  "exclusivityConflict (initial_membership \<lparr>m_drives = [], m_magazines = [], m_mailboxes = []\<rparr>) []
     [sample_library ''A'' 0] = None"
  by (rule new_dialog_never_conflicts [OF refl rtranclp.rtrancl_refl])

end
