(* ===== verification/Live_Stream.thy ===== *)
theory Live_Stream
  imports Api_Types Keyed_Store
begin

text \<open>
  The dashboard's live updates: app.js \<open>connectStream\<close>, its message handlers, \<open>pushArmStep\<close> and the
  fallback polling, and the server's end (internal/api/stream.go \<open>handleStream\<close>; internal/library/library.go
  \<open>setDoorPhase\<close>, \<open>setElementsBusy\<close>). The door-phase object and the busy-element set are two providers of
  \<open>keyed_store\<close>.

  A message is its decoded data; one that is no JSON is ignored by the handlers and does not appear here.
  The rendering the handlers trigger is left out, the functions they start are the second component of
  \<open>on_message\<close>.
\<close>

section \<open>Messages and handlers\<close>

datatype stream_msg =
    Update
  | Phase string string string
  | Arm bool arm_position string string
  | Busy "string list option" bool

definition robot_activity_max :: nat where
  "robot_activity_max = 50"

definition robot_activity_visible :: nat where
  "robot_activity_visible = 30"

definition pushArmStep :: "string \<Rightarrow> string \<Rightarrow> app \<Rightarrow> app" where
  "pushArmStep time message s =
     (let unshifted = (time, message) # robotActivity s
      in s\<lparr>robotActivity := (if length unshifted > robot_activity_max
                            then take robot_activity_max unshifted else unshifted)\<rparr>)"

text \<open>The rows \<open>renderRobotActivity\<close> draws: time and message, or the single empty line.\<close>

definition robot_activity_rows :: "app \<Rightarrow> (string \<times> string) list option" where
  "robot_activity_rows s =
     (let entries = take robot_activity_visible (robotActivity s) in if entries = [] then None else Some entries)"

definition phase_key :: "string \<Rightarrow> string \<Rightarrow> string" where
  "phase_key kind i = kind @ '':'' @ i"

definition set_phase :: "string \<Rightarrow> string \<Rightarrow> (string \<rightharpoonup> string) \<Rightarrow> (string \<rightharpoonup> string)" where
  "set_phase k v m = m(k \<mapsto> v)"

definition delete_phase :: "string \<Rightarrow> (string \<rightharpoonup> string) \<Rightarrow> (string \<rightharpoonup> string)" where
  "delete_phase k m = m(k := None)"

definition on_phase :: "string \<Rightarrow> string \<Rightarrow> string \<Rightarrow> app \<Rightarrow> app" where
  "on_phase kind i phase s =
     (let key = phase_key kind i
      in if phase \<noteq> [] then s\<lparr>doorPhases := set_phase key phase (doorPhases s)\<rparr>
         else s\<lparr>doorPhases := delete_phase key (doorPhases s)\<rparr>)"

definition mark_busy :: "string \<Rightarrow> unit \<Rightarrow> string set \<Rightarrow> string set" where
  "mark_busy k u b = insert k b"

definition clear_busy :: "string \<Rightarrow> string set \<Rightarrow> string set" where
  "clear_busy k b = b - {k}"

definition on_busy :: "string list option \<Rightarrow> bool \<Rightarrow> app \<Rightarrow> app" where
  "on_busy keys busy s =
     s\<lparr>busyElements := fold (\<lambda>key b. if busy then mark_busy key () b else clear_busy key b) (or_nil keys) (busyElements s)\<rparr>"

text \<open>\<open>now\<close> is the time of a step that carries none.\<close>

definition on_arm :: "string \<Rightarrow> bool \<Rightarrow> arm_position \<Rightarrow> string \<Rightarrow> string \<Rightarrow> app \<Rightarrow> app" where
  "on_arm now busy pos step step_time s =
     (let s1 = s\<lparr>armState := Some \<lparr>arm_busy = busy, position = pos\<rparr>\<rparr>
      in if step \<noteq> [] then pushArmStep (or_else step_time now) step s1 else s1)"

text \<open>The handler of a message: the new state and whether \<open>refresh\<close> is started.\<close>

definition on_message :: "string \<Rightarrow> stream_msg \<Rightarrow> app \<Rightarrow> app \<times> bool" where
  "on_message now msg s =
     (case msg of
        Update \<Rightarrow> (s, username s \<noteq> [])
      | Phase kind i phase \<Rightarrow> (on_phase kind i phase s, False)
      | Arm busy pos step step_time \<Rightarrow> (on_arm now busy pos step step_time s, False)
      | Busy keys busy \<Rightarrow> (on_busy keys busy s, False))"

definition on_messages :: "string \<Rightarrow> stream_msg list \<Rightarrow> app \<Rightarrow> app" where
  "on_messages now msgs s = fold (\<lambda>m s. fst (on_message now m s)) msgs s"

text \<open>What \<open>connectStream\<close> clears before it opens the stream.\<close>

definition clear_live :: "app \<Rightarrow> app" where
  "clear_live s = s\<lparr>doorPhases := Map.empty, armState := None, robotActivity := [], busyElements := {}\<rparr>"

section \<open>The server's end\<close>

definition setDoorPhase :: "string \<Rightarrow> string \<Rightarrow> string \<Rightarrow> (string \<rightharpoonup> string) \<Rightarrow> (string \<rightharpoonup> string)" where
  "setDoorPhase kind i phase m =
     (let key = kind @ '':'' @ i in if phase = [] then m(key := None) else m(key \<mapsto> phase))"

definition setElementsBusy :: "bool \<Rightarrow> string list \<Rightarrow> string set \<Rightarrow> string set" where
  "setElementsBusy busy keys b = fold (\<lambda>k b. if busy then insert k b else b - {k}) keys b"

text \<open>A change of the live state on the server, and the message it broadcasts (None: none is sent).\<close>

datatype live_op = SetPhase string string string | SetBusy bool "string list"

record live_server =
  sv_phases :: "string \<rightharpoonup> string"
  sv_busy :: "string set"

fun live_apply :: "live_op \<Rightarrow> live_server \<Rightarrow> live_server" where
  "live_apply (SetPhase kind i phase) v = v\<lparr>sv_phases := setDoorPhase kind i phase (sv_phases v)\<rparr>"
| "live_apply (SetBusy busy keys) v =
     (if keys = [] then v else v\<lparr>sv_busy := setElementsBusy busy keys (sv_busy v)\<rparr>)"

fun live_message :: "live_op \<Rightarrow> stream_msg list" where
  "live_message (SetPhase kind i phase) = [Phase kind i phase]"
| "live_message (SetBusy busy keys) = (if keys = [] then [] else [Busy (Some keys) busy])"

text \<open>
  The catch-up \<open>handleStream\<close> writes first: an update, each phase in progress, the arm's state with each
  buffered step, the busy elements. \<open>ps\<close> and \<open>bs\<close> list the two maps in the order Go iterates them;
  \<open>strings.Cut\<close> splits a key at its first colon.
\<close>

definition cut_colon :: "string \<Rightarrow> (string \<times> string) option" where
  "cut_colon key =
     (if CHR '':'' \<in> set key
      then Some (takeWhile (\<lambda>c. c \<noteq> CHR '':'') key, tl (dropWhile (\<lambda>c. c \<noteq> CHR '':'') key)) else None)"

definition catch_up :: "(string \<times> string) list \<Rightarrow> arm_state \<Rightarrow> (string \<times> string) list \<Rightarrow> string list \<Rightarrow> stream_msg list" where
  "catch_up ps arm steps bs =
     [Update] @
     List.map_filter (\<lambda>(key, phase). map_option (\<lambda>(kind, i). Phase kind i phase) (cut_colon key)) ps @
     Arm (arm_busy arm) (position arm) [] [] #
     map (\<lambda>(time, step). Arm (arm_busy arm) (position arm) step time) steps @
     (if bs = [] then [] else [Busy (Some bs) True])"

section \<open>The two stores\<close>

interpretation ph: keyed_store set_phase delete_phase "\<lambda>m. m" "\<lambda>m. True"
  by unfold_locales (simp_all add: set_phase_def delete_phase_def)

definition busy_map :: "string set \<Rightarrow> (string \<rightharpoonup> unit)" where
  "busy_map b = (\<lambda>k. if k \<in> b then Some () else None)"

interpretation bz: keyed_store mark_busy clear_busy busy_map "\<lambda>b. True"
  by unfold_locales (auto simp: mark_busy_def clear_busy_def busy_map_def fun_eq_iff)

text \<open>The phase writes and busy writes of a message.\<close>

fun phase_writes :: "stream_msg \<Rightarrow> (string, string) store_op list" where
  "phase_writes (Phase kind i phase) =
     [if phase \<noteq> [] then Put (phase_key kind i) phase else Drop (phase_key kind i)]"
| "phase_writes m = []"

fun busy_writes :: "stream_msg \<Rightarrow> (string, unit) store_op list" where
  "busy_writes (Busy keys busy) = map (\<lambda>k. if busy then Put k () else Drop k) (or_nil keys)"
| "busy_writes m = []"

lemma pushArmStep_keeps [simp]:
  "doorPhases (pushArmStep t m s) = doorPhases s" "busyElements (pushArmStep t m s) = busyElements s"
  by (simp_all add: pushArmStep_def Let_def)

lemma on_arm_keeps [simp]:
  "doorPhases (on_arm now b p st t s) = doorPhases s" "busyElements (on_arm now b p st t s) = busyElements s"
  by (simp_all add: on_arm_def Let_def)

lemma on_busy_keeps [simp]: "doorPhases (on_busy ks b s) = doorPhases s" "robotActivity (on_busy ks b s) = robotActivity s"
  by (simp_all add: on_busy_def)

lemma on_phase_keeps [simp]:
  "busyElements (on_phase k i p s) = busyElements s" "robotActivity (on_phase k i p s) = robotActivity s"
  by (simp_all add: on_phase_def Let_def)

lemma on_message_phases: "doorPhases (fst (on_message now m s)) = ph.apply_writes (phase_writes m) (doorPhases s)"
  by (cases m) (simp_all add: on_message_def on_phase_def Let_def ph.apply_writes_def ph.apply_write_def)

lemma on_message_busy: "busyElements (fst (on_message now m s)) = bz.apply_writes (busy_writes m) (busyElements s)"
proof (cases m)
  case (Busy keys busy)
  have "fold (\<lambda>key b. if busy then mark_busy key () b else clear_busy key b) ks b =
      bz.apply_writes (map (\<lambda>k. if busy then Put k () else Drop k) ks) b" for ks b
    by (induction ks arbitrary: b) (simp_all add: bz.apply_writes_def bz.apply_write_def)
  then show ?thesis using Busy by (simp add: on_message_def on_busy_def)
qed (simp_all add: on_message_def bz.apply_writes_def)

lemma on_messages_phases:
  "doorPhases (on_messages now ms s) = map_writes (concat (map phase_writes ms)) (doorPhases s)"
  by (induction ms arbitrary: s)
    (simp_all add: on_messages_def on_message_phases ph.get_apply_writes)

lemma on_messages_busy:
  "busy_map (busyElements (on_messages now ms s)) = map_writes (concat (map busy_writes ms)) (busy_map (busyElements s))"
  by (induction ms arbitrary: s)
    (simp_all add: on_messages_def on_message_busy bz.get_apply_writes)

text \<open>The server's changes are the writes of the messages it sends.\<close>

lemma live_apply_phases:
  "sv_phases (live_apply op v) = map_writes (concat (map phase_writes (live_message op))) (sv_phases v)"
  by (cases op) (auto simp: setDoorPhase_def map_write_def phase_key_def Let_def)

lemma live_apply_busy:
  "busy_map (sv_busy (live_apply op v)) = map_writes (concat (map busy_writes (live_message op))) (busy_map (sv_busy v))"
proof (cases op)
  case (SetBusy busy keys)
  have "busy_map (fold (\<lambda>k b. if busy then insert k b else b - {k}) ks b) =
      map_writes (map (\<lambda>k. if busy then Put k () else Drop k) ks) (busy_map b)" for ks b
  proof (induction ks arbitrary: b)
    case (Cons k ks)
    have "busy_map (if busy then insert k b else b - {k}) = map_write (if busy then Put k () else Drop k) (busy_map b)"
      by (auto simp: busy_map_def map_write_def fun_eq_iff)
    with Cons show ?case by simp
  qed simp
  then show ?thesis using SetBusy by (simp add: setElementsBusy_def)
qed simp

definition live_run :: "live_op list \<Rightarrow> live_server \<Rightarrow> live_server" where
  "live_run ops v = fold live_apply ops v"

definition live_messages :: "live_op list \<Rightarrow> stream_msg list" where
  "live_messages ops = concat (map live_message ops)"

lemma live_run_phases:
  "sv_phases (live_run ops v) = map_writes (concat (map phase_writes (live_messages ops))) (sv_phases v)"
  by (induction ops arbitrary: v) (simp_all add: live_run_def live_messages_def live_apply_phases)

lemma live_run_busy:
  "busy_map (sv_busy (live_run ops v)) = map_writes (concat (map busy_writes (live_messages ops))) (busy_map (sv_busy v))"
  by (induction ops arbitrary: v) (simp_all add: live_run_def live_messages_def live_apply_busy)

lemma busy_map_inject: "busy_map a = busy_map b \<longleftrightarrow> a = b"
  by (auto simp: busy_map_def fun_eq_iff split: if_splits)

section \<open>The catch-up on a cleared client\<close>

lemma cut_colon_key: "CHR '':'' \<notin> set kind \<Longrightarrow> cut_colon (kind @ CHR '':'' # i) = Some (kind, i)"
proof -
  assume k: "CHR '':'' \<notin> set kind"
  then have "takeWhile (\<lambda>c. c \<noteq> CHR '':'') (kind @ '':'' @ i) = kind @ takeWhile (\<lambda>c. c \<noteq> CHR '':'') ('':'' @ i)"
    by (intro takeWhile_append2) auto
  moreover have "dropWhile (\<lambda>c. c \<noteq> CHR '':'') (kind @ '':'' @ i) = dropWhile (\<lambda>c. c \<noteq> CHR '':'') ('':'' @ i)"
    using k by (intro dropWhile_append2) auto
  ultimately show ?thesis by (simp add: cut_colon_def)
qed

text \<open>The keys \<open>setDoorPhase\<close> makes: the kind has no colon, phases are not empty.\<close>

definition phase_list_ok :: "(string \<times> string) list \<Rightarrow> bool" where
  "phase_list_ok ps \<longleftrightarrow> distinct (map fst ps) \<and>
     (\<forall>(key, phase)\<in>set ps. phase \<noteq> [] \<and> (\<exists>kind i. key = kind @ '':'' @ i \<and> CHR '':'' \<notin> set kind))"

lemma catch_up_phase_writes:
  assumes "phase_list_ok ps"
  shows "concat (map phase_writes (catch_up ps arm steps bs)) = map (\<lambda>(key, phase). Put key phase) ps"
proof -
  have 1: "concat (map phase_writes (List.map_filter (\<lambda>(key, phase). map_option (\<lambda>(kind, i). Phase kind i phase) (cut_colon key)) ps)) =
      map (\<lambda>(key, phase). Put key phase) ps"
    if "\<forall>(key, phase)\<in>set ps. phase \<noteq> [] \<and> (\<exists>kind i. key = kind @ '':'' @ i \<and> CHR '':'' \<notin> set kind)" for ps
    using that by (induction ps) (auto simp: List.map_filter_simps cut_colon_key phase_key_def)
  have 2: "concat (map phase_writes (map (\<lambda>(time, step). Arm (arm_busy arm) (position arm) step time) steps)) = []"
    by (simp add: case_prod_beta)
  from assms 1 [of ps] show ?thesis
    unfolding catch_up_def map_append concat_append list.map concat.simps 2 by (simp add: phase_list_ok_def)
qed

lemma catch_up_phases:
  assumes "phase_list_ok ps"
  shows "map_writes (concat (map phase_writes (catch_up ps arm steps bs))) Map.empty = map_of ps"
proof -
  have "map_writes (map (\<lambda>(key, phase). Put key phase) ps) m = m ++ map_of ps"
    if "distinct (map fst ps)" for ps :: "(string \<times> string) list" and m
    using that
  proof (induction ps arbitrary: m)
    case (Cons p ps)
    then have "map_of ps (fst p) = None" by (simp add: map_of_eq_None_iff)
    then have "m(fst p \<mapsto> snd p) ++ map_of ps = m ++ (map_of ps)(fst p \<mapsto> snd p)"
      by (simp add: map_add_upd_left dom_def map_add_upd)
    with Cons show ?case by (cases p) (simp add: map_write_def del: fun_upd_apply)
  qed simp
  then show ?thesis
    using assms by (simp add: catch_up_phase_writes phase_list_ok_def)
qed

lemma catch_up_busy:
  "map_writes (concat (map busy_writes (catch_up ps arm steps bs))) Map.empty = busy_map (set bs)"
proof -
  have 1: "concat (map busy_writes (List.map_filter (\<lambda>(key, phase). map_option (\<lambda>(kind, i). Phase kind i phase) (cut_colon key)) ps)) = []"
    by (induction ps) (auto simp: List.map_filter_simps split: option.splits)
  have 2: "map_writes (map (\<lambda>k. Put k ()) ks) (busy_map b) = busy_map (set ks \<union> b)" for ks b
  proof (induction ks arbitrary: b)
    case (Cons k ks)
    have "map_write (Put k ()) (busy_map b) = busy_map (insert k b)"
      by (auto simp: map_write_def busy_map_def fun_eq_iff)
    with Cons show ?case by simp
  qed simp
  have 3: "concat (map busy_writes (map (\<lambda>(time, step). Arm (arm_busy arm) (position arm) step time) steps)) = []"
    by (simp add: case_prod_beta)
  have "concat (map busy_writes (catch_up ps arm steps bs)) = map (\<lambda>k. Put k ()) bs"
    unfolding catch_up_def map_append concat_append 1 list.map concat.simps 3 by simp
  moreover have "busy_map {} = Map.empty" by (simp add: busy_map_def)
  ultimately show ?thesis using 2 [of bs "{}"] by simp
qed

section \<open>The connection and the fallback poll\<close>

text \<open>
  The module variables \<open>sseFallbackTimer\<close> and \<open>eventSource\<close>, and what the browser keeps: the interval timers
  not yet cleared and the event sources not yet closed, by the numbers they were created with.
\<close>

record connection =
  sseFallbackTimer :: "nat option"
  eventSource :: "nat option"
  timers :: "nat set"
  sources :: "nat set"
  fresh_id :: nat

definition startFallbackPolling :: "connection \<Rightarrow> connection" where
  "startFallbackPolling c =
     (if sseFallbackTimer c \<noteq> None then c
      else c\<lparr>sseFallbackTimer := Some (fresh_id c), timers := insert (fresh_id c) (timers c), fresh_id := fresh_id c + 1\<rparr>)"

definition stopFallbackPolling :: "connection \<Rightarrow> connection" where
  "stopFallbackPolling c =
     (case sseFallbackTimer c of None \<Rightarrow> c
      | Some t \<Rightarrow> c\<lparr>timers := timers c - {t}, sseFallbackTimer := None\<rparr>)"

definition disconnectStream :: "connection \<Rightarrow> connection" where
  "disconnectStream c =
     (case eventSource c of None \<Rightarrow> c
      | Some n \<Rightarrow> c\<lparr>sources := sources c - {n}, eventSource := None\<rparr>)"

definition open_source :: "connection \<Rightarrow> connection" where
  "open_source c = c\<lparr>eventSource := Some (fresh_id c), sources := insert (fresh_id c) (sources c), fresh_id := fresh_id c + 1\<rparr>"

definition connectStream :: "app \<times> connection \<Rightarrow> app \<times> connection" where
  "connectStream sc =
     (clear_live (fst sc), startFallbackPolling (open_source (disconnectStream (snd sc))))"

text \<open>The start of \<open>boot\<close>.\<close>

definition boot_disconnect :: "connection \<Rightarrow> connection" where
  "boot_disconnect c = stopFallbackPolling (disconnectStream c)"

definition no_connection :: connection where
  "no_connection = \<lparr>sseFallbackTimer = None, eventSource = None, timers = {}, sources = {}, fresh_id = 0\<rparr>"

text \<open>An open source opens, fails and reconnects by itself, or delivers a message.\<close>

inductive live_step :: "app \<times> connection \<Rightarrow> app \<times> connection \<Rightarrow> bool" where
  live_connect: "live_step sc (connectStream sc)"
| live_boot: "live_step (s, c) (s, boot_disconnect c)"
| live_open: "n \<in> sources c \<Longrightarrow> live_step (s, c) (s, stopFallbackPolling c)"
| live_error: "n \<in> sources c \<Longrightarrow> live_step (s, c) (s, startFallbackPolling c)"
| live_message: "n \<in> sources c \<Longrightarrow> live_step (s, c) (fst (on_message now m s), c)"

inductive_cases live_stepE: "live_step sc sc'"

definition connection_ok :: "connection \<Rightarrow> bool" where
  "connection_ok c \<longleftrightarrow> timers c = set_option (sseFallbackTimer c) \<and> sources c = set_option (eventSource c) \<and>
     (\<forall>t\<in>timers c \<union> sources c. t < fresh_id c)"

lemma startFallbackPolling_ok: "connection_ok c \<Longrightarrow> connection_ok (startFallbackPolling c)"
  by (auto simp: connection_ok_def startFallbackPolling_def split: option.splits)

lemma stopFallbackPolling_ok: "connection_ok c \<Longrightarrow> connection_ok (stopFallbackPolling c)"
  by (auto simp: connection_ok_def stopFallbackPolling_def split: option.splits)

lemma disconnectStream_ok: "connection_ok c \<Longrightarrow> connection_ok (disconnectStream c) \<and> eventSource (disconnectStream c) = None"
  by (auto simp: connection_ok_def disconnectStream_def split: option.splits)

lemma open_source_ok: "connection_ok c \<Longrightarrow> eventSource c = None \<Longrightarrow> connection_ok (open_source c)"
  by (auto simp: connection_ok_def open_source_def less_Suc_eq)

lemma connectStream_ok: "connection_ok (snd sc) \<Longrightarrow> connection_ok (snd (connectStream sc))"
  using disconnectStream_ok [of "snd sc"]
  by (simp add: connectStream_def startFallbackPolling_ok open_source_ok)

lemma robotActivity_on_message:
  "robotActivity (fst (on_message now m s)) =
     (case m of Arm b p step t \<Rightarrow> if step \<noteq> [] then take 50 ((or_else t now, step) # robotActivity s) else robotActivity s
      | _ \<Rightarrow> robotActivity s) \<or> length (robotActivity s) > 50"
  by (cases m) (auto simp: on_message_def on_arm_def Let_def pushArmStep_def robot_activity_max_def)

lemma robotActivity_bound_step:
  "length (robotActivity s) \<le> 50 \<Longrightarrow> length (robotActivity (fst (on_message now m s))) \<le> 50"
  using robotActivity_on_message [of now m s] by (auto split: stream_msg.splits if_splits)

lemma live_step_ok:
  "live_step sc sc' \<Longrightarrow> connection_ok (snd sc) \<and> length (robotActivity (fst sc)) \<le> 50 \<Longrightarrow>
     connection_ok (snd sc') \<and> length (robotActivity (fst sc')) \<le> 50"
proof (induction rule: live_step.induct)
  case (live_connect sc)
  then show ?case using connectStream_ok [of sc] by (simp add: connectStream_def clear_live_def)
next
  case (live_boot s c)
  then show ?case using disconnectStream_ok [of c] by (simp add: boot_disconnect_def stopFallbackPolling_ok)
qed (simp_all add: startFallbackPolling_ok stopFallbackPolling_ok robotActivity_bound_step)

section \<open>Properties\<close>

text \<open>
  C2: A client that connects catches up: let \<open>before\<close> be the changes the server makes between taking the
  subscription and taking the snapshot it sends first, and \<open>after\<close> those that follow. Once the client,
  cleared by \<open>connectStream\<close>, has handled the catch-up and then every broadcast message since the
  subscription (those before the snapshot a second time), it holds exactly the server's door phases and
  busy elements.
\<close>

theorem stream_converges:
  assumes "phase_list_ok ps" and "map_of ps = sv_phases (live_run before v)" and "set bs = sv_busy (live_run before v)"
    and "s = on_messages now (catch_up ps arm steps bs @ live_messages (before @ after)) (clear_live s0)"
  shows "doorPhases s = sv_phases (live_run (before @ after) v) \<and> busyElements s = sv_busy (live_run (before @ after) v)"
proof -
  let ?pw = "\<lambda>ms. concat (map phase_writes ms)" and ?bw = "\<lambda>ms. concat (map busy_writes ms)"
  have split: "live_messages (before @ after) = live_messages before @ live_messages after"
    by (simp add: live_messages_def)
  have "doorPhases s = map_writes (?pw (live_messages (before @ after))) (map_of ps)"
    using assms(1,4) catch_up_phases [OF assms(1)] by (simp add: on_messages_phases clear_live_def)
  also have "\<dots> = sv_phases (live_run (before @ after) v)"
    unfolding assms(2) live_run_phases split by (simp add: map_writes_idem)
  finally have phases: "doorPhases s = sv_phases (live_run (before @ after) v)" .
  have "busy_map {} = Map.empty" by (simp add: busy_map_def)
  then have "busy_map (busyElements s) = map_writes (?bw (live_messages (before @ after))) (busy_map (set bs))"
    using assms(4) catch_up_busy by (simp add: on_messages_busy clear_live_def)
  also have "\<dots> = busy_map (sv_busy (live_run (before @ after) v))"
    unfolding assms(3) live_run_busy split by (simp add: map_writes_idem)
  finally show ?thesis using phases by (simp add: busy_map_inject)
qed

definition idle_arm :: arm_state where
  "idle_arm = \<lparr>arm_busy = False, position = no_position\<rparr>"

definition idle_server :: live_server where
  "idle_server = \<lparr>sv_phases = Map.empty, sv_busy = {}\<rparr>"

theorem stream_converges_witness:
  "doorPhases (on_messages [] (catch_up [(''magazine:M1'', ''opening'')] idle_arm [] [] @
       live_messages ([SetPhase ''magazine'' ''M1'' ''opening''] @ [SetPhase ''magazine'' ''M1'' []])) (clear_live initial_app)) =
     sv_phases (live_run ([SetPhase ''magazine'' ''M1'' ''opening''] @ [SetPhase ''magazine'' ''M1'' []]) idle_server)"
proof -
  have "phase_list_ok [(''magazine:M1'', ''opening'')]"
    by (simp add: phase_list_ok_def) (rule exI [of _ "''magazine''"]; simp)
  moreover have "map_of [(''magazine:M1'', ''opening'')] = sv_phases (live_run [SetPhase ''magazine'' ''M1'' ''opening''] idle_server)"
    by (simp add: live_run_def idle_server_def setDoorPhase_def)
  moreover have "set [] = sv_busy (live_run [SetPhase ''magazine'' ''M1'' ''opening''] idle_server)"
    by (simp add: live_run_def idle_server_def)
  ultimately show ?thesis using stream_converges [OF _ _ _ refl] by blast
qed

text \<open>
  A dropped stream that the browser reconnects by itself is not cleared first: a door phase that ended
  while the connection was down is not in the new catch-up, so it stays on the dashboard until a later
  message names the same door (and the whole arm narration is appended a second time).
\<close>

theorem native_reconnect_keeps_stale_phase:
  assumes "doorPhases s key = Some phase" and "phase_list_ok ps" and "map_of ps key = None"
    and "\<forall>m\<in>set later. \<forall>kind i ph. m = Phase kind i ph \<longrightarrow> phase_key kind i \<noteq> key"
  shows "doorPhases (on_messages now (catch_up ps arm steps bs @ later) s) key = Some phase"
proof -
  have "key \<notin> fst ` set ps" using assms(3) by (simp add: map_of_eq_None_iff)
  then have "key \<notin> write_key ` set (map (\<lambda>(key, phase). Put key phase) ps)" by force
  then have catch: "map_writes (concat (map phase_writes (catch_up ps arm steps bs))) m key = m key" for m
    by (simp add: catch_up_phase_writes [OF assms(2)] map_writes_other)
  have "key \<notin> write_key ` set (concat (map phase_writes later))"
  proof -
    have "key \<notin> write_key ` set (phase_writes m)" if "m \<in> set later" for m
      using assms(4) that by (cases m) auto
    then show ?thesis by auto
  qed
  then show ?thesis using catch assms(1) by (simp add: on_messages_phases map_writes_other)
qed

theorem native_reconnect_keeps_stale_phase_witness:
  "doorPhases (on_messages [] (catch_up [] idle_arm [] [] @ [])
     (initial_app\<lparr>doorPhases := [''magazine:M1'' \<mapsto> ''closing'']\<rparr>)) ''magazine:M1'' = Some ''closing''"
  by (rule native_reconnect_keeps_stale_phase) (simp_all add: phase_list_ok_def)

text \<open>
  C34: Over every run of connects, boots, openings, errors and messages there is at most one fallback timer
  running and one stream open, namely those the two variables name, and the robot-activity list never
  exceeds 50 entries.
\<close>

theorem live_resources_bounded:
  assumes "live_step\<^sup>*\<^sup>* (initial_app, no_connection) (s, c)"
  shows "timers c = set_option (sseFallbackTimer c) \<and> sources c = set_option (eventSource c) \<and>
     card (timers c) \<le> 1 \<and> card (sources c) \<le> 1 \<and> length (robotActivity s) \<le> 50"
proof -
  have "connection_ok (snd sc) \<and> length (robotActivity (fst sc)) \<le> 50"
    if "live_step\<^sup>*\<^sup>* (initial_app, no_connection) sc" for sc
    using that
  proof (induction rule: rtranclp_induct)
    case base
    show ?case by (simp add: connection_ok_def no_connection_def initial_app_def)
  next
    case (step y z)
    then show ?case using live_step_ok by blast
  qed
  from this [OF assms] have "connection_ok c" "length (robotActivity s) \<le> 50" by simp_all
  then show ?thesis by (cases "sseFallbackTimer c"; cases "eventSource c") (simp_all add: connection_ok_def)
qed

theorem live_resources_bounded_witness:
  "card (timers (snd (connectStream (initial_app, no_connection)))) \<le> 1"
proof -
  have "live_step\<^sup>*\<^sup>* (initial_app, no_connection)
      (fst (connectStream (initial_app, no_connection)), snd (connectStream (initial_app, no_connection)))"
    using r_into_rtranclp [of live_step, OF live_connect] by simp
  from live_resources_bounded [OF this] show ?thesis by blast
qed

definition arm_steps :: "string \<Rightarrow> stream_msg list \<Rightarrow> (string \<times> string) list" where
  "arm_steps now ms = List.map_filter (\<lambda>m. case m of
     Arm b p step t \<Rightarrow> if step \<noteq> [] then Some (or_else t now, step) else None | _ \<Rightarrow> None) ms"

lemma take_nested: "take n (xs @ take n ys) = take n (xs @ ys)"
  by (simp add: take_append)

lemma robotActivity_run:
  "length (robotActivity s) \<le> 50 \<Longrightarrow>
     robotActivity (on_messages now ms s) = take 50 (rev (arm_steps now ms) @ robotActivity s)"
proof (induction ms arbitrary: s)
  case (Cons m ms)
  have step: "robotActivity (fst (on_message now m s)) = take 50 (rev (arm_steps now [m]) @ robotActivity s)"
    using robotActivity_on_message [of now m s] Cons.prems
    by (cases m) (auto simp: arm_steps_def List.map_filter_simps)
  have split: "arm_steps now (m # ms) = arm_steps now [m] @ arm_steps now ms"
    by (cases m) (simp_all add: arm_steps_def List.map_filter_simps)
  have "on_messages now (m # ms) s = on_messages now ms (fst (on_message now m s))"
    by (simp add: on_messages_def)
  then show ?case
    using Cons.IH [OF robotActivity_bound_step [OF Cons.prems]] step split
    by (simp add: take_nested del: take_append)
qed (simp add: on_messages_def arm_steps_def List.map_filter_simps)

text \<open>
  What the activity list holds: after a run of arm messages on a cleared client it is the last 50
  narration steps of the run, newest first.
\<close>

theorem activity_is_last_steps:
  "robotActivity (on_messages now ms (clear_live s)) = take 50 (rev (arm_steps now ms))"
  using robotActivity_run [of "clear_live s" now ms] by (simp add: clear_live_def)

end
