(* ===== verification/Busy_Marks.thy ===== *)
theory Busy_Marks
  imports Backend "HOL-Library.Multiset"
begin

text \<open>
  The marks that show an operation in flight: app.js \<open>withDriveOp\<close>, \<open>withCleaningOp\<close>, \<open>withElementOp\<close>.
  Each one marks the page's state, renders the dashboard, runs the operation and takes its marks back in a
  finally block. An operation in flight is an \<open>op\<close>; \<open>op_step\<close> lets any number of them begin and end in any
  order while the rest of the page runs. Rendering is left out.
\<close>

section \<open>Operations\<close>

datatype op = DriveOp "int list" | CleaningOp "int list" | ElementOp string

definition drive_op_begin :: "int list \<Rightarrow> app \<Rightarrow> app" where
  "drive_op_begin ixs s = s\<lparr>pendingDriveOps := pendingDriveOps s \<union> set ixs, pendingRobotOps := pendingRobotOps s + 1\<rparr>"

definition drive_op_end :: "int list \<Rightarrow> app \<Rightarrow> app" where
  "drive_op_end ixs s = s\<lparr>pendingDriveOps := pendingDriveOps s - set ixs, pendingRobotOps := pendingRobotOps s - 1\<rparr>"

definition cleaning_op_begin :: "int list \<Rightarrow> app \<Rightarrow> app" where
  "cleaning_op_begin ixs s = s\<lparr>pendingDriveOps := pendingDriveOps s \<union> set ixs\<rparr>"

definition cleaning_op_end :: "int list \<Rightarrow> app \<Rightarrow> app" where
  "cleaning_op_end ixs s = s\<lparr>pendingDriveOps := pendingDriveOps s - set ixs\<rparr>"

definition element_op_begin :: "string \<Rightarrow> app \<Rightarrow> app" where
  "element_op_begin key s = s\<lparr>pendingElementOps := insert key (pendingElementOps s)\<rparr>"

definition element_op_end :: "string \<Rightarrow> app \<Rightarrow> app" where
  "element_op_end key s = s\<lparr>pendingElementOps := pendingElementOps s - {key}\<rparr>"

definition withDriveOp :: "int list \<Rightarrow> (app, 'a) prog \<Rightarrow> (app, 'a) prog" where
  "withDriveOp ixs fn = io_seq (update (drive_op_begin ixs)) (io_finally fn (drive_op_end ixs))"

definition withCleaningOp :: "int list \<Rightarrow> (app, 'a) prog \<Rightarrow> (app, 'a) prog" where
  "withCleaningOp ixs fn = io_seq (update (cleaning_op_begin ixs)) (io_finally fn (cleaning_op_end ixs))"

definition withElementOp :: "string \<Rightarrow> (app, 'a) prog \<Rightarrow> (app, 'a) prog" where
  "withElementOp key fn = io_seq (update (element_op_begin key)) (io_finally fn (element_op_end key))"

fun op_begin :: "op \<Rightarrow> app \<Rightarrow> app" where
  "op_begin (DriveOp ixs) = drive_op_begin ixs"
| "op_begin (CleaningOp ixs) = cleaning_op_begin ixs"
| "op_begin (ElementOp key) = element_op_begin key"

fun op_end :: "op \<Rightarrow> app \<Rightarrow> app" where
  "op_end (DriveOp ixs) = drive_op_end ixs"
| "op_end (CleaningOp ixs) = cleaning_op_end ixs"
| "op_end (ElementOp key) = element_op_end key"

fun with_op :: "op \<Rightarrow> (app, 'a) prog \<Rightarrow> (app, 'a) prog" where
  "with_op (DriveOp ixs) = withDriveOp ixs"
| "with_op (CleaningOp ixs) = withCleaningOp ixs"
| "with_op (ElementOp key) = withElementOp key"

lemma exec_with_op:
  "exec R (with_op p fn) s tr ts s' r \<longleftrightarrow> (\<exists>s1. exec R fn (op_begin p s) tr ts s1 r \<and> s' = op_end p s1)"
  by (cases p) (auto simp: withDriveOp_def withCleaningOp_def withElementOp_def io_seq_def exec_bind exec_finally)

lemmas exec_marks =
  exec_with_op [of _ "DriveOp ixs" for ixs, simplified]
  exec_with_op [of _ "CleaningOp ixs" for ixs, simplified]
  exec_with_op [of _ "ElementOp key" for key, simplified]

section \<open>Accounting\<close>

fun drives_of :: "op \<Rightarrow> int set" where
  "drives_of (DriveOp ixs) = set ixs"
| "drives_of (CleaningOp ixs) = set ixs"
| "drives_of (ElementOp key) = {}"

fun elements_of :: "op \<Rightarrow> string set" where
  "elements_of (ElementOp key) = {key}"
| "elements_of (DriveOp ixs) = {}"
| "elements_of (CleaningOp ixs) = {}"

fun uses_robot :: "op \<Rightarrow> bool" where
  "uses_robot (DriveOp ixs) = True"
| "uses_robot (CleaningOp ixs) = False"
| "uses_robot (ElementOp key) = False"

lemma op_marks:
  "pendingDriveOps (op_begin p s) = pendingDriveOps s \<union> drives_of p"
  "pendingElementOps (op_begin p s) = pendingElementOps s \<union> elements_of p"
  "pendingRobotOps (op_begin p s) = pendingRobotOps s + (if uses_robot p then 1 else 0)"
  "pendingDriveOps (op_end p s) = pendingDriveOps s - drives_of p"
  "pendingElementOps (op_end p s) = pendingElementOps s - elements_of p"
  "pendingRobotOps (op_end p s) = pendingRobotOps s - (if uses_robot p then 1 else 0)"
  by (cases p; simp add: drive_op_begin_def drive_op_end_def cleaning_op_begin_def cleaning_op_end_def
      element_op_begin_def element_op_end_def)+

text \<open>The operations in flight, as a multiset: the same operation may be started twice.\<close>

definition same_marks :: "app \<Rightarrow> app \<Rightarrow> bool" where
  "same_marks s t \<longleftrightarrow> pendingDriveOps t = pendingDriveOps s \<and> pendingRobotOps t = pendingRobotOps s \<and>
     pendingElementOps t = pendingElementOps s"

inductive op_step :: "app \<times> op multiset \<Rightarrow> app \<times> op multiset \<Rightarrow> bool" where
  op_starts: "op_step (s, M) (op_begin p s, add_mset p M)"
| op_ends: "p \<in># M \<Longrightarrow> op_step (s, M) (op_end p s, M - {#p#})"
| op_other: "same_marks s t \<Longrightarrow> op_step (s, M) (t, M)"

definition marks_ok :: "app \<times> op multiset \<Rightarrow> bool" where
  "marks_ok c \<longleftrightarrow>
     pendingRobotOps (fst c) = int (size (filter_mset uses_robot (snd c))) \<and>
     pendingDriveOps (fst c) \<subseteq> (\<Union>p\<in>set_mset (snd c). drives_of p) \<and>
     pendingElementOps (fst c) \<subseteq> (\<Union>p\<in>set_mset (snd c). elements_of p)"

lemma minus_union_subset:
  assumes "p \<in># M" and "A \<subseteq> (\<Union>q\<in>set_mset M. f q)"
  shows "A - f p \<subseteq> (\<Union>q\<in>set_mset (M - {#p#}). f q)"
proof
  fix x assume "x \<in> A - f p"
  with assms(2) obtain q where q: "q \<in># M" "x \<in> f q" "x \<notin> f p" by auto
  then have "q \<noteq> p" by auto
  with q(1) have "q \<in># M - {#p#}" by (simp add: in_diff_count)
  with q(2) show "x \<in> (\<Union>q\<in>set_mset (M - {#p#}). f q)" by auto
qed

lemma marks_ok_step: "op_step c c' \<Longrightarrow> marks_ok c \<Longrightarrow> marks_ok c'"
proof (induction rule: op_step.induct)
  case (op_ends p M s)
  have "int (size (filter_mset uses_robot (M - {#p#}))) =
      int (size (filter_mset uses_robot M)) - (if uses_robot p then 1 else 0)"
  proof (cases "uses_robot p")
    case True
    then have "p \<in># filter_mset uses_robot M" using op_ends.hyps by simp
    then have "0 < size (filter_mset uses_robot M)" by (metis nonempty_has_size empty_iff set_mset_empty)
    with True op_ends.hyps show ?thesis by (simp add: size_Diff_singleton)
  qed simp
  then show ?case
    using op_ends.prems minus_union_subset [OF op_ends.hyps, of "pendingDriveOps s" drives_of]
      minus_union_subset [OF op_ends.hyps, of "pendingElementOps s" elements_of]
    by (simp add: marks_ok_def op_marks)
qed (auto simp: marks_ok_def op_marks same_marks_def)

definition unmarked :: "app \<Rightarrow> bool" where
  "unmarked s \<longleftrightarrow> pendingDriveOps s = {} \<and> pendingRobotOps s = 0 \<and> pendingElementOps s = {}"

section \<open>Properties\<close>

text \<open>
  C19: The marks on the dashboard account for the operations in flight, however many start and end in whatever
  order: the robot counter is the number of robot operations, and a drive or element is marked only while an
  operation on it is in flight; once all have ended nothing stays marked.
\<close>

theorem marks_account_for_operations:
  assumes "op_step\<^sup>*\<^sup>* (s0, {#}) (s, M)" and "unmarked s0"
  shows "pendingRobotOps s = int (size (filter_mset uses_robot M)) \<and>
     pendingDriveOps s \<subseteq> (\<Union>p\<in>set_mset M. drives_of p) \<and>
     pendingElementOps s \<subseteq> (\<Union>p\<in>set_mset M. elements_of p) \<and> (M = {#} \<longrightarrow> unmarked s)"
proof -
  have "marks_ok (s, M)" using assms(1)
  proof (induction "(s, M)" arbitrary: s M rule: rtranclp_induct)
    case base
    show ?case using assms(2) by (simp add: marks_ok_def unmarked_def)
  next
    case (step c)
    then show ?case using marks_ok_step by (metis prod.exhaust)
  qed
  then show ?thesis by (auto simp: marks_ok_def unmarked_def)
qed

lemma two_loads:
  "op_step\<^sup>*\<^sup>* (initial_app, {#})
     (op_end (DriveOp [0]) (op_begin (DriveOp [0]) (op_begin (DriveOp [0]) initial_app)), {#DriveOp [0]#})"
proof -
  let ?s1 = "op_begin (DriveOp [0]) initial_app"
  let ?s2 = "op_begin (DriveOp [0]) ?s1"
  have 1: "op_step (initial_app, {#}) (?s1, {#DriveOp [0]#})" by (rule op_starts)
  have 2: "op_step (?s1, {#DriveOp [0]#}) (?s2, {#DriveOp [0], DriveOp [0]#})" by (rule op_starts)
  have 3: "op_step (?s2, {#DriveOp [0], DriveOp [0]#}) (op_end (DriveOp [0]) ?s2, {#DriveOp [0]#})"
    using op_ends [of "DriveOp [0]" "{#DriveOp [0], DriveOp [0]#}" ?s2] by simp
  from 1 2 3 show ?thesis by (meson rtranclp.rtrancl_into_rtrancl rtranclp.rtrancl_refl)
qed

theorem marks_account_for_operations_witness:
  "pendingRobotOps (op_end (DriveOp [0]) (op_begin (DriveOp [0]) (op_begin (DriveOp [0]) initial_app))) = 1"
  using marks_account_for_operations [OF two_loads] by (simp add: unmarked_def initial_app_def)

text \<open>
  The marks of a drive are a set and not a count: whenever two operations on the same drive overlap, the
  first one to end takes the drive's mark away although the other is still in flight.
\<close>

theorem overlap_drops_drive_mark:
  assumes "p \<in># M" and "q \<in># M - {#p#}" and "i \<in> drives_of p" and "i \<in> drives_of q"
  shows "op_step (s, M) (op_end p s, M - {#p#}) \<and> q \<in># M - {#p#} \<and> i \<notin> pendingDriveOps (op_end p s)"
  using assms by (simp add: op_ends op_marks)

theorem overlap_drops_drive_mark_witness:
  "(0::int) \<notin> pendingDriveOps (op_end (DriveOp [0]) initial_app)"
  using overlap_drops_drive_mark [of "DriveOp [0]" "{#DriveOp [0], DriveOp [0]#}" "DriveOp [0]" 0 initial_app] by simp

end
