(* ===== verification/Dashboard_Actions.thy ===== *)
theory Dashboard_Actions
  imports Busy_Marks Staged_Queue
begin

text \<open>
  The click and drop handlers of the dashboard: the buttons \<open>renderSlots\<close>, \<open>renderIOSlots\<close>, \<open>renderDrives\<close>,
  \<open>renderOutside\<close> and \<open>renderRobotStatus\<close> of app.js attach to their cards, as programs on the page's state.
  What a handler captured when its card was rendered (the element, the door's open flag, the queue) is an
  argument, so a handler that runs after the state moved on still has the rendered values. The PIN prompt is
  the sequence of the operator's entries; its own behaviour is in the theory Dialogs.
\<close>

section \<open>Shared parts\<close>

text \<open>The listener of a \<open>mkBtn\<close> button; also that of the write-protect switch.\<close>

definition mkBtn :: "('s, unit) prog \<Rightarrow> ('s, unit) prog" where
  "mkBtn onClick = io_catch onClick alert"

definition select_field :: "string \<Rightarrow> string \<Rightarrow> choice list \<Rightarrow> dialog_field" where
  "select_field n l opts = \<lparr>df_name = n, df_label = l, df_type = ''select'', df_options = opts, df_value = []\<rparr>"

definition answer_text :: "(string \<rightharpoonup> answer) \<Rightarrow> string \<Rightarrow> string" where
  "answer_text v n = (case v n of Some (AStr t) \<Rightarrow> t | _ \<Rightarrow> [])"

definition answer_list :: "(string \<rightharpoonup> answer) \<Rightarrow> string \<Rightarrow> string list" where
  "answer_list v n = (case v n of Some (AList ts) \<Rightarrow> ts | _ \<Rightarrow> [])"

text \<open>\<open>JSON.stringify\<close> writes NaN as null.\<close>

definition num_json :: "int option \<Rightarrow> json" where
  "num_json n = (case n of None \<Rightarrow> JNull | Some i \<Rightarrow> JNum i)"

text \<open>The indices \<open>[to.address]\<close> marks; NaN is no drive's index.\<close>

definition mark_index :: "int option \<Rightarrow> int list" where
  "mark_index n = (case n of None \<Rightarrow> [] | Some i \<Rightarrow> [i])"

definition element_json :: "string \<Rightarrow> string \<Rightarrow> int option \<Rightarrow> (string \<times> json) list" where
  "element_json prefix k a = [(prefix @ ''_kind'', JStr k), (prefix @ ''_address'', num_json a)]"

section \<open>Move, Load, Unload\<close>

text \<open>Offers the options (which are never empty here), and runs the operation on the chosen destination.\<close>

definition choose_destination ::
    "string \<Rightarrow> string \<Rightarrow> choice list \<Rightarrow> (string \<times> int option \<Rightarrow> (app, unit) prog) \<Rightarrow> (app, unit) prog" where
  "choose_destination title label opts run =
     Dialog title [select_field ''to'' label opts] (\<lambda>v.
       case v of None \<Rightarrow> Return () | Some ans \<Rightarrow> run (parseMoveTarget (answer_text ans ''to'')))"

definition move_request :: "string \<Rightarrow> int \<Rightarrow> string \<times> int option \<Rightarrow> request" where
  "move_request kind a to =
     post_req ''/api/v1/move'' (JObj (element_json ''from'' kind (Some a) @ element_json ''to'' (fst to) (snd to)))"

definition load_request :: "string \<Rightarrow> int \<Rightarrow> int option \<Rightarrow> request" where
  "load_request kind a dr =
     post_req ''/api/v1/load'' (JObj (element_json ''from'' kind (Some a) @ [(''drive'', num_json dr)]))"

definition unload_request :: "int \<Rightarrow> string \<times> int option \<Rightarrow> request" where
  "unload_request i to = post_req ''/api/v1/unload'' (JObj ((''drive'', JNum i) # element_json ''to'' (fst to) (snd to)))"

text \<open>\<open>await withElementOp(key, () => op(ixs, () => api(q))); refresh();\<close>\<close>

definition element_request :: "string \<Rightarrow> op \<Rightarrow> request \<Rightarrow> (app, unit) prog" where
  "element_request key p q = io_seq (withElementOp key (with_op p (api q))) (start Refresh)"

text \<open>The Move button of a slot card (kind "slot", key \<open>slot_key a\<close>) or an I/O slot card.\<close>

definition move_click :: "string \<Rightarrow> string \<Rightarrow> string \<Rightarrow> int \<Rightarrow> (app, unit) prog" where
  "move_click title key kind a = Get (\<lambda>s.
     let opts = nonDriveMoveDestinationOptions s
     in if opts = [] then alert ''No destination available (need an empty storage slot or I/O slot).''
        else choose_destination title ''Destination'' opts
               (\<lambda>to. element_request key (DriveOp []) (move_request kind a to)))"

definition load_click :: "string \<Rightarrow> string \<Rightarrow> string \<Rightarrow> int \<Rightarrow> volume \<Rightarrow> (app, unit) prog" where
  "load_click title key kind a vol = Get (\<lambda>s.
     let opts = driveOptions s (Some vol)
     in if opts = [] then
          alert ''No destination available (need an empty, non-faulted drive of a compatible type).''
        else choose_destination title ''Drive'' opts (\<lambda>to.
               element_request key
                 (if cleaning vol then CleaningOp (mark_index (snd to)) else DriveOp (mark_index (snd to)))
                 (load_request kind a (snd to))))"

definition unload_click :: "int \<Rightarrow> (app, unit) prog" where
  "unload_click i = Get (\<lambda>s.
     let opts = unloadDestinationOptions s
     in if \<not> list_ex (\<lambda>c. \<not> ch_disabled c) opts then alert ''No unload destination available (all slots are full).''
        else choose_destination (''Unload drive '' @ show_int i) ''Destination'' opts
               (\<lambda>to. element_request (drive_key i) (DriveOp [i]) (unload_request i to)))"

section \<open>Faults, deletion, write protection\<close>

definition drive_fault_click :: "int \<Rightarrow> bool \<Rightarrow> ('s, unit) prog" where
  "drive_fault_click i faulty =
     io_seq (api (post_req (''/api/v1/drives/'' @ show_int i @ ''/fault'') (JObj [(''fault'', JBool (\<not> faulty))])))
       (start Refresh)"

definition roboticFaultKinds :: "(string \<times> string) list" where
  "roboticFaultKinds = [(''blocked_arm'', ''Blocked robotic arm''), (''mispositioned_cartridge'', ''Mispositioned cartridge''),
     (''pickup_failure'', ''Cartridge pickup failure''), (''drop_failure'', ''Cartridge drop / transport failure''),
     (''movement_jam'', ''Robot movement jam''), (''other'', ''Other mechanical fault'')]"

definition clear_fault_click :: "('s, unit) prog" where
  "clear_fault_click =
     io_seq (api (post_req ''/api/v1/robotics/fault'' (JObj [(''active'', JBool False)]))) (start Refresh)"

definition raise_fault_click :: "('s, unit) prog" where
  "raise_fault_click =
     Dialog ''Raise robotic fault''
       [\<lparr>df_name = ''kind'', df_label = ''Fault kind'', df_type = ''select'',
         df_options = map (\<lambda>(v, l). choice v l) roboticFaultKinds, df_value = ''blocked_arm''\<rparr>,
        \<lparr>df_name = ''message'', df_label = ''Message (optional)'', df_type = [], df_options = [], df_value = []\<rparr>]
       (\<lambda>v. case v of
          None \<Rightarrow> Return ()
        | Some ans \<Rightarrow>
            io_seq (api (post_req ''/api/v1/robotics/fault''
                (JObj [(''active'', JBool True), (''kind'', JStr (answer_text ans ''kind'')),
                       (''message'', JStr (answer_text ans ''message''))])))
              (start Refresh))"

definition delete_outside_click :: "string \<Rightarrow> ('s, unit) prog" where
  "delete_outside_click bc =
     Confirm (''Delete outside tape '' @ bc @ ''? This removes the backing file.'') (\<lambda>yes.
       if \<not> yes then Return ()
       else io_seq (api (delete_req (''/api/v1/outside/'' @ encodeURIComponent bc))) (start Refresh))"

definition write_protect_click :: "string \<Rightarrow> bool \<Rightarrow> ('s, unit) prog" where
  "write_protect_click bc wp =
     io_seq (api (post_req (''/api/v1/volumes/'' @ encodeURIComponent bc @ ''/write-protect'')
         (JObj [(''write_protected'', JBool (\<not> wp))])))
       (start Refresh)"

section \<open>Staged queues\<close>

datatype door = Magazine string | Mailbox string

fun door_queue_of :: "door \<Rightarrow> app \<Rightarrow> door_queue" where
  "door_queue_of (Magazine m) s = or_nil (storageQueues s m)"
| "door_queue_of (Mailbox m) s = or_nil (mailboxQueues s m)"

fun set_door_queue :: "door \<Rightarrow> door_queue \<Rightarrow> app \<Rightarrow> app" where
  "set_door_queue (Magazine m) q s = s\<lparr>storageQueues := (storageQueues s)(m \<mapsto> q)\<rparr>"
| "set_door_queue (Mailbox m) q s = s\<lparr>mailboxQueues := (mailboxQueues s)(m \<mapsto> q)\<rparr>"

lemma door_queue_set [simp]: "door_queue_of d (set_door_queue d q s) = q"
  by (cases d) simp_all

definition stage_and_refresh :: "door \<Rightarrow> door_queue \<Rightarrow> (app, unit) prog" where
  "stage_and_refresh d q = io_seq (update (set_door_queue d q)) (start Refresh)"

text \<open>\<open>queue\<close> is the queue the card was rendered with, \<open>selected\<close> whether a pickup was queued in it.\<close>

definition pickup_click :: "door \<Rightarrow> door_queue \<Rightarrow> bool \<Rightarrow> int \<Rightarrow> (app, unit) prog" where
  "pickup_click d queue selected a =
     stage_and_refresh d (queueAction queue (if selected then [] else ''pickup'') a [])"

definition load_tape_click :: "door \<Rightarrow> door_queue \<Rightarrow> bool \<Rightarrow> string \<Rightarrow> choice list \<Rightarrow> int \<Rightarrow> (app, unit) prog" where
  "load_tape_click d queue selected title opts a =
     (if selected then stage_and_refresh d (queueAction queue [] a [])
      else Dialog title [select_field ''barcode'' ''Tape'' opts] (\<lambda>v.
        case v of
          None \<Rightarrow> Return ()
        | Some ans \<Rightarrow>
            if answer_text ans ''barcode'' = [] then Return ()
            else stage_and_refresh d (queueAction queue ''load'' a (answer_text ans ''barcode''))))"

text \<open>A tape dropped on an empty slot card uses the rendered queue; a loaded tape dropped on the outside grid
  uses the current one.\<close>

definition slot_drop :: "door \<Rightarrow> door_queue \<Rightarrow> int \<Rightarrow> string \<Rightarrow> (app, unit) prog" where
  "slot_drop d queue a bc = stage_and_refresh d (queueAction queue ''load'' a bc)"

definition outside_drop :: "string \<Rightarrow> int \<Rightarrow> (app, unit) prog" where
  "outside_drop magId a = Get (\<lambda>s.
     stage_and_refresh (Magazine magId) (queueAction (door_queue_of (Magazine magId) s) ''pickup'' a []))"

definition bulk_load_click :: "string \<Rightarrow> door_queue \<Rightarrow> slot list \<Rightarrow> (app, unit) prog" where
  "bulk_load_click magId queue group_slots = Get (\<lambda>s.
     let opts = outsideOptions s; emptySlots = bulkEmptySlots queue group_slots
     in if opts = [] \<or> emptySlots = [] then alert ''No outside tapes or no empty slots available to bulk load.''
        else Dialog (''Bulk load into magazine '' @ magId)
          [\<lparr>df_name = ''barcodes'', df_label = ''Tapes to load'', df_type = ''checkboxgroup'', df_options = opts, df_value = []\<rparr>]
          (\<lambda>v. case v of
             None \<Rightarrow> Return ()
           | Some ans \<Rightarrow>
               (let bcs = answer_list ans ''barcodes'';
                    used = min (length bcs) (length emptySlots)
                in if bcs = [] then Return ()
                   else io_seq
                     (if used < length bcs then
                        alert (''Only '' @ show_nat used @ '' empty slot(s) available; loading the first '' @
                               show_nat used @ '' selected tape(s).'')
                      else Return ())
                     (stage_and_refresh (Magazine magId) (bulkLoadQueue queue emptySlots bcs)))))"

definition pickup_all_click :: "string \<Rightarrow> door_queue \<Rightarrow> slot list \<Rightarrow> (app, unit) prog" where
  "pickup_all_click magId queue group_slots =
     (let loaded = pickupAllSlots queue group_slots
      in if loaded = [] then alert ''No tapes in this magazine to pick up.''
         else stage_and_refresh (Magazine magId) (pickupAllQueue queue loaded))"

section \<open>Doors\<close>

definition action_json :: "door_action \<Rightarrow> json" where
  "action_json q = JObj [(''action'', JStr (qa_action q)), (''address'', JNum (qa_address q)), (''barcode'', JStr (qa_barcode q))]"

fun door_path :: "door \<Rightarrow> string \<Rightarrow> string" where
  "door_path (Magazine m) verb = ''/api/v1/doors/storage/'' @ encodeURIComponent m @ ''/'' @ verb"
| "door_path (Mailbox m) verb = ''/api/v1/doors/io/'' @ encodeURIComponent m @ ''/'' @ verb"

definition open_request :: "door \<Rightarrow> string \<Rightarrow> request" where
  "open_request d pin = post_req (door_path d ''open'') (JObj [(''pin'', JStr pin)])"

definition close_request :: "door \<Rightarrow> door_queue \<Rightarrow> request" where
  "close_request d queue = post_req (door_path d ''close'') (JObj [(''actions'', JArr (map action_json queue))])"

definition openWithPIN :: "door \<Rightarrow> string \<Rightarrow> (app, payload option) prog" where
  "openWithPIN d pin = withDriveOp [] (api (open_request d pin))"

text \<open>The attempt function given to the prompt.\<close>

definition pin_attempt :: "door \<Rightarrow> string \<Rightarrow> (app, bool) prog" where
  "pin_attempt d pin = io_catch (io_seq (openWithPIN d pin) (Return True)) (\<lambda>e. Return False)"

text \<open>The operator's entries; True marks one whose prompt is cancelled while the attempt is under way. When the
  entries run out the prompt is cancelled.\<close>

fun pin_session :: "door \<Rightarrow> (string \<times> bool) list \<Rightarrow> (app, bool) prog" where
  "pin_session d [] = Return False"
| "pin_session d ((pin, cancel) # es) =
     io_bind (pin_attempt d pin) (\<lambda>ok. if cancel then Return False else if ok then Return True else pin_session d es)"

definition door_done :: "door \<Rightarrow> (app, unit) prog" where
  "door_done d = stage_and_refresh d []"

definition open_door_click :: "door \<Rightarrow> bool \<Rightarrow> (string \<times> bool) list \<Rightarrow> (app, unit) prog" where
  "open_door_click d pin_required entries =
     (if pin_required then io_bind (pin_session d entries) (\<lambda>ok. if \<not> ok then Return () else door_done d)
      else io_seq (openWithPIN d []) (door_done d))"

definition close_door_click :: "door \<Rightarrow> door_queue \<Rightarrow> (app, unit) prog" where
  "close_door_click d queue = io_seq (withDriveOp [] (api (close_request d queue))) (door_done d)"

definition door_click :: "door \<Rightarrow> bool \<Rightarrow> bool \<Rightarrow> door_queue \<Rightarrow> (string \<times> bool) list \<Rightarrow> (app, unit) prog" where
  "door_click d isOpen pin_required queue entries =
     (if \<not> isOpen then open_door_click d pin_required entries else close_door_click d queue)"


section \<open>How the handlers run\<close>

lemma exec_withElementOp:
  "exec R (withElementOp key fn) s tr ts s' r \<longleftrightarrow>
     (\<exists>s1. exec R fn (op_begin (ElementOp key) s) tr ts s1 r \<and> s' = op_end (ElementOp key) s1)"
  using exec_with_op [of R "ElementOp key"] by simp

lemma exec_marked_api:
  "exec R (withElementOp key (with_op p (api q))) s tr ts s' r \<longleftrightarrow>
     (\<exists>a s1. R (op_begin p (op_begin (ElementOp key) s)) s1 \<and> tr = [SFetch q a] \<and>
        s' = op_end (ElementOp key) (op_end p s1) \<and> answer_outcome a = r \<and> ts = answer_starts a)"
  unfolding exec_withElementOp exec_with_op exec_api by blast

lemma exec_element_request:
  "exec R (element_request key p q) s tr ts s' r \<longleftrightarrow>
     (\<exists>a s1. R (op_begin p (op_begin (ElementOp key) s)) s1 \<and> tr = [SFetch q a] \<and>
        s' = op_end (ElementOp key) (op_end p s1) \<and>
        ((\<exists>b. answer_outcome a = Done b) \<and> r = Done () \<and> ts = answer_starts a @ [Refresh] \<or>
         (\<exists>e. answer_outcome a = Failed e \<and> r = Failed e \<and> ts = answer_starts a)))"
  unfolding element_request_def io_seq_def exec_bind exec_marked_api exec_start
  by (rule iffI; elim exE conjE disjE; hypsubst?; simp del: op_begin.simps op_end.simps; blast)

lemma exec_choose_destination:
  "exec R (choose_destination title label opts run) s tr ts s' r \<longleftrightarrow>
     (\<exists>s1. R s s1 \<and> (tr = [SDialog title None] \<and> s' = s1 \<and> ts = [] \<and> r = Done () \<or>
        (\<exists>ans tr'. tr = SDialog title (Some ans) # tr' \<and>
           exec R (run (parseMoveTarget (answer_text ans ''to''))) s1 tr' ts s' r)))"
proof
  assume "exec R (choose_destination title label opts run) s tr ts s' r"
  then obtain s1 v tr' where "R s s1" "tr = SDialog title v # tr'"
    "exec R (case v of None \<Rightarrow> Return () | Some ans \<Rightarrow> run (parseMoveTarget (answer_text ans ''to''))) s1 tr' ts s' r"
    by (auto simp: choose_destination_def)
  then show "\<exists>s1. R s s1 \<and> (tr = [SDialog title None] \<and> s' = s1 \<and> ts = [] \<and> r = Done () \<or>
        (\<exists>ans tr'. tr = SDialog title (Some ans) # tr' \<and>
           exec R (run (parseMoveTarget (answer_text ans ''to''))) s1 tr' ts s' r))"
    by (cases v) auto
qed (auto simp: choose_destination_def)

lemma unmarked_after:
  assumes "unmarked s" and "same_marks s s0" and "same_marks (op_begin p (op_begin (ElementOp key) s0)) s1"
  shows "unmarked (op_end (ElementOp key) (op_end p s1))"
  using assms by (cases p) (auto simp: unmarked_def same_marks_def op_marks simp del: op_begin.simps op_end.simps)

lemma answer_starts_no_Refresh: "Refresh \<notin> set (answer_starts a)"
  by (cases a) auto

definition ok_answer :: "payload response \<Rightarrow> bool" where
  "ok_answer a = (case a of NetworkError e \<Rightarrow> False | Answered code t b \<Rightarrow> http_ok code)"

lemma ok_answer_outcome: "ok_answer a \<longleftrightarrow> (\<exists>b. answer_outcome a = Done b)"
  by (cases a) (auto simp: ok_answer_def)

text \<open>A Move, Load or Unload button, whatever the server and the operator do: one request at most, to the
  destination read from the dialog, and no mark left behind.\<close>

lemma destination_click_run:
  assumes run: "exec R (mkBtn (choose_destination title label opts
      (\<lambda>to. element_request key (p to) (q to)))) s tr ts s' r"
    and quiet: "\<And>x y. R x y \<Longrightarrow> same_marks x y" and "unmarked s"
  shows "r = Done () \<and> unmarked s' \<and>
     (requests tr = [] \<and> Refresh \<notin> set ts \<or>
      (\<exists>v a. SDialog title (Some v) \<in> set tr \<and> requests tr = [q (parseMoveTarget (answer_text v ''to''))] \<and>
         SFetch (q (parseMoveTarget (answer_text v ''to''))) a \<in> set tr \<and> (Refresh \<in> set ts \<longleftrightarrow> ok_answer a)))"
proof -
  have um: "unmarked x" if "R s x" for x
    using quiet [OF that] assms(3) by (simp add: unmarked_def same_marks_def)
  have after: "unmarked (op_end (ElementOp key) (op_end (p to) s2))"
    if "R s s1" "R (op_begin (p to) (op_begin (ElementOp key) s1)) s2" for s1 s2 to
    using unmarked_after [OF assms(3) quiet [OF that(1)] quiet [OF that(2)]] .
  from run show ?thesis
    by (auto simp: mkBtn_def exec_catch exec_choose_destination exec_element_request um after
        ok_answer_outcome answer_starts_no_Refresh simp del: op_begin.simps op_end.simps)
qed

lemma mkBtn_alert:
  "exec R (mkBtn (alert t)) s tr ts s' r \<longleftrightarrow> s' = s \<and> tr = [SAlert t] \<and> ts = [] \<and> r = Done ()"
  by (auto simp: mkBtn_def exec_catch)

lemma mkBtn_Get [simp]: "mkBtn (Get f) = Get (\<lambda>s. mkBtn (f s))"
  by (simp add: mkBtn_def)


lemma driveOptions_target:
  "t \<in> ch_value ` set (driveOptions s (Some vol)) \<Longrightarrow>
     \<exists>d \<in> set (status_list drives s). drive_volume d = None \<and> \<not> fault d \<and>
       parseMoveTarget t = (''drive'', Some (drive_index d))"
  by (auto simp: driveOptions_def candidate_drives_def Let_def choice_def)

lemma nonDriveMove_target:
  "t \<in> ch_value ` set (nonDriveMoveDestinationOptions s) \<Longrightarrow>
     (\<exists>sl \<in> set (status_list slots s). slot_volume sl = None \<and> parseMoveTarget t = (''slot'', Some (slot_address sl))) \<or>
     (\<exists>io \<in> set (status_list ioslots s). io_volume io = None \<and> parseMoveTarget t = (''ioslot'', Some (io_address io)))"
  by (auto simp: nonDriveMoveDestinationOptions_def emptySlotOptions_def emptyIOSlotOptions_def choice_def)

lemma exec_stage_and_refresh:
  "exec R (stage_and_refresh d q) s tr ts s' r \<longleftrightarrow>
     s' = set_door_queue d q s \<and> tr = [] \<and> ts = [Refresh] \<and> r = Done ()"
  by (auto simp: stage_and_refresh_def io_seq_def exec_bind)

text \<open>The handlers do what the events of Staged_Queue say, on the queue they were rendered with.\<close>

lemma handlers_take_events:
  "exec R (slot_drop d (sg_shown g) a bc) s tr ts s' r \<Longrightarrow> door_queue_of d s' = sg_queue (take_event (Slot_Click (Put a (Load bc))) g)"
  "exec R (pickup_click d (sg_shown g) selected a) s tr ts s' r \<Longrightarrow>
     door_queue_of d s' = sg_queue (take_event (Slot_Click (if selected then Drop a else Put a Pickup)) g)"
  "exec R (pickup_all_click m (sg_shown g) ss) s tr ts s' r \<Longrightarrow> pickupAllSlots (sg_shown g) ss \<noteq> [] \<Longrightarrow>
     door_queue_of (Magazine m) s' = sg_queue (take_event (Pickup_All (pickupAllSlots (sg_shown g) ss)) g)"
  "exec R (outside_drop m a) s tr ts s' r \<Longrightarrow> door_queue_of (Magazine m) s = sg_queue g \<Longrightarrow>
     door_queue_of (Magazine m) s' = sg_queue (take_event (Outside_Drop a) g)"
  by (auto simp: slot_drop_def pickup_click_def pickup_all_click_def outside_drop_def exec_stage_and_refresh Let_def
      simp del: door_queue_of.simps set_door_queue.simps)

lemma exec_drive_op_api:
  "exec R (withDriveOp [] (api q)) s tr ts s' r \<longleftrightarrow>
     (\<exists>a s1. R (drive_op_begin [] s) s1 \<and> tr = [SFetch q a] \<and> s' = drive_op_end [] s1 \<and>
        answer_outcome a = r \<and> ts = answer_starts a)"
  using exec_with_op [of R "DriveOp []" "api q"] unfolding exec_api by auto

lemma exec_pin_attempt:
  "exec R (pin_attempt d pin) s tr ts s' r \<longleftrightarrow>
     (\<exists>a s1. R (drive_op_begin [] s) s1 \<and> tr = [SFetch (open_request d pin) a] \<and> s' = drive_op_end [] s1 \<and>
        r = Done (ok_answer a) \<and> ts = answer_starts a)"
proof
  assume "exec R (pin_attempt d pin) s tr ts s' r"
  then show "\<exists>a s1. R (drive_op_begin [] s) s1 \<and> tr = [SFetch (open_request d pin) a] \<and> s' = drive_op_end [] s1 \<and>
     r = Done (ok_answer a) \<and> ts = answer_starts a"
    by (auto simp: pin_attempt_def openWithPIN_def io_seq_def exec_catch exec_bind exec_drive_op_api ok_answer_outcome)
next
  assume "\<exists>a s1. R (drive_op_begin [] s) s1 \<and> tr = [SFetch (open_request d pin) a] \<and> s' = drive_op_end [] s1 \<and>
     r = Done (ok_answer a) \<and> ts = answer_starts a"
  then obtain a where a: "exec R (openWithPIN d pin) s tr ts s' (answer_outcome a)" "r = Done (ok_answer a)"
    by (auto simp: openWithPIN_def exec_drive_op_api)
  show "exec R (pin_attempt d pin) s tr ts s' r"
  proof (cases "answer_outcome a")
    case (Done b)
    with a(1) have "exec R (io_seq (openWithPIN d pin) (Return True)) s (tr @ []) (ts @ []) s' (Done True)"
      unfolding io_seq_def by (intro exec_bindI) simp_all
    with Done a(2) show ?thesis by (auto simp: pin_attempt_def exec_catch ok_answer_outcome)
  next
    case (Failed e)
    with a(1) have "exec R (io_seq (openWithPIN d pin) (Return True)) s tr ts s' (Failed e)"
      by (simp add: io_seq_def exec_bind)
    with Failed a(2) show ?thesis by (auto simp: pin_attempt_def exec_catch ok_answer_outcome)
  qed
qed

text \<open>\<open>n\<close> entries were tried, all but the last one refused and not cancelled.\<close>

definition tried :: "door \<Rightarrow> (string \<times> bool) list \<Rightarrow> payload seen list \<Rightarrow> bool \<Rightarrow> nat \<Rightarrow> bool" where
  "tried d es tr ok n \<longleftrightarrow> n \<le> length es \<and> requests tr = map (\<lambda>e. open_request d (fst e)) (take n es) \<and>
     length (answers tr) = n \<and> (\<forall>i. Suc i < n \<longrightarrow> \<not> ok_answer (answers tr ! i) \<and> \<not> snd (es ! i)) \<and>
     (ok \<longleftrightarrow> 0 < n \<and> ok_answer (answers tr ! (n - 1)) \<and> \<not> snd (es ! (n - 1)))"

lemma tried_Suc:
  assumes "tried d es tr ok n" and "\<not> ok_answer a" and "\<not> c"
  shows "tried d ((pin, c) # es) (SFetch (open_request d pin) a # tr) ok (Suc n)"
  using assms by (cases n) (auto simp: tried_def nth_Cons split: nat.splits)

lemma exec_pin_session:
  "exec R (pin_session d es) s tr ts s' r \<Longrightarrow> Refresh \<notin> set ts \<and> (\<exists>ok n. r = Done ok \<and> tried d es tr ok n)"
proof (induction es arbitrary: s tr ts)
  case Nil
  then show ?case by (auto simp: tried_def)
next
  case (Cons e es)
  obtain pin c where e: "e = (pin, c)" by force
  from Cons.prems obtain a s1 tr1 ts1 ts2 where
    tr: "tr = SFetch (open_request d pin) a # tr1" and ts: "ts = answer_starts a @ ts2" and
    rest: "exec R (if c then Return False else if ok_answer a then Return True else pin_session d es) s1 tr1 ts2 s' r"
    by (auto simp: e exec_bind exec_pin_attempt)
  show ?case
  proof (cases "c \<or> ok_answer a")
    case True
    then have "tried d ((pin, c) # es) tr (ok_answer a \<and> \<not> c) 1" if "tr1 = []"
      using that by (simp add: tried_def tr)
    with True rest show ?thesis by (auto simp: e ts answer_starts_no_Refresh split: if_splits)
  next
    case False
    with rest have "exec R (pin_session d es) s1 tr1 ts2 s' r" by simp
    from Cons.IH [OF this] obtain ok n where "Refresh \<notin> set ts2" "r = Done ok" "tried d es tr1 ok n" by blast
    moreover from this(3) False have "tried d ((pin, c) # es) tr ok (Suc n)" unfolding tr by (intro tried_Suc) auto
    ultimately show ?thesis by (auto simp: e ts answer_starts_no_Refresh)
  qed
qed

section \<open>Properties\<close>

text \<open>
  C23: The Load button: whatever the server answers, it sends at most one request, for the card's own cartridge
  and for a drive that the status the click saw shows empty and without a fault; an error ends in an alert
  and not in an exception, the status is fetched again exactly after a success, and no busy mark stays.
\<close>

theorem load_click_safe:
  assumes "exec R (mkBtn (load_click title key k a vol)) s tr ts s' r"
    and "\<And>x y. R x y \<Longrightarrow> same_marks x y" and "unmarked s"
    and "\<And>v. SDialog title (Some v) \<in> set tr \<Longrightarrow> answer_text v ''to'' \<in> ch_value ` set (driveOptions s (Some vol))"
  shows "r = Done () \<and> unmarked s' \<and>
     (requests tr = [] \<and> Refresh \<notin> set ts \<or>
      (\<exists>d \<in> set (status_list drives s). \<exists>p. drive_volume d = None \<and> \<not> fault d \<and>
         requests tr = [load_request k a (Some (drive_index d))] \<and>
         SFetch (load_request k a (Some (drive_index d))) p \<in> set tr \<and> (Refresh \<in> set ts \<longleftrightarrow> ok_answer p)))"
proof (cases "driveOptions s (Some vol) = []")
  case True
  with assms(1,3) show ?thesis by (auto simp: load_click_def mkBtn_alert)
next
  case False
  note run = destination_click_run [OF _ assms(2,3), where tr = tr and ts = ts and s' = s' and r = r]
  from assms(1) False have "exec R (mkBtn (choose_destination title ''Drive'' (driveOptions s (Some vol)) (\<lambda>to.
      element_request key (if cleaning vol then CleaningOp (mark_index (snd to)) else DriveOp (mark_index (snd to)))
        (load_request k a (snd to))))) s tr ts s' r"
    by (simp add: load_click_def)
  from run [OF this] show ?thesis
    using driveOptions_target [OF assms(4)] by fastforce
qed

definition click_status :: status where
  "click_status = small_status\<lparr>slots := Some [\<lparr>slot_address = 7, slot_label = [], magazine_id = ''M1'', slot_volume = None\<rparr>]\<rparr>"

definition click_app :: app where
  "click_app = initial_app\<lparr>status_of := Some click_status\<rparr>"

lemma click_app_simps:
  "status_list drives click_app = [\<lparr>drive_index = 0, device_path = [], drive_type = ''LTO-9'', drive_volume = None,
     fault = False, mounts_since_cleaning = 0, activity = []\<rparr>]"
  "status_list slots click_app = [\<lparr>slot_address = 7, slot_label = [], magazine_id = ''M1'', slot_volume = None\<rparr>]"
  "status_list ioslots click_app = []"
  by (simp_all add: status_list_def click_app_def click_status_def small_status_def)

lemma click_app_drives: "driveOptions click_app (Some (dds_tape\<lparr>cleaning := True\<rparr>)) = [choice (drive_key 0) (''Drive '' @ show_int 0)]"
  by (simp add: driveOptions_def candidate_drives_def Let_def click_app_simps familiesCompatible_def truthy_def)

lemma click_app_unmarked: "unmarked click_app"
  by (simp add: unmarked_def click_app_def initial_app_def)

lemma same_marks_refl: "same_marks x x"
  by (simp add: same_marks_def)

theorem load_click_safe_witness:
  "\<exists>d \<in> set (status_list drives click_app). drive_index d = 0 \<and> drive_volume d = None"
proof -
  let ?v = "dds_tape\<lparr>cleaning := True\<rparr>" and ?a = "[''to'' \<mapsto> AStr (drive_key 0)]"
  let ?q = "load_request ''slot'' 7 (Some 0)"
  let ?p = "CleaningOp [0]" and ?e = "ElementOp (slot_key 7)"
  let ?tr = "[SDialog ''Load'' (Some ?a), SFetch ?q (Answered 204 [] None)]"
  have "exec (=) (mkBtn (load_click ''Load'' (slot_key 7) ''slot'' 7 ?v)) click_app ?tr [Refresh]
      (op_end ?e (op_end ?p (op_begin ?p (op_begin ?e click_app)))) (Done ())"
    by (simp add: load_click_def click_app_drives mkBtn_def exec_catch exec_choose_destination exec_element_request
        answer_text_def mark_index_def Let_def)
  from load_click_safe [OF this _ click_app_unmarked] show ?thesis
    by (auto simp: same_marks_refl click_app_drives click_app_simps choice_def answer_text_def)
qed

text \<open>
  The Move button: it sends at most one request, for the card's own cartridge and to a slot or I/O slot
  that the status the click saw shows empty; errors end in an alert and no busy mark stays.
\<close>

theorem move_click_safe:
  assumes "exec R (mkBtn (move_click title key k a)) s tr ts s' r"
    and "\<And>x y. R x y \<Longrightarrow> same_marks x y" and "unmarked s"
    and "\<And>v. SDialog title (Some v) \<in> set tr \<Longrightarrow> answer_text v ''to'' \<in> ch_value ` set (nonDriveMoveDestinationOptions s)"
  shows "r = Done () \<and> unmarked s' \<and>
     (requests tr = [] \<or>
      (\<exists>sl \<in> set (status_list slots s). slot_volume sl = None \<and>
         requests tr = [move_request k a (''slot'', Some (slot_address sl))]) \<or>
      (\<exists>io \<in> set (status_list ioslots s). io_volume io = None \<and>
         requests tr = [move_request k a (''ioslot'', Some (io_address io))]))"
proof (cases "nonDriveMoveDestinationOptions s = []")
  case True
  with assms(1,3) show ?thesis by (auto simp: move_click_def mkBtn_alert)
next
  case False
  note run = destination_click_run [OF _ assms(2,3), where tr = tr and ts = ts and s' = s' and r = r]
  from assms(1) False have "exec R (mkBtn (choose_destination title ''Destination'' (nonDriveMoveDestinationOptions s) (\<lambda>to.
      element_request key (DriveOp []) (move_request k a to)))) s tr ts s' r"
    by (simp add: move_click_def)
  from run [OF this] show ?thesis
    using nonDriveMove_target [OF assms(4)] by fastforce
qed


theorem move_click_safe_witness:
  "\<exists>sl \<in> set (status_list slots click_app). slot_address sl = 7 \<and> slot_volume sl = None"
proof -
  let ?a = "[''to'' \<mapsto> AStr (slot_key 7)]" and ?q = "move_request ''slot'' 3 (''slot'', Some 7)"
  let ?p = "DriveOp []" and ?e = "ElementOp (slot_key 3)"
  have opts: "nonDriveMoveDestinationOptions click_app = [choice (slot_key 7) (''Slot '' @ show_int 7)]"
    by (simp add: nonDriveMoveDestinationOptions_def emptySlotOptions_def emptyIOSlotOptions_def click_app_simps slot_disp_def)
  have "exec (=) (mkBtn (move_click ''Move'' (slot_key 3) ''slot'' 3)) click_app
      [SDialog ''Move'' (Some ?a), SFetch ?q (Answered 204 [] None)] [Refresh]
      (op_end ?e (op_end ?p (op_begin ?p (op_begin ?e click_app)))) (Done ())"
    by (simp add: move_click_def opts mkBtn_def exec_catch exec_choose_destination exec_element_request answer_text_def)
  from move_click_safe [OF this _ click_app_unmarked] show ?thesis
    by (auto simp: same_marks_refl opts click_app_simps choice_def answer_text_def)
qed

text \<open>
  C39: A card acts on the queue it was rendered with. Two tapes dropped on two slots of the same rendering (the
  second before the status has come back) leave only the second one staged; two loaded tapes dropped on the
  outside grid, whose handler reads the current queue, are both staged.
\<close>

theorem rendered_queue_loses_action:
  assumes "exec R (io_seq (slot_drop d queue a bc) (slot_drop d queue b bc')) s tr ts s' r" and "a \<noteq> b"
    and "exec R (io_seq (outside_drop m a) (outside_drop m b)) t tr' ts' t' r'"
  shows "staged_get (door_queue_of d s') = (staged_get queue)(b \<mapsto> Load bc') \<and>
     staged_get (door_queue_of d s') a = staged_get queue a \<and>
     staged_get (door_queue_of (Magazine m) t') = (staged_get (door_queue_of (Magazine m) t))(a \<mapsto> Pickup, b \<mapsto> Pickup)"
proof -
  have load: "staged_get (queueAction q ''load'' x y) = (staged_get q)(x \<mapsto> Load y)" for q x y
    using staged_get_stage [of x "Load y" q] by (simp add: stage_def)
  have pickup: "staged_get (queueAction q ''pickup'' x []) = (staged_get q)(x \<mapsto> Pickup)" for q x
    using staged_get_stage [of x Pickup q] by (simp add: stage_def)
  show ?thesis using assms
    by (auto simp: slot_drop_def outside_drop_def io_seq_def exec_bind exec_stage_and_refresh load pickup fun_upd_twist)
qed

theorem rendered_queue_loses_action_witness:
  "staged_get (door_queue_of (Magazine ''M1'') (set_door_queue (Magazine ''M1'') (queueAction [] ''load'' 2 ''B'')
     (set_door_queue (Magazine ''M1'') (queueAction [] ''load'' 1 ''A'') initial_app))) 1 = None"
proof -
  let ?t1 = "set_door_queue (Magazine ''M'') (queueAction (door_queue_of (Magazine ''M'') initial_app) ''pickup'' 1 []) initial_app"
  have "exec (=) (io_seq (slot_drop (Magazine ''M1'') [] 1 ''A'') (slot_drop (Magazine ''M1'') [] 2 ''B'')) initial_app [] [Refresh, Refresh]
      (set_door_queue (Magazine ''M1'') (queueAction [] ''load'' 2 ''B'')
        (set_door_queue (Magazine ''M1'') (queueAction [] ''load'' 1 ''A'') initial_app)) (Done ())"
    by (simp add: slot_drop_def io_seq_def exec_bind exec_stage_and_refresh)
  moreover have "exec (=) (io_seq (outside_drop ''M'' 1) (outside_drop ''M'' 2)) initial_app [] [Refresh, Refresh]
      (set_door_queue (Magazine ''M'') (queueAction (door_queue_of (Magazine ''M'') ?t1) ''pickup'' 2 []) ?t1) (Done ())"
    by (simp add: outside_drop_def io_seq_def exec_bind exec_stage_and_refresh)
  ultimately show ?thesis
    using rendered_queue_loses_action [of "(=)" "Magazine ''M1''" "[]" 1 "''A''" 2 "''B''" initial_app] by (fastforce simp: staged_get_None)
qed

text \<open>
  C24: Closing a door sends the queue the button was rendered with, once. When the server accepts it the staged
  queue is emptied and the status fetched again; when the request fails the error is shown and what is staged
  stays staged, so it can be sent again.
\<close>

theorem close_door_keeps_queue_on_error:
  assumes "exec R (mkBtn (close_door_click d queue)) s tr ts s' r"
    and "\<And>x y. R x y \<Longrightarrow> door_queue_of d y = door_queue_of d x"
  shows "\<exists>p. requests tr = [close_request d queue] \<and> answers tr = [p] \<and> r = Done () \<and>
     (if ok_answer p then door_queue_of d s' = [] \<and> Refresh \<in> set ts
      else (\<exists>e. SAlert e \<in> set tr) \<and> door_queue_of d s' = door_queue_of d s \<and> Refresh \<notin> set ts)"
proof -
  have keep: "door_queue_of d (drive_op_end [] x) = door_queue_of d x" "door_queue_of d (drive_op_begin [] x) = door_queue_of d x" for x
    by (cases d; simp add: drive_op_end_def drive_op_begin_def)+
  from assms(1) obtain p s1 where "R (drive_op_begin [] s) s1" and
    run: "(\<exists>b. answer_outcome p = Done b) \<and> tr = [SFetch (close_request d queue) p] \<and> ts = answer_starts p @ [Refresh] \<and>
        s' = set_door_queue d [] (drive_op_end [] s1) \<and> r = Done () \<or>
      (\<exists>e. answer_outcome p = Failed e \<and> tr = [SFetch (close_request d queue) p, SAlert e] \<and> ts = answer_starts p \<and>
        s' = drive_op_end [] s1 \<and> r = Done ())"
    by (auto simp: mkBtn_def exec_catch close_door_click_def io_seq_def exec_bind exec_drive_op_api door_done_def
        exec_stage_and_refresh)
  then have "door_queue_of d s1 = door_queue_of d s" using assms(2) by (simp add: keep)
  with run show ?thesis
    by (intro exI [of _ p]) (auto simp: ok_answer_outcome answer_starts_no_Refresh keep)
qed

theorem close_door_keeps_queue_on_error_witness:
  "door_queue_of (Magazine ''M1'') (drive_op_end [] (drive_op_begin []
     (set_door_queue (Magazine ''M1'') (queueAction [] ''load'' 1 ''A'') initial_app))) = queueAction [] ''load'' 1 ''A''"
proof -
  let ?d = "Magazine ''M1''" and ?q = "queueAction [] ''load'' 1 ''A''"
  let ?s = "set_door_queue ?d ?q initial_app"
  have "exec (=) (mkBtn (close_door_click ?d ?q)) ?s
      [SFetch (close_request ?d ?q) (NetworkError ''failed''), SAlert ''failed''] []
      (drive_op_end [] (drive_op_begin [] ?s)) (Done ())"
    by (auto simp: mkBtn_def exec_catch close_door_click_def io_seq_def exec_bind exec_drive_op_api)
  from close_door_keeps_queue_on_error [OF this] show ?thesis by (auto simp: ok_answer_def)
qed

text \<open>
  C25: Opening a PIN-protected door: the requests carry the operator's entries in order, one each, and stop at
  the first one accepted or cancelled; the door's queue is reset and the status fetched only if the last
  entry was accepted while its prompt was still open.
\<close>

theorem pin_door_opens_on_accepted_entry:
  assumes "exec R (mkBtn (open_door_click d True entries)) s tr ts s' r"
  shows "\<exists>n \<le> length entries. requests tr = map (\<lambda>e. open_request d (fst e)) (take n entries) \<and>
     length (answers tr) = n \<and>
     (\<forall>i. Suc i < n \<longrightarrow> \<not> ok_answer (answers tr ! i) \<and> \<not> snd (entries ! i)) \<and>
     (Refresh \<in> set ts \<longleftrightarrow> 0 < n \<and> ok_answer (answers tr ! (n - 1)) \<and> \<not> snd (entries ! (n - 1))) \<and>
     (Refresh \<in> set ts \<longrightarrow> door_queue_of d s' = []) \<and> r = Done ()"
proof -
  from assms obtain ok n where "tried d entries tr ok n" "r = Done ()"
    "Refresh \<in> set ts \<longleftrightarrow> ok" "ok \<Longrightarrow> door_queue_of d s' = []"
    by (auto simp: mkBtn_def exec_catch open_door_click_def exec_bind door_done_def exec_stage_and_refresh
        dest!: exec_pin_session split: if_splits)
  then show ?thesis unfolding tried_def by blast
qed


theorem pin_door_opens_on_accepted_entry_witness:
  "door_queue_of (Mailbox ''IO'') (set_door_queue (Mailbox ''IO'') []
     (drive_op_end [] (drive_op_begin [] (drive_op_end [] (drive_op_begin [] initial_app))))) = []"
proof -
  let ?d = "Mailbox ''IO''"
  let ?s1 = "drive_op_end [] (drive_op_begin [] initial_app)"
  let ?s2 = "drive_op_end [] (drive_op_begin [] ?s1)"
  let ?f1 = "SFetch (open_request ?d ''1111'') (Answered 403 ''Forbidden'' None)"
  let ?f2 = "SFetch (open_request ?d ''1234'') (Answered 204 [] None)"
  have a1: "exec (=) (pin_attempt ?d ''1111'') initial_app [?f1] [] ?s1 (Done False)"
    and a2: "exec (=) (pin_attempt ?d ''1234'') ?s1 [?f2] [] ?s2 (Done True)"
    by (auto simp: exec_pin_attempt ok_answer_def http_ok_def)
  have "exec (=) (pin_session ?d [(''1234'', False)]) ?s1 ([?f2] @ []) ([] @ []) ?s2 (Done True)"
    unfolding pin_session.simps by (rule exec_bindI [OF a2]) simp
  then have "exec (=) (pin_session ?d [(''1111'', False), (''1234'', False)]) initial_app ([?f1] @ [?f2]) ([] @ []) ?s2 (Done True)"
    unfolding pin_session.simps(2) [of ?d "''1111''"] by (intro exec_bindI [OF a1]) simp
  from exec_bindI [OF this, of "\<lambda>ok. if \<not> ok then Return () else door_done ?d" "[]" "[Refresh]" "set_door_queue ?d [] ?s2" "Done ()"]
  have "exec (=) (mkBtn (open_door_click ?d True [(''1111'', False), (''1234'', False)])) initial_app
      [?f1, ?f2] [Refresh] (set_door_queue ?d [] ?s2) (Done ())"
    by (simp add: mkBtn_def exec_catch open_door_click_def door_done_def exec_stage_and_refresh
        del: pin_session.simps set_door_queue.simps)
  from pin_door_opens_on_accepted_entry [OF this] show ?thesis by auto
qed

end
