(* ===== verification/Dashboard_View.thy ===== *)
theory Dashboard_View
  imports Dashboard_Actions Cartridge_Label Drive_Status Library_Owners Drag_Drop
begin

text \<open>
  What the dashboard shows: app.js \<open>renderDashboard\<close> with \<open>renderOutside\<close>, \<open>renderRobotStatus\<close>,
  \<open>renderDrives\<close>, \<open>renderIOSlots\<close>, \<open>renderSlots\<close> and the overlays, as a value computed from the page's
  state. A card is its HTML, border color, tooltip, overlays, buttons with their programs (the
  handlers of Dashboard_Actions), and what can be dragged from or dropped on it. A button's program takes
  the operator's PIN entries; only the door buttons use them. Layout whitespace is dropped.
\<close>

section \<open>Cards\<close>

datatype drag_item = TapeDrag string | LoadedDrag string int string

record button =
  b_label :: string
  b_click :: "(string \<times> bool) list \<Rightarrow> (app, unit) prog"

record card =
  card_class :: string
  card_border :: string
  card_tooltip :: "string option"
  card_html :: string
  card_switch :: "(app, unit) prog option"
  card_buttons :: "button list"
  card_overlays :: "string list"
  card_drag :: "drag_item option"
  card_drop :: "drag_item \<Rightarrow> (app, unit) prog option"

definition icon_drive :: string where
  "icon_drive = ''<svg class=\"icon\" viewBox=\"0 0 24 24\" aria-hidden=\"true\"><rect x=\"3\" y=\"6\" width=\"18\" height=\"12\" rx=\"1.5\"/><path d=\"M3 12h18\"/><circle cx=\"7\" cy=\"9\" r=\"0.8\" fill=\"currentColor\" stroke=\"none\"/><circle cx=\"7\" cy=\"15\" r=\"0.8\" fill=\"currentColor\" stroke=\"none\"/></svg>''"

definition icon_robot :: string where
  "icon_robot = ''<svg class=\"icon\" viewBox=\"0 0 24 24\" aria-hidden=\"true\"><circle cx=\"5\" cy=\"19\" r=\"2\"/><path d=\"M5 17V11h6l4-4h4\"/><circle cx=\"19\" cy=\"7\" r=\"1.6\"/><path d=\"M11 11l2 2\"/></svg>''"

definition icon_warning :: string where
  "icon_warning = ''<svg class=\"icon icon-sm\" viewBox=\"0 0 24 24\" aria-hidden=\"true\"><path d=\"M12 3l10 18H2L12 3z\"/><path d=\"M12 10v4M12 17.5h.01\"/></svg>''"

definition btn :: "string \<Rightarrow> (app, unit) prog \<Rightarrow> button" where
  "btn label onClick = \<lparr>b_label = label, b_click = (\<lambda>_. mkBtn onClick)\<rparr>"

definition no_drop :: "drag_item \<Rightarrow> (app, unit) prog option" where
  "no_drop p = None"

text \<open>A card of class \<open>card\<close>, or \<open>card empty\<close>, before anything else is attached.\<close>

definition blank_card :: "bool \<Rightarrow> card" where
  "blank_card occupied =
     \<lparr>card_class = (if occupied then ''card'' else ''card empty''), card_border = [], card_tooltip = None, card_html = [],
      card_switch = None, card_buttons = [], card_overlays = [], card_drag = None, card_drop = no_drop\<rparr>"

definition applyLibraryBorder :: "app \<Rightarrow> string option \<Rightarrow> card \<Rightarrow> card" where
  "applyLibraryBorder s color c =
     (if showLibraryColors s \<and> truthy color then c\<lparr>card_border := the color\<rparr> else c)"

text \<open>The switch of a cartridge label is there and enabled only for a data cartridge that can be reached.\<close>

definition wireWriteProtectSwitch :: "volume \<Rightarrow> bool \<Rightarrow> (app, unit) prog option" where
  "wireWriteProtectSwitch v editable =
     (if cleaning v \<or> \<not> editable then None else Some (mkBtn (write_protect_click (barcode v) (write_protected v))))"

definition volume_label :: "app \<Rightarrow> volume \<Rightarrow> bool \<Rightarrow> string" where
  "volume_label s v editable =
     cartridgeLabelHTML s (barcode v) (tape_set v) (if cleaning v then None else Some (write_protected v)) editable (Some v)"

definition bytes_html :: "volume \<Rightarrow> string" where
  "bytes_html v = fmtBytes (written_bytes v) @ '' / '' @ fmtBytes (capacity_bytes v) @
     (if full v then '' <span class=\"full\">FULL</span>'' else [])"

section \<open>Overlays\<close>

definition applyCardProcessingOverlay :: "app \<Rightarrow> string \<Rightarrow> string \<Rightarrow> bool \<Rightarrow> string list" where
  "applyCardProcessingOverlay s key label serverBusy =
     (let pending = key \<in> pendingElementOps s
      in if \<not> pending \<and> \<not> serverBusy then [] else [if pending then label else ''Busy'' @ ellipsis])"

definition applyCleaningOverlay :: "drive \<Rightarrow> string list" where
  "applyCleaningOverlay d = (if isDriveCleaning d then [''Cleaning'' @ ellipsis] else [])"

definition applyGroupLockOverlay :: "string option \<Rightarrow> string option" where
  "applyGroupLockOverlay phase = (if truthy phase then map_option phaseLabel phase else None)"

definition live_phases :: "app \<Rightarrow> status \<Rightarrow> (string \<rightharpoonup> string)" where
  "live_phases s st =
     (case doors st of None \<Rightarrow> Map.empty | Some d \<Rightarrow> (case phases d of None \<Rightarrow> Map.empty | Some m \<Rightarrow> m)) ++ doorPhases s"

definition live_busy :: "app \<Rightarrow> status \<Rightarrow> string set" where
  "live_busy s st = set (or_nil (busy_elements st)) \<union> busyElements s"

section \<open>Groups\<close>

text \<open>The loop that collects the slots by magazine (and the I/O slots by mailbox), groups in the order of
  their first slot.\<close>

fun add_to_group :: "string \<Rightarrow> 'e \<Rightarrow> (string \<times> 'e list) list \<Rightarrow> (string \<times> 'e list) list" where
  "add_to_group k x [] = [(k, [x])]"
| "add_to_group k x (g # gs) = (if fst g = k then (k, snd g @ [x]) # gs else g # add_to_group k x gs)"

definition groups_of :: "('e \<Rightarrow> string) \<Rightarrow> 'e list \<Rightarrow> (string \<times> 'e list) list" where
  "groups_of key es = fold (\<lambda>e gs. add_to_group (key e) e gs) es []"

definition group_shown :: "app \<Rightarrow> ('e \<Rightarrow> string option) \<Rightarrow> ('e \<Rightarrow> volume option) \<Rightarrow> 'e list \<Rightarrow> bool" where
  "group_shown s color vol es \<longleftrightarrow>
     \<not> (hideUnassigned s \<and> \<not> list_ex (\<lambda>e. truthy (color e)) es \<and> \<not> list_ex (\<lambda>e. vol e \<noteq> None) es)"

record group_view =
  gv_id :: string
  gv_title :: string
  gv_pill :: "(string \<times> string) option"
  gv_buttons :: "button list"
  gv_cards :: "card list"
  gv_lock :: "string option"

definition door_pill :: "bool \<Rightarrow> door_queue \<Rightarrow> string \<times> string" where
  "door_pill isOpen queue =
     (if isOpen then (''pill ok'', ''open ('' @ show_nat (length queue) @ '' queued)'') else (''pill err'', ''closed''))"

definition door_button :: "door \<Rightarrow> string \<Rightarrow> bool \<Rightarrow> bool \<Rightarrow> door_queue \<Rightarrow> button" where
  "door_button d what isOpen pin_required queue =
     \<lparr>b_label = (if isOpen then ''Close '' else ''Open '') @ what,
      b_click = (\<lambda>entries. mkBtn (door_click d isOpen pin_required queue entries))\<rparr>"

definition queued :: "door_queue \<Rightarrow> int \<Rightarrow> string \<Rightarrow> door_action option" where
  "queued queue a action = js_find (\<lambda>q. qa_address q = a \<and> qa_action q = action) queue"

text \<open>The Pickup button of an occupied card and the Load button of an empty one, behind an open door.\<close>

definition pickup_button :: "door \<Rightarrow> door_queue \<Rightarrow> int \<Rightarrow> button" where
  "pickup_button d queue a =
     (let selected = queued queue a ''pickup'' \<noteq> None
      in btn (if selected then ''Pickup queued'' else ''Pickup'') (pickup_click d queue selected a))"

definition load_tape_buttons :: "app \<Rightarrow> door \<Rightarrow> door_queue \<Rightarrow> string \<Rightarrow> int \<Rightarrow> button list" where
  "load_tape_buttons s d queue title a =
     (let opts = outsideOptions s; selected = queued queue a ''load''
      in if opts = [] then []
         else [btn (case selected of None \<Rightarrow> ''Load'' | Some q \<Rightarrow> ''Load queued ('' @ qa_barcode q @ '')'')
                 (load_tape_click d queue (selected \<noteq> None) title opts a)])"

section \<open>Storage slots\<close>

definition slot_buttons :: "app \<Rightarrow> string \<Rightarrow> bool \<Rightarrow> door_queue \<Rightarrow> slot \<Rightarrow> button list" where
  "slot_buttons s magId stOpen queue sl =
     (let a = slot_address sl
      in if \<not> can_operate s then []
         else case slot_volume sl of
           Some v \<Rightarrow>
             (if \<not> stOpen then
                [btn ''Move'' (move_click (''Move from storage slot '' @ slot_disp sl) (slot_key a) ''slot'' a),
                 btn ''Load'' (load_click (''Load storage slot '' @ slot_disp sl @ '' into drive'') (slot_key a) ''slot'' a v)]
              else [pickup_button (Magazine magId) queue a])
         | None \<Rightarrow>
             (if stOpen then load_tape_buttons s (Magazine magId) queue (''Load outside tape into slot '' @ slot_disp sl) a
              else []))"

definition slot_drag :: "app \<Rightarrow> string \<Rightarrow> bool \<Rightarrow> slot \<Rightarrow> drag_item option" where
  "slot_drag s magId stOpen sl =
     (if can_operate s \<and> stOpen then map_option (\<lambda>v. LoadedDrag magId (slot_address sl) (barcode v)) (slot_volume sl)
      else None)"

definition slot_drop_zone :: "app \<Rightarrow> string \<Rightarrow> bool \<Rightarrow> door_queue \<Rightarrow> slot \<Rightarrow> drag_item \<Rightarrow> (app, unit) prog option" where
  "slot_drop_zone s magId stOpen queue sl p =
     (case p of
        TapeDrag bc \<Rightarrow>
          (if can_operate s \<and> stOpen \<and> slot_volume sl = None
           then Some (slot_drop (Magazine magId) queue (slot_address sl) bc) else None)
      | LoadedDrag m a bc \<Rightarrow> None)"

definition slot_card :: "app \<Rightarrow> status \<Rightarrow> library_maps \<Rightarrow> string \<Rightarrow> bool \<Rightarrow> door_queue \<Rightarrow> slot \<Rightarrow> card" where
  "slot_card s st maps magId stOpen queue sl =
     (let a = slot_address sl; editable = (can_operate s \<and> stOpen)
      in applyLibraryBorder s (slotColor maps a)
        ((blank_card (slot_volume sl \<noteq> None))\<lparr>
           card_tooltip := applyCleaningTooltip (slot_volume sl) (cleaning_max_uses st),
           card_html := ''<div class=\"addr\">Slot '' @ slot_disp sl @ ''</div>'' @
             (case slot_volume sl of Some v \<Rightarrow> volume_label s v editable | None \<Rightarrow> ''<div>empty</div>''),
           card_switch := Option.bind (slot_volume sl) (\<lambda>v. wireWriteProtectSwitch v editable),
           card_drag := slot_drag s magId stOpen sl,
           card_drop := slot_drop_zone s magId stOpen queue sl,
           card_buttons := slot_buttons s magId stOpen queue sl,
           card_overlays := applyCardProcessingOverlay s (slot_key a) (''Processing'' @ ellipsis) (slot_key a \<in> live_busy s st)\<rparr>))"

definition magazine_open :: "status \<Rightarrow> string \<Rightarrow> bool" where
  "magazine_open st m = (case doors st of None \<Rightarrow> False | Some d \<Rightarrow> m \<in> set (or_nil (open_magazines d)))"

definition magazine_buttons :: "app \<Rightarrow> status \<Rightarrow> string \<Rightarrow> slot list \<Rightarrow> button list" where
  "magazine_buttons s st magId es =
     (let stOpen = magazine_open st magId; queue = door_queue_of (Magazine magId) s
      in if \<not> can_operate s then []
         else door_button (Magazine magId) ''storage door'' stOpen (magazine_pin_required st) queue #
           (if stOpen then [btn ''Bulk load...'' (bulk_load_click magId queue es),
                            btn ''Pickup all'' (pickup_all_click magId queue es)] else []))"

definition magazine_view :: "app \<Rightarrow> status \<Rightarrow> library_maps \<Rightarrow> string \<times> slot list \<Rightarrow> group_view" where
  "magazine_view s st maps g =
     (let magId = fst g; stOpen = magazine_open st magId; queue = door_queue_of (Magazine magId) s
      in \<lparr>gv_id = magId, gv_title = (if magId = [] then ''Unassigned'' else ''Magazine '' @ magId),
          gv_pill = (if can_operate s then Some (door_pill stOpen queue) else None),
          gv_buttons = magazine_buttons s st magId (snd g),
          gv_cards = map (slot_card s st maps magId stOpen queue) (snd g),
          gv_lock = applyGroupLockOverlay (live_phases s st (''magazine:'' @ magId))\<rparr>)"

definition shown_magazines :: "app \<Rightarrow> library_maps \<Rightarrow> slot list \<Rightarrow> (string \<times> slot list) list" where
  "shown_magazines s maps es =
     filter (\<lambda>g. group_shown s (\<lambda>e. slotColor maps (slot_address e)) slot_volume (snd g)) (groups_of magazine_id es)"

definition counts_summary :: "slot_counts \<Rightarrow> string" where
  "counts_summary c = ''slots: '' @ show_nat (sc_total c) @ '' empty: '' @ show_nat (sc_free c) @ '' full: '' @ show_nat (sc_occupied c)"

definition renderSlots :: "app \<Rightarrow> slot list \<Rightarrow> status \<Rightarrow> library_maps \<Rightarrow> group_view list \<times> string" where
  "renderSlots s es st maps =
     (map (magazine_view s st maps) (shown_magazines s maps es), counts_summary (computeSlotCounts slot_volume es))"


section \<open>I/O slots\<close>

definition io_buttons :: "app \<Rightarrow> string \<Rightarrow> bool \<Rightarrow> door_queue \<Rightarrow> ioslot \<Rightarrow> button list" where
  "io_buttons s mbId ioOpen queue io =
     (let a = io_address io
      in if \<not> can_operate s then []
         else case io_volume io of
           Some v \<Rightarrow>
             (if \<not> ioOpen then
                [btn ''Move'' (move_click (''Move from I/O slot '' @ io_disp io) (ioslot_key a) ''ioslot'' a),
                 btn ''Load'' (load_click (''Load I/O slot '' @ io_disp io @ '' into drive'') (ioslot_key a) ''ioslot'' a v)]
              else [pickup_button (Mailbox mbId) queue a])
         | None \<Rightarrow>
             (if ioOpen then load_tape_buttons s (Mailbox mbId) queue (''Load outside tape into IO slot '' @ io_disp io) a
              else []))"

definition io_card :: "app \<Rightarrow> status \<Rightarrow> library_maps \<Rightarrow> string \<Rightarrow> bool \<Rightarrow> door_queue \<Rightarrow> ioslot \<Rightarrow> card" where
  "io_card s st maps mbId ioOpen queue io =
     (let a = io_address io; editable = (can_operate s \<and> ioOpen)
      in applyLibraryBorder s (ioslotColor maps a)
        ((blank_card (io_volume io \<noteq> None))\<lparr>
           card_html := ''<div class=\"addr\">I/O Slot '' @ io_disp io @ ''</div>'' @
             (case io_volume io of Some v \<Rightarrow> volume_label s v editable | None \<Rightarrow> ''<div>empty</div>''),
           card_switch := Option.bind (io_volume io) (\<lambda>v. wireWriteProtectSwitch v editable),
           card_buttons := io_buttons s mbId ioOpen queue io,
           card_overlays := applyCardProcessingOverlay s (ioslot_key a) (''Processing'' @ ellipsis) (ioslot_key a \<in> live_busy s st)\<rparr>))"

definition mailbox_open :: "status \<Rightarrow> string \<Rightarrow> bool" where
  "mailbox_open st m = (case doors st of None \<Rightarrow> False | Some d \<Rightarrow> m \<in> set (or_nil (open_mailboxes d)))"

definition mailbox_pin :: "status \<Rightarrow> string \<Rightarrow> bool" where
  "mailbox_pin st m = (case mailbox_pin_required st of None \<Rightarrow> False | Some f \<Rightarrow> f m)"

definition mailbox_view :: "app \<Rightarrow> status \<Rightarrow> library_maps \<Rightarrow> string \<times> ioslot list \<Rightarrow> group_view" where
  "mailbox_view s st maps g =
     (let mbId = fst g; ioOpen = mailbox_open st mbId; queue = door_queue_of (Mailbox mbId) s
      in \<lparr>gv_id = mbId, gv_title = (if mbId = [] then ''Unassigned'' else ''Mailbox '' @ mbId),
          gv_pill = (if can_operate s then Some (door_pill ioOpen queue) else None),
          gv_buttons = (if can_operate s then [door_button (Mailbox mbId) ''mail slot'' ioOpen (mailbox_pin st mbId) queue] else []),
          gv_cards = map (io_card s st maps mbId ioOpen queue) (snd g),
          gv_lock = applyGroupLockOverlay (live_phases s st (''mailbox:'' @ mbId))\<rparr>)"

definition shown_mailboxes :: "app \<Rightarrow> library_maps \<Rightarrow> ioslot list \<Rightarrow> (string \<times> ioslot list) list" where
  "shown_mailboxes s maps es =
     filter (\<lambda>g. group_shown s (\<lambda>e. ioslotColor maps (io_address e)) io_volume (snd g)) (groups_of mailbox_id es)"

definition renderIOSlots :: "app \<Rightarrow> ioslot list \<Rightarrow> status \<Rightarrow> library_maps \<Rightarrow> group_view list \<times> string" where
  "renderIOSlots s es st maps =
     (map (mailbox_view s st maps) (shown_mailboxes s maps es), counts_summary (computeSlotCounts io_volume es))"

text \<open>Rendering also creates the missing queues of the groups it shows.\<close>

definition ensure_queues :: "string list \<Rightarrow> (string \<rightharpoonup> door_queue) \<Rightarrow> (string \<rightharpoonup> door_queue)" where
  "ensure_queues ids m = fold (\<lambda>i m. if m i = None then m(i \<mapsto> []) else m) ids m"

section \<open>Drives\<close>

definition drive_shown :: "app \<Rightarrow> library_maps \<Rightarrow> drive \<Rightarrow> bool" where
  "drive_shown s maps d \<longleftrightarrow>
     \<not> (hideUnassigned s \<and> \<not> truthy (driveColor maps (drive_index d)) \<and> drive_volume d = None)"

text \<open>A cleaning cartridge shows its remaining uses, any other drive the mounts left until it must be cleaned.\<close>

definition drive_tooltip :: "status \<Rightarrow> drive \<Rightarrow> string option" where
  "drive_tooltip st d =
     (if (case drive_volume d of Some v \<Rightarrow> cleaning v | None \<Rightarrow> False) then
        applyCleaningTooltip (drive_volume d) (cleaning_max_uses st)
      else if cleaning_enabled st then
        Some (''mounts until cleaning: '' @ show_nat (cleaning_mount_threshold st - mounts_since_cleaning d))
      else None)"

definition drive_html :: "app \<Rightarrow> drive \<Rightarrow> string" where
  "drive_html s d =
     (let ledState = driveLedState s d
      in ''<div class=\"addr\"><span class=\"led led-'' @ led_name ledState @ ''\" title=\"'' @ driveLedTitle ledState @ ''\"></span>'' @
         icon_drive @ ''Drive '' @ show_int (drive_index d) @ ''</div>'' @
         (if fault d then ''<div class=\"fault\">'' @ icon_warning @ ''FAULT</div>'' else []) @
         (case drive_volume d of
            Some v \<Rightarrow> volume_label s v False @ ''<div>'' @ bytes_html v @ ''</div>''
          | None \<Rightarrow> ''<div>empty</div>''))"

definition drive_buttons :: "app \<Rightarrow> drive \<Rightarrow> button list" where
  "drive_buttons s d =
     (if \<not> can_operate s then []
      else (if drive_volume d \<noteq> None then [btn ''Unload to...'' (unload_click (drive_index d))] else []) @
           [btn (if fault d then ''Clear fault'' else ''Raise fault'') (drive_fault_click (drive_index d) (fault d))])"

definition drive_card :: "app \<Rightarrow> status \<Rightarrow> library_maps \<Rightarrow> drive \<Rightarrow> card" where
  "drive_card s st maps d =
     (let key = drive_key (drive_index d)
      in applyLibraryBorder s (driveColor maps (drive_index d))
        ((blank_card (drive_volume d \<noteq> None))\<lparr>
           card_tooltip := drive_tooltip st d, card_html := drive_html s d,
           card_switch := Option.bind (drive_volume d) (\<lambda>v. wireWriteProtectSwitch v False),
           card_buttons := drive_buttons s d,
           card_overlays := applyCardProcessingOverlay s key (''Unloading'' @ ellipsis) (key \<in> live_busy s st) @
             applyCleaningOverlay d\<rparr>))"

definition drives_summary :: "drive_counts \<Rightarrow> string" where
  "drives_summary c =
     ''drives: '' @ show_nat (dc_total c) @ '' idle: '' @ show_nat (dc_idle c) @ '' active: '' @ show_nat (dc_active c) @
     '' loaded: '' @ show_nat (dc_idle c + dc_active c) @ '' empty: '' @ show_nat (dc_free c) @
     (if dc_fault c \<noteq> 0 then '' fault: '' @ show_nat (dc_fault c) else [])"

definition renderDrives :: "app \<Rightarrow> drive list \<Rightarrow> library_maps \<Rightarrow> status \<Rightarrow> card list \<times> string" where
  "renderDrives s ds maps st =
     (map (drive_card s st maps) (filter (drive_shown s maps) ds), drives_summary (computeDriveCounts ds))"

section \<open>Outside tapes, offsite tapes, robot\<close>

definition outside_card :: "app \<Rightarrow> volume \<Rightarrow> card" where
  "outside_card s v =
     (blank_card True)\<lparr>
        card_html := volume_label s v (can_operate s) @ ''<div>'' @ bytes_html v @
          (if cleaning v then '' <span class=\"cart-badge\">cleaning: '' @ or_else (cleaning_state v) ''available'' @ ''</span>'' else []) @
          ''</div>'',
        card_switch := wireWriteProtectSwitch v (can_operate s),
        card_drag := (if can_operate s then Some (TapeDrag (barcode v)) else None),
        card_buttons := (if can_operate s then [btn ''Delete'' (delete_outside_click (barcode v))] else [])\<rparr>"

definition outside_zone :: "app \<Rightarrow> drag_item \<Rightarrow> (app, unit) prog option" where
  "outside_zone s p =
     (case p of LoadedDrag m a bc \<Rightarrow> (if can_operate s then Some (outside_drop m a) else None) | TapeDrag bc \<Rightarrow> None)"

definition renderOutside :: "app \<Rightarrow> volume list \<Rightarrow> card list \<times> (drag_item \<Rightarrow> (app, unit) prog option) \<times> string" where
  "renderOutside s vols =
     (map (outside_card s) (sort_key barcode vols), outside_zone s, ''tapes: '' @ show_nat (length vols))"

definition robot_arm_state :: "app \<Rightarrow> status \<Rightarrow> arm_state" where
  "robot_arm_state s st =
     (case armState s of Some a \<Rightarrow> a
      | None \<Rightarrow> (case st_arm_state st of Some a \<Rightarrow> a | None \<Rightarrow> \<lparr>arm_busy = False, position = no_position\<rparr>))"

definition robot_html :: "app \<Rightarrow> status \<Rightarrow> robotic_fault \<Rightarrow> string" where
  "robot_html s st f =
     (let arm = robot_arm_state s st;
          busy = (arm_busy arm \<or> pendingRobotOps s > 0);
          ledState = (if fault_active f then ''fault'' else if busy then ''busy'' else ''idle'')
      in ''<div class=\"addr\"><span class=\"led led-'' @ ledState @ ''\"></span>'' @ icon_robot @ ''Robotic arm</div>'' @
         (if fault_active f then
            ''<div class=\"fault\">'' @ icon_warning @ ''FAULT: '' @
            (case map_of roboticFaultKinds (fault_kind f) of Some l \<Rightarrow> l | None \<Rightarrow> fault_kind f) @ ''</div>'' @
            (if fault_message f \<noteq> [] then ''<div>'' @ fault_message f @ ''</div>'' else [])
          else ''<div>Status: '' @ (if busy then ''Moving'' @ ellipsis else ''Idle'') @ ''</div>'') @
         ''<div>Current position: '' @ armPositionLabel (Some (position arm)) @ ''</div>'')"

definition no_fault :: robotic_fault where
  "no_fault = \<lparr>fault_active = False, fault_kind = [], fault_message = []\<rparr>"

definition renderRobotStatus :: "app \<Rightarrow> status \<Rightarrow> card" where
  "renderRobotStatus s st =
     (let f = (case robotic_fault st of Some f \<Rightarrow> f | None \<Rightarrow> no_fault)
      in (blank_card (fault_active f))\<lparr>
           card_html := robot_html s st f,
           card_buttons := (if \<not> can_operate s then []
             else if fault_active f then [btn ''Clear fault'' clear_fault_click]
             else [btn ''Raise fault'' raise_fault_click])\<rparr>)"


definition recall_click :: "string \<Rightarrow> (app, unit) prog" where
  "recall_click bc = Get (\<lambda>s.
     let opts = emptySlotOptions s
     in if opts = [] then alert ''No empty storage slots to recall into.''
        else Dialog (''Recall '' @ bc @ '' to'') [select_field ''dest'' ''Destination'' opts] (\<lambda>sel.
          case sel of
            None \<Rightarrow> Return ()
          | Some ans \<Rightarrow>
              (let to = parseMoveTarget (answer_text ans ''dest'')
               in io_seq (api (post_req ''/api/v1/offsite/recall''
                    (JObj ((''barcode'', JStr bc) # element_json ''to'' (fst to) (snd to)))))
                    (start Refresh))))"

definition offsite_card :: "app \<Rightarrow> volume \<Rightarrow> card" where
  "offsite_card s v =
     (blank_card True)\<lparr>
        card_html := volume_label s v (can_operate s) @ ''<div>'' @ fmtBytes (written_bytes v) @ '' / '' @
          fmtBytes (capacity_bytes v) @ ''</div>'',
        card_switch := wireWriteProtectSwitch v (can_operate s),
        card_buttons := [btn ''Recall'' (recall_click (barcode v))]\<rparr>"

definition renderOffsite :: "app \<Rightarrow> volume list \<Rightarrow> card list \<times> string" where
  "renderOffsite s vols = (map (offsite_card s) vols, ''tapes: '' @ show_nat (length vols))"

text \<open>The button that sends a cartridge offsite; its options are the occupied slots.\<close>

definition send_options :: "app \<Rightarrow> choice list" where
  "send_options s =
     List.map_filter (\<lambda>sl. map_option (\<lambda>v. choice (show_int (slot_address sl)) (''Slot '' @ slot_disp sl @ '' ('' @ barcode v @ '')''))
         (slot_volume sl))
       (sort_key slot_address (status_list slots s))"

definition offsite_send_click :: "(app, unit) prog" where
  "offsite_send_click = Get (\<lambda>s.
     let opts = send_options s
     in if opts = [] then alert ''No volumes in storage slots to send offsite.''
        else Dialog ''Send to offsite vault'' [select_field ''slot'' ''Slot'' opts] (\<lambda>v.
          case v of
            None \<Rightarrow> Return ()
          | Some ans \<Rightarrow>
              mkBtn (io_seq (api (post_req ''/api/v1/offsite/send''
                  (JObj (element_json ''from'' ''slot'' (js_number (answer_text ans ''slot''))))))
                (start Refresh))))"

section \<open>The dashboard\<close>

text \<open>
  The buttons in the heads of the panels that act on the library (index.html): they are part of the page itself, for
  every role, and a panel that is hidden hides its own. The head's other controls (collapse, drag handle) are in Panels.
\<close>

definition head_buttons :: "status \<Rightarrow> (string \<times> string) list" where
  "head_buttons st = [(''outside'', ''Create tape'')] @ (if offsite_enabled st then [(''offsite'', ''Send to offsite'')] else [])"

record dashboard =
  db_heads :: "(string \<times> string) list"
  db_outside :: "card list \<times> (drag_item \<Rightarrow> (app, unit) prog option) \<times> string"
  db_offsite :: "(card list \<times> string) option"
  db_robot :: card
  db_drives :: "card list \<times> string"
  db_mailboxes :: "group_view list \<times> string"
  db_magazines :: "group_view list \<times> string"

text \<open>The library statistics, the remaining part, are \<open>renderLibraryStats\<close>.\<close>

definition renderDashboard :: "app \<Rightarrow> dashboard option" where
  "renderDashboard s =
     (case status_of s of
        None \<Rightarrow> None
      | Some st \<Rightarrow>
          (let maps = buildLibraryMaps (logicalLibraries s)
           in Some \<lparr>db_heads = head_buttons st, db_outside = renderOutside s (or_nil (outside_volumes st)),
                db_offsite = (if offsite_enabled st then Some (renderOffsite s (or_nil (offsite_volumes st))) else None),
                db_robot = renderRobotStatus s st,
                db_drives = renderDrives s (or_nil (drives st)) maps st,
                db_mailboxes = renderIOSlots s (or_nil (ioslots st)) st maps,
                db_magazines = renderSlots s (or_nil (slots st)) st maps\<rparr>))"

text \<open>What rendering writes back to the page's state.\<close>

definition rendered_app :: "app \<Rightarrow> app" where
  "rendered_app s =
     (case status_of s of
        None \<Rightarrow> s
      | Some st \<Rightarrow>
          (let maps = buildLibraryMaps (logicalLibraries s)
           in s\<lparr>mailboxQueues := ensure_queues (map fst (shown_mailboxes s maps (or_nil (ioslots st)))) (mailboxQueues s),
                storageQueues := ensure_queues (map fst (shown_magazines s maps (or_nil (slots st)))) (storageQueues s)\<rparr>))"


section \<open>Groups partition the elements\<close>

lemma fst_add_to_group:
  "map fst (add_to_group k x gs) = (if k \<in> fst ` set gs then map fst gs else map fst gs @ [k])"
  by (induction gs) auto

lemma mset_add_to_group: "mset (concat (map snd (add_to_group k x gs))) = add_mset x (mset (concat (map snd gs)))"
  by (induction gs) auto

lemma in_add_to_group:
  "distinct (map fst gs) \<Longrightarrow> g \<in> set (add_to_group k x gs) \<Longrightarrow>
     (fst g \<noteq> k \<and> g \<in> set gs) \<or> (\<exists>xs. (k, xs) \<in> set gs \<and> g = (k, xs @ [x])) \<or> (k \<notin> fst ` set gs \<and> g = (k, [x]))"
  by (induction gs) (auto split: if_splits simp: image_iff)

lemma groups_of_snoc: "groups_of key (es @ [e]) = add_to_group (key e) e (groups_of key es)"
  by (simp add: groups_of_def)

lemma fst_set_add_to_group: "fst ` set (add_to_group k x gs) = insert k (fst ` set gs)"
  by (induction gs) auto

lemma groups_of_keys: "fst ` set (groups_of key es) = key ` set es"
  by (induction es rule: rev_induct) (simp_all add: groups_of_snoc fst_set_add_to_group, simp add: groups_of_def)

lemma groups_of_distinct: "distinct (map fst (groups_of key es))"
  by (induction es rule: rev_induct) (simp_all add: groups_of_snoc fst_add_to_group, simp add: groups_of_def)

lemma groups_of_mset: "mset (concat (map snd (groups_of key es))) = mset es"
  by (induction es rule: rev_induct) (simp_all add: groups_of_snoc mset_add_to_group, simp add: groups_of_def)

lemma groups_of_filter: "g \<in> set (groups_of key es) \<Longrightarrow> snd g = filter (\<lambda>e. key e = fst g) es"
proof (induction es arbitrary: g rule: rev_induct)
  case Nil
  then show ?case by (simp add: groups_of_def)
next
  case (snoc e es)
  note ids = groups_of_keys [of key es]
  from in_add_to_group [OF groups_of_distinct snoc.prems [unfolded groups_of_snoc]]
  consider "fst g \<noteq> key e" "g \<in> set (groups_of key es)"
    | xs where "(key e, xs) \<in> set (groups_of key es)" "g = (key e, xs @ [e])"
    | "key e \<notin> key ` set es" "g = (key e, [e])"
    unfolding ids by blast
  then show ?case
  proof cases
    case 1
    then show ?thesis using snoc.IH [of g] by simp
  next
    case 2
    then show ?thesis using snoc.IH [of "(key e, xs)"] by simp
  next
    case 3
    then have "key x \<noteq> key e" if "x \<in> set es" for x using that by (metis imageI)
    with 3 show ?thesis by simp
  qed
qed

lemma concat_filter_mset:
  assumes "\<And>g x. g \<in> set gs \<Longrightarrow> x \<in> set (snd g) \<Longrightarrow> P g \<longleftrightarrow> Q x"
  shows "mset (concat (map snd (filter P gs))) = filter_mset Q (mset (concat (map snd gs)))"
  using assms
proof (induction gs)
  case (Cons g gs)
  then have IH: "mset (concat (map snd (filter P gs))) = filter_mset Q (mset (concat (map snd gs)))" by simp
  have "filter_mset Q (mset (snd g)) = (if P g then mset (snd g) else {#})"
    using Cons.prems [of g] by (cases "P g") (simp_all flip: mset_filter)
  then show ?case by (simp add: IH)
qed simp

lemma shown_groups_mset:
  "mset (concat (map snd (filter (\<lambda>g. ok (snd g)) (groups_of key es)))) =
     filter_mset (\<lambda>x. ok (filter (\<lambda>e. key e = key x) es)) (mset es)"
proof -
  have "ok (snd g) \<longleftrightarrow> ok (filter (\<lambda>e. key e = key x) es)" if "g \<in> set (groups_of key es)" "x \<in> set (snd g)" for g x
    using groups_of_filter [OF that(1)] that(2) by auto
  then have "mset (concat (map snd (filter (\<lambda>g. ok (snd g)) (groups_of key es)))) =
      filter_mset (\<lambda>x. ok (filter (\<lambda>e. key e = key x) es)) (mset (concat (map snd (groups_of key es))))"
    by (rule concat_filter_mset)
  then show ?thesis by (simp only: groups_of_mset)
qed

lemma mkBtn_requests:
  assumes "exec R (mkBtn m) s tr ts s' r" and "\<And>tr ts s' r. exec R m s tr ts s' r \<Longrightarrow> requests tr = []"
  shows "requests tr = []"
  using assms(1) by (auto simp: mkBtn_def exec_catch dest: assms(2))

lemma load_tape_click_requests: "exec R (load_tape_click d q sel title opts a) s tr ts s' r \<Longrightarrow> requests tr = []"
proof (cases sel)
  case False
  assume "exec R (load_tape_click d q sel title opts a) s tr ts s' r"
  with False obtain s1 v tr1 where tr: "tr = SDialog title v # tr1" and
    rest: "exec R (case v of None \<Rightarrow> Return () | Some ans \<Rightarrow> if answer_text ans ''barcode'' = [] then Return ()
      else stage_and_refresh d (queueAction q ''load'' a (answer_text ans ''barcode''))) s1 tr1 ts s' r"
    by (auto simp: load_tape_click_def)
  from rest have "tr1 = []" by (cases v) (auto simp: exec_stage_and_refresh split: if_splits)
  then show ?thesis by (simp add: tr)
qed (simp add: load_tape_click_def exec_stage_and_refresh)

lemma stage_click_requests:
  "exec R (mkBtn (pickup_click d q sel a)) s tr ts s' r \<Longrightarrow> requests tr = []"
  "exec R (mkBtn (load_tape_click d q sel title opts a)) s tr ts s' r \<Longrightarrow> requests tr = []"
  by (erule mkBtn_requests, simp add: pickup_click_def exec_stage_and_refresh)
     (erule mkBtn_requests, rule load_tape_click_requests)

lemma robot_click_keeps_queues:
  "keeps (\<lambda>x. door_queue_of d x = q) (mkBtn (move_click title key kind a))"
  "keeps (\<lambda>x. door_queue_of d x = q) (mkBtn (load_click title key kind a v))"
proof -
  have same: "door_queue_of d (element_op_begin key x) = door_queue_of d x" "door_queue_of d (element_op_end key x) = door_queue_of d x"
    "door_queue_of d (drive_op_begin ixs x) = door_queue_of d x" "door_queue_of d (drive_op_end ixs x) = door_queue_of d x"
    "door_queue_of d (cleaning_op_begin ixs x) = door_queue_of d x" "door_queue_of d (cleaning_op_end ixs x) = door_queue_of d x"
    for key ixs x
    by (cases d; simp add: element_op_begin_def element_op_end_def drive_op_begin_def drive_op_end_def cleaning_op_begin_def
        cleaning_op_end_def)+
  have request: "keeps (\<lambda>x. door_queue_of d x = q) (element_request key p rq)" for key p rq
    by (cases p) (auto simp: element_request_def withElementOp_def withDriveOp_def withCleaningOp_def same intro!: keeps_intros)
  have choose: "keeps (\<lambda>x. door_queue_of d x = q) (choose_destination title label opts (\<lambda>to. element_request key (p to) (rq to)))"
    for title label opts key p rq
    unfolding choose_destination_def by (rule keeps_Dialog) (simp add: request keeps_Return split: option.split)
  show "keeps (\<lambda>x. door_queue_of d x = q) (mkBtn (move_click title key kind a))"
    unfolding mkBtn_def move_click_def Let_def
    by (intro keeps_catch keeps_Get keeps_alert) (simp add: choose keeps_alert)
  show "keeps (\<lambda>x. door_queue_of d x = q) (mkBtn (load_click title key kind a v))"
    unfolding mkBtn_def load_click_def Let_def
    by (intro keeps_catch keeps_Get keeps_alert) (simp add: choose keeps_alert)
qed

section \<open>Properties\<close>

text \<open>
  C22: The storage panel shows every slot at most once and hides none that matters: a magazine's slots are
  shown together or not at all, and with "hide unassigned" on, a slot that holds a cartridge or belongs to a
  logical library is still shown, exactly as often as the status lists it.
\<close>

theorem storage_panel_complete:
  "mset (concat (map snd (shown_magazines s maps es))) =
     filter_mset (\<lambda>sl. group_shown s (\<lambda>e. slotColor maps (slot_address e)) slot_volume
        (filter (\<lambda>e. magazine_id e = magazine_id sl) es)) (mset es) \<and>
   distinct (map fst (shown_magazines s maps es)) \<and>
   (\<forall>sl \<in> set es. slot_volume sl \<noteq> None \<or> truthy (slotColor maps (slot_address sl)) \<or> \<not> hideUnassigned s \<longrightarrow>
      count (mset (concat (map snd (shown_magazines s maps es)))) sl = count (mset es) sl)"
proof -
  let ?ok = "group_shown s (\<lambda>e. slotColor maps (slot_address e)) slot_volume"
  have m: "mset (concat (map snd (shown_magazines s maps es))) =
      filter_mset (\<lambda>sl. ?ok (filter (\<lambda>e. magazine_id e = magazine_id sl) es)) (mset es)"
    unfolding shown_magazines_def by (rule shown_groups_mset)
  have "distinct (map fst (shown_magazines s maps es))"
    by (simp add: shown_magazines_def distinct_map_filter_key groups_of_distinct)
  moreover have "?ok (filter (\<lambda>e. magazine_id e = magazine_id sl) es)"
    if "sl \<in> set es" "slot_volume sl \<noteq> None \<or> truthy (slotColor maps (slot_address sl)) \<or> \<not> hideUnassigned s" for sl
    using that by (auto simp: group_shown_def list_ex_iff)
  ultimately show ?thesis unfolding m by (auto simp: count_filter_mset)
qed

definition two_slots :: "slot list" where
  "two_slots = [\<lparr>slot_address = 1, slot_label = [], magazine_id = ''M1'', slot_volume = Some dds_tape\<rparr>,
     \<lparr>slot_address = 2, slot_label = [], magazine_id = ''M2'', slot_volume = None\<rparr>]"

definition no_maps :: library_maps where
  "no_maps = \<lparr>driveColor = Map.empty, slotColor = Map.empty, ioslotColor = Map.empty\<rparr>"

theorem storage_panel_complete_witness:
  "count (mset (concat (map snd (shown_magazines (initial_app\<lparr>hideUnassigned := True\<rparr>) no_maps two_slots)))) (two_slots ! 0) = 1"
proof -
  have "two_slots ! 0 \<in> set two_slots" "slot_volume (two_slots ! 0) \<noteq> None" by (simp_all add: two_slots_def)
  then have "count (mset (concat (map snd (shown_magazines (initial_app\<lparr>hideUnassigned := True\<rparr>) no_maps two_slots)))) (two_slots ! 0) =
      count (mset two_slots) (two_slots ! 0)"
    using storage_panel_complete [of "initial_app\<lparr>hideUnassigned := True\<rparr>" no_maps two_slots] by blast
  then show ?thesis by (simp add: two_slots_def)
qed


definition open_status :: status where
  "open_status = small_status\<lparr>doors := Some \<lparr>open_magazines = Some [''M1''], open_mailboxes = None, phases = None\<rparr>\<rparr>"

definition operator_app :: app where
  "operator_app = initial_app\<lparr>role := ''operator''\<rparr>"


text \<open>Every button of the rendered panels and their heads that acts on the library.\<close>

definition dashboard_buttons :: "dashboard \<Rightarrow> string list" where
  "dashboard_buttons db =
     map snd (db_heads db) @
     map b_label (concat (map card_buttons (fst (db_outside db) @ db_robot db # fst (db_drives db) @
       concat (map gv_cards (fst (db_mailboxes db) @ fst (db_magazines db))))) @
       concat (map gv_buttons (fst (db_mailboxes db) @ fst (db_magazines db))) @
       (case db_offsite db of None \<Rightarrow> [] | Some cs \<Rightarrow> concat (map card_buttons (fst cs))))"

text \<open>The cards of a user who may not operate the library: no switch, nothing to drag or drop on, and no button but Recall.\<close>

definition inert :: "card \<Rightarrow> bool" where
  "inert c \<longleftrightarrow> card_switch c = None \<and> card_drag c = None \<and> (\<forall>p. card_drop c p = None)"

lemma no_switch: "wireWriteProtectSwitch v False = None" "Option.bind vo (\<lambda>v. None) = None"
  by (simp_all add: wireWriteProtectSwitch_def bind_eq_None_conv)

lemma viewer_cards:
  assumes "\<not> can_operate s"
  shows "inert (slot_card s st maps m op q sl)" "card_buttons (slot_card s st maps m op q sl) = []"
    "inert (io_card s st maps m op q x)" "card_buttons (io_card s st maps m op q x) = []"
    "inert (drive_card s st maps d)" "card_buttons (drive_card s st maps d) = []"
    "inert (outside_card s v)" "card_buttons (outside_card s v) = []"
    "inert (renderRobotStatus s st)" "card_buttons (renderRobotStatus s st) = []"
    "inert (offsite_card s v)" "map b_label (card_buttons (offsite_card s v)) = [''Recall'']"
proof -
  note hidden = assms inert_def Let_def applyLibraryBorder_def no_switch blank_card_def no_drop_def
  show "inert (slot_card s st maps m op q sl)" "card_buttons (slot_card s st maps m op q sl) = []"
    by (simp_all add: hidden slot_card_def slot_buttons_def slot_drag_def slot_drop_zone_def split: drag_item.split)
  show "inert (io_card s st maps m op q x)" "card_buttons (io_card s st maps m op q x) = []"
    by (simp_all add: hidden io_card_def io_buttons_def)
  show "inert (drive_card s st maps d)" "card_buttons (drive_card s st maps d) = []"
    by (simp_all add: hidden drive_card_def drive_buttons_def)
  show "inert (outside_card s v)" "card_buttons (outside_card s v) = []" by (simp_all add: hidden outside_card_def)
  show "inert (renderRobotStatus s st)" "card_buttons (renderRobotStatus s st) = []" by (simp_all add: hidden renderRobotStatus_def)
  show "inert (offsite_card s v)" "map b_label (card_buttons (offsite_card s v)) = [''Recall'']"
    by (simp_all add: hidden offsite_card_def btn_def)
qed

text \<open>
  C26: What a user who may not operate the library can still press on the dashboard. No card and no group has a switch or
  a drag and drop action for such a user, and the buttons that act on the library are exactly these: Create tape in the
  head of the outside panel, and when the offsite panel is shown, Send to offsite in its head and one Recall per cartridge
  in it. The server refuses all three to this role.
\<close>

theorem viewer_buttons:
  assumes "renderDashboard s = Some db" and "\<not> can_operate s"
  shows "dashboard_buttons db = ''Create tape'' #
       (case db_offsite db of None \<Rightarrow> [] | Some cs \<Rightarrow> ''Send to offsite'' # map (\<lambda>c. ''Recall'') (fst cs)) \<and>
     (\<forall>c \<in> set (fst (db_outside db) @ db_robot db # fst (db_drives db) @
        concat (map gv_cards (fst (db_mailboxes db) @ fst (db_magazines db))) @ (case db_offsite db of None \<Rightarrow> [] | Some cs \<Rightarrow> fst cs)).
        card_switch c = None \<and> card_drag c = None \<and> (\<forall>p. card_drop c p = None)) \<and>
     (\<forall>p. fst (snd (db_outside db)) p = None)"
proof -
  note slot = viewer_cards(1,2) [OF assms(2)] and io = viewer_cards(3,4) [OF assms(2)] and drive = viewer_cards(5,6) [OF assms(2)]
    and outside = viewer_cards(7,8) [OF assms(2)] and robot = viewer_cards(9,10) [OF assms(2)] and offsite = viewer_cards(11,12) [OF assms(2)]
  have labels: "map b_label (concat (map (card_buttons \<circ> offsite_card s) vs)) = map (\<lambda>v. ''Recall'') vs" for vs
    by (induction vs) (simp_all add: offsite)
  obtain st where st: "status_of s = Some st" using assms(1) by (auto simp: renderDashboard_def split: option.splits)
  let ?groups = "fst (db_mailboxes db) @ fst (db_magazines db)"
  have db: "db_heads db = head_buttons st" "fst (db_outside db) = map (outside_card s) (sort_key barcode (or_nil (outside_volumes st)))"
    "fst (snd (db_outside db)) = outside_zone s"
    "db_robot db = renderRobotStatus s st" "\<exists>ds. fst (db_drives db) = map (drive_card s st (buildLibraryMaps (logicalLibraries s))) ds"
    "db_offsite db = (if offsite_enabled st then Some (renderOffsite s (or_nil (offsite_volumes st))) else None)"
    using assms(1) st by (auto simp: renderDashboard_def Let_def renderOutside_def renderDrives_def)
  have groups: "gv_buttons g = []" "\<And>c. c \<in> set (gv_cards g) \<Longrightarrow> inert c \<and> card_buttons c = []" if "g \<in> set ?groups" for g
    using that assms(1) st slot io by (auto simp: renderDashboard_def Let_def renderIOSlots_def renderSlots_def magazine_view_def
        mailbox_view_def magazine_buttons_def assms(2))
  have none_elsewhere: "concat (map card_buttons (fst (db_outside db) @ db_robot db # fst (db_drives db) @
      concat (map gv_cards ?groups))) = []" "concat (map gv_buttons ?groups) = []"
    using groups outside drive robot db by auto
  have "dashboard_buttons db = ''Create tape'' #
       (case db_offsite db of None \<Rightarrow> [] | Some cs \<Rightarrow> ''Send to offsite'' # map (\<lambda>c. ''Recall'') (fst cs))"
    unfolding dashboard_buttons_def none_elsewhere
    by (simp add: db(1,6) head_buttons_def renderOffsite_def labels)
  moreover have "\<forall>p. fst (snd (db_outside db)) p = None"
    using assms(2) by (simp add: db(3) outside_zone_def split: drag_item.split)
  moreover have "\<forall>c \<in> set (fst (db_outside db) @ db_robot db # fst (db_drives db) @ concat (map gv_cards ?groups) @
        (case db_offsite db of None \<Rightarrow> [] | Some cs \<Rightarrow> fst cs)). inert c"
    using groups outside drive robot offsite db by (auto simp: renderOffsite_def)
  ultimately show ?thesis unfolding inert_def by (intro conjI)
qed

theorem viewer_buttons_witness:
  "\<exists>db. renderDashboard (initial_app\<lparr>status_of := Some (small_status\<lparr>offsite_enabled := True, offsite_volumes := Some [dds_tape]\<rparr>)\<rparr>) = Some db \<and>
     dashboard_buttons db = [''Create tape'', ''Send to offsite'', ''Recall'']"
proof -
  let ?s = "initial_app\<lparr>status_of := Some (small_status\<lparr>offsite_enabled := True, offsite_volumes := Some [dds_tape]\<rparr>)\<rparr>"
  have "\<not> can_operate ?s" by (simp add: can_operate_def initial_app_def)
  moreover obtain db where db: "renderDashboard ?s = Some db" by (simp add: renderDashboard_def Let_def)
  moreover from db have "\<exists>x n. db_offsite db = Some ([x], n)"
    by (auto simp: renderDashboard_def Let_def renderOffsite_def)
  ultimately show ?thesis using viewer_buttons [of ?s db] by auto
qed

end
