(* ===== verification/Bareos_Config.thy ===== *)
theory Bareos_Config
  imports Library_Owners
begin

text \<open>
  The configuration texts the Admin pages show for copying: app.js \<open>buildBareosConfig\<close> in its two variants
  and \<open>buildKernelModeSetup\<close>, and the renumbering of drives both sides must agree on
  (internal/addressing/addressing.go \<open>Build\<close>, \<open>Physical\<close>, \<open>PhysicalDrive\<close>). A text is its list of lines;
  \<open>bareos_resources\<close> reads the resources back out of a text.
\<close>

section \<open>The texts\<close>

definition newline :: char where
  "newline = CHR 0x0A"

definition sorted_drives :: "logical_library \<Rightarrow> drive list" where
  "sorted_drives lib = sort_key drive_index (or_nil (lib_drives lib))"

definition drive_name :: "drive \<Rightarrow> string" where
  "drive_name d = ''Drive'' @ show_int (drive_index d)"

definition no_drives_warning :: "drive list \<Rightarrow> string list" where
  "no_drives_warning ds =
     (if ds = [] then
        [''# WARNING: this logical library has no drives assigned yet -'',
         ''# Bareos needs at least one Device to use it. Assign a drive via Edit first.'', []]
      else [])"

definition vtl_note :: "string \<Rightarrow> string" where
  "vtl_note vtlName = (if vtlName \<noteq> [] then '' (VTL: '' @ vtlName @ '')'' else [])"

definition config_title :: "logical_library \<Rightarrow> string \<Rightarrow> string" where
  "config_title lib vtlName =
     ''# Storage daemon config for logical library \"'' @ lib_name lib @ ''\"'' @ vtl_note vtlName"

definition config_sizes :: "logical_library \<Rightarrow> drive list \<Rightarrow> string" where
  "config_sizes lib ds =
     ''# '' @ show_nat (length ds) @ '' drive(s), '' @ show_nat (length (or_nil (lib_slots lib))) @ '' storage slot(s), '' @
     show_nat (length (or_nil (lib_io_slots lib))) @ '' I/O slot(s)''"

definition autochanger_block :: "logical_library \<Rightarrow> drive list \<Rightarrow> string \<Rightarrow> string \<Rightarrow> string list" where
  "autochanger_block lib ds device command =
     [''Autochanger {'', ''  Name = '' @ lib_name lib, ''  Device = '' @ join '', '' (map drive_name ds),
      ''  Changer Device = '' @ device, ''  Changer Command = \"'' @ command @ ''\"'', ''}'']"

definition device_block :: "string \<Rightarrow> string \<Rightarrow> string \<Rightarrow> nat \<times> drive \<Rightarrow> string list" where
  "device_block media archive dtype pd =
     [[], ''Device {'', ''  Name = '' @ drive_name (snd pd), ''  Drive Index = '' @ show_nat (fst pd),
      ''  Media Type = '' @ media, ''  Archive Device = '' @ archive, ''  Device Type = '' @ dtype,
      ''  AutomaticMount = yes'', ''  RemovableMedia = yes'', ''  AutoChanger = yes'', ''}'']"

definition storage_block :: "logical_library \<Rightarrow> drive list \<Rightarrow> string \<Rightarrow> string list" where
  "storage_block lib ds media =
     [[], ''# Director-side (bareos-dir.conf) - fill in Address/SD Port/Password'',
      ''# to match the Storage Daemon this logical library is running on:'', ''Storage {'',
      ''  Name = '' @ lib_name lib, ''  Address = <storage-daemon-hostname>'', ''  SD Port = <storage-daemon-port>'',
      ''  Password = \"<matches the Storage Daemon's password for this Storage>\"'', ''  Device = '' @ lib_name lib,
      ''  Media Type = '' @ media, ''  Autochanger = yes'', ''  Maximum Concurrent Jobs = '' @ show_nat (length ds), ''}'']"

definition changer_mode_lines :: "logical_library \<Rightarrow> string \<Rightarrow> string list" where
  "changer_mode_lines lib vtlName =
     (let ds = sorted_drives lib
      in no_drives_warning ds @ [config_title lib vtlName, config_sizes lib ds, []] @
         autochanger_block lib ds ''/dev/null              # unused, kept for compatibility''
           (''/usr/bin/gotochanger-changer %c %o %S %a %d %V --logical-library='' @ lib_name lib) @
         concat (map (\<lambda>pd. device_block ''File'' (device_path (snd pd)) ''File'' pd) (enumerate 0 ds)) @
         storage_block lib ds ''File'')"

definition buildBareosConfigChangerMode :: "logical_library \<Rightarrow> string \<Rightarrow> string" where
  "buildBareosConfigChangerMode lib vtlName = join [newline] (changer_mode_lines lib vtlName)"


text \<open>Kernel mode: the report of the library's gotochanger-tcmud instance, when there is one.\<close>

definition report_note :: "string \<Rightarrow> device_report option \<Rightarrow> string list" where
  "report_note instance_name report =
     (if report \<noteq> None then
        [''# Real device paths below, as last reported by the running'',
         ''# gotochanger-tcmud@'' @ instance_name @ ''.service instance - preferring the stable'',
         ''# /dev/tape/by-id/... path (survives a gotochanger-tcmud restart) over'',
         ''# the raw /dev/sgN/dev/nstN path (does not) when both are known.'']
      else
        [''# Requires: systemctl enable --now gotochanger-tcmud@'' @ instance_name @ ''.service'',
         ''# (see the \"Kernel Mode Setup\" button) BEFORE the device paths below'',
         ''# exist. Once running, this dialog will show the real, stable'',
         ''# /dev/tape/by-id/... paths automatically - no manual lookup needed.'',
         ''# If they're still missing after that, find the raw paths with:'',
         ''#   lsscsi -g | grep GOTOCHNG'',
         ''#   sg_inq /dev/sgN            # confirms changer vs. a specific drive''])"

definition report_changer :: "device_report option \<Rightarrow> string" where
  "report_changer report =
     (let reported = (case report of None \<Rightarrow> [] | Some r \<Rightarrow> or_else (changer_stable r) (changer r))
      in or_else reported ''<this logical library's changer /dev/sgN>'')"

definition archive_device :: "device_report option \<Rightarrow> drive \<Rightarrow> string" where
  "archive_device report d =
     (case Option.bind report (\<lambda>r. map_of (or_nil (report_drives r)) (drive_index d)) of
        Some ps \<Rightarrow> or_else (stable_tape ps) (or_else (tape ps) (or_else (stable_generic ps) (generic ps)))
      | None \<Rightarrow> ''<this drive's tape device, e.g. /dev/nstN or /dev/stN>'')"

definition kernel_media :: "drive list \<Rightarrow> string" where
  "kernel_media ds = (case ds of [] \<Rightarrow> ''Tape'' | d # _ \<Rightarrow> or_else (drive_type d) ''Tape'')"

definition kernel_mode_lines :: "logical_library \<Rightarrow> string \<Rightarrow> device_report option \<Rightarrow> string list" where
  "kernel_mode_lines lib vtlName report =
     (let ds = sorted_drives lib
      in no_drives_warning ds @
         [config_title lib vtlName @ '' - kernel mode (real SCSI via TCMU/LIO)'', config_sizes lib ds, ''#''] @
         report_note (lib_name lib) report @ [[]] @
         autochanger_block lib ds (report_changer report) ''/usr/lib/bareos/scripts/mtx-changer %c %o %S %a %d'' @
         concat (map (\<lambda>pd. device_block (or_else (drive_type (snd pd)) ''Tape'') (archive_device report (snd pd)) ''Tape'' pd)
           (enumerate 0 ds)) @
         storage_block lib ds (kernel_media ds))"

definition buildBareosConfigKernelMode :: "logical_library \<Rightarrow> string \<Rightarrow> device_report option \<Rightarrow> string" where
  "buildBareosConfigKernelMode lib vtlName report = join [newline] (kernel_mode_lines lib vtlName report)"

definition buildBareosConfig :: "logical_library \<Rightarrow> string \<Rightarrow> string \<Rightarrow> device_report option \<Rightarrow> string" where
  "buildBareosConfig lib vtlName operationalMode report =
     (if operationalMode = ''kernel'' then buildBareosConfigKernelMode lib vtlName report
      else buildBareosConfigChangerMode lib vtlName)"

definition buildKernelModeSetup :: "logical_library option \<Rightarrow> string \<Rightarrow> string" where
  "buildKernelModeSetup lib vtlName =
     (let instance_name = (case lib of None \<Rightarrow> ''default'' | Some l \<Rightarrow> lib_name l);
          flag = (case lib of None \<Rightarrow> [] | Some l \<Rightarrow> '' --logical-library='' @ lib_name l)
      in join [newline]
        [''# Kernel-mode (TCMU/LIO) setup for '' @
           (case lib of None \<Rightarrow> ''the whole physical library'' | Some l \<Rightarrow> ''logical library \"'' @ lib_name l @ ''\"'') @ vtl_note vtlName,
         ''# Requires the gotochanger-kernel package installed and root.'', [],
         ''sudo systemctl enable --now gotochanger-tcmud@'' @ instance_name @ ''.service'', [],
         ''# Equivalent to running directly:'', ''#   gotochanger-tcmud'' @ flag, [],
         ''# Once running, a real SCSI medium changer and one tape drive per'',
         ''# configured drive appear under /dev/sg* (confirm with lsscsi/sg_inq).''])"

text \<open>What the two copy dialogs show.\<close>

definition showBareosConfig :: "logical_library \<Rightarrow> string \<Rightarrow> string \<Rightarrow> device_report option \<Rightarrow> string \<times> string" where
  "showBareosConfig lib vtlName operationalMode report =
     (''Bareos configuration - '' @ lib_name lib, buildBareosConfig lib vtlName operationalMode report)"

definition showKernelModeSetup :: "logical_library option \<Rightarrow> string \<Rightarrow> string \<times> string" where
  "showKernelModeSetup lib vtlName =
     (''Kernel mode setup - '' @ (case lib of None \<Rightarrow> ''whole physical library'' | Some l \<Rightarrow> lib_name l),
      buildKernelModeSetup lib vtlName)"

section \<open>Renumbering\<close>

record addressing =
  toPresented :: "int \<rightharpoonup> int"
  toPhysical :: "int \<rightharpoonup> int"
  driveToPresented :: "int \<rightharpoonup> int"
  driveToPhysical :: "int \<rightharpoonup> int"

text \<open>The numbers \<open>n\<close>, \<open>n + 1\<close>, ... given to the elements of a list in order, both ways.\<close>

fun number_keys :: "int \<Rightarrow> int list \<Rightarrow> (int \<rightharpoonup> int) \<times> (int \<rightharpoonup> int) \<Rightarrow> (int \<rightharpoonup> int) \<times> (int \<rightharpoonup> int)" where
  "number_keys n [] ms = ms"
| "number_keys n (k # ks) ms = number_keys (n + 1) ks ((fst ms)(k \<mapsto> n), (snd ms)(n \<mapsto> k))"

definition element_addresses :: "status \<Rightarrow> int list" where
  "element_addresses st =
     map slot_address (sort_key slot_address (or_nil (slots st))) @ map io_address (sort_key io_address (or_nil (ioslots st)))"

definition scope_drives :: "status \<Rightarrow> int list" where
  "scope_drives st = map drive_index (sort_key drive_index (or_nil (drives st)))"

definition Build :: "status \<Rightarrow> addressing" where
  "Build st =
     (let els = number_keys 1 (element_addresses st) (Map.empty, Map.empty);
          ds = number_keys 0 (scope_drives st) (Map.empty, Map.empty)
      in \<lparr>toPresented = fst els, toPhysical = snd els, driveToPresented = fst ds, driveToPhysical = snd ds\<rparr>)"

definition Present :: "addressing \<Rightarrow> int \<Rightarrow> int" where
  "Present a physical = (case toPresented a physical of Some p \<Rightarrow> p | None \<Rightarrow> physical)"

text \<open>The left value is the address of the error message.\<close>

definition Physical :: "addressing \<Rightarrow> int \<Rightarrow> int + int" where
  "Physical a presented = (case toPhysical a presented of Some p \<Rightarrow> Inr p | None \<Rightarrow> Inl presented)"

definition PresentDrive :: "addressing \<Rightarrow> int \<Rightarrow> int" where
  "PresentDrive a physical = (case driveToPresented a physical of Some p \<Rightarrow> p | None \<Rightarrow> physical)"

definition PhysicalDrive :: "addressing \<Rightarrow> int \<Rightarrow> int + int" where
  "PhysicalDrive a presented = (case driveToPhysical a presented of Some p \<Rightarrow> Inr p | None \<Rightarrow> Inl presented)"

lemma number_keys_fst:
  "distinct ks \<Longrightarrow> fst (number_keys n ks ms) k =
     (if k \<in> set ks then Some (n + int (length (takeWhile (\<lambda>x. x \<noteq> k) ks))) else fst ms k)"
  by (induction ks arbitrary: n ms) auto

lemma number_keys_snd:
  "snd (number_keys n ks ms) p = (if n \<le> p \<and> p < n + int (length ks) then Some (ks ! nat (p - n)) else snd ms p)"
proof (induction ks arbitrary: n ms)
  case (Cons k ks)
  have "nat (p - (n + 1)) = nat (p - n) - Suc 0" by arith
  with Cons show ?case by (auto simp: nth_Cons')
qed auto

lemma takeWhile_length_nth:
  "k \<in> set ks \<Longrightarrow> length (takeWhile (\<lambda>x. x \<noteq> k) ks) < length ks \<and> ks ! length (takeWhile (\<lambda>x. x \<noteq> k) ks) = k"
  by (induction ks) auto

lemma takeWhile_distinct_nth:
  "distinct ks \<Longrightarrow> i < length ks \<Longrightarrow> length (takeWhile (\<lambda>x. x \<noteq> ks ! i) ks) = i"
proof (induction ks arbitrary: i)
  case (Cons k ks)
  then show ?case by (cases i) auto
qed simp


section \<open>Reading a text back\<close>

text \<open>A resource is a name, an opening brace, directives and a closing brace; comments are skipped.\<close>

definition opens_resource :: "string \<Rightarrow> bool" where
  "opens_resource l \<longleftrightarrow> 2 < length l \<and> hd l \<noteq> CHR ''#'' \<and> last l = CHR ''{''"

definition directive :: "string \<Rightarrow> string \<times> string" where
  "directive l =
     (trim (takeWhile (\<lambda>c. c \<noteq> CHR ''='') l), dropWhile js_space (drop 1 (dropWhile (\<lambda>c. c \<noteq> CHR ''='') l)))"

function bareos_resources :: "string list \<Rightarrow> (string \<times> (string \<times> string) list) list" where
  "bareos_resources [] = []"
| "bareos_resources (l # ls) =
     (if opens_resource l then
        (take (length l - 2) l, map directive (takeWhile (\<lambda>x. x \<noteq> ''}'') ls)) #
        bareos_resources (tl (dropWhile (\<lambda>x. x \<noteq> ''}'') ls))
      else bareos_resources ls)"
  by pat_completeness auto
termination
  by (relation "measure length") (auto simp: less_Suc_eq_le intro: le_trans [OF diff_le_self length_dropWhile_le])

lemma resources_skip: "list_all (\<lambda>l. \<not> opens_resource l) xs \<Longrightarrow> bareos_resources (xs @ ls) = bareos_resources ls"
  by (induction xs) auto

lemma resources_block:
  assumes "opens_resource l" and "''}'' \<notin> set body"
  shows "bareos_resources (l # body @ ''}'' # ls) = (take (length l - 2) l, map directive body) # bareos_resources ls"
proof -
  have "\<And>x. x \<in> set body \<Longrightarrow> x \<noteq> ''}''" using assms(2) by blast
  then show ?thesis using assms(1) by (simp add: takeWhile_append2 dropWhile_append2)
qed

text \<open>The device resources: name and drive index.\<close>

definition config_devices :: "string \<Rightarrow> (string option \<times> string option) list" where
  "config_devices cfg =
     map (\<lambda>r. (map_of (snd r) ''Name'', map_of (snd r) ''Drive Index''))
       (filter (\<lambda>r. fst r = ''Device'') (bareos_resources (split_on newline cfg)))"

lemma directive_name: "directive (''  Name = '' @ drive_name d) = (''Name'', drive_name d)"
  by (simp add: directive_def drive_name_def trim_def js_space_def)

lemma directive_index: "directive (''  Drive Index = '' @ show_nat p) = (''Drive Index'', show_nat p)"
  by (simp add: directive_def trim_def js_space_def show_simps)


definition device_body :: "string \<Rightarrow> string \<Rightarrow> string \<Rightarrow> nat \<times> drive \<Rightarrow> string list" where
  "device_body media archive dtype pd =
     [''  Name = '' @ drive_name (snd pd), ''  Drive Index = '' @ show_nat (fst pd),
      ''  Media Type = '' @ media, ''  Archive Device = '' @ archive, ''  Device Type = '' @ dtype,
      ''  AutomaticMount = yes'', ''  RemovableMedia = yes'', ''  AutoChanger = yes'']"

lemma device_body_directives:
  "map_of (map directive (device_body m a t pd)) ''Name'' = Some (drive_name (snd pd))"
  "map_of (map directive (device_body m a t pd)) ''Drive Index'' = Some (show_nat (fst pd))"
  unfolding device_body_def list.map directive_name directive_index map_of.simps by simp_all

abbreviation devices_in :: "string list \<Rightarrow> (string \<times> (string \<times> string) list) list" where
  "devices_in ls \<equiv> filter (\<lambda>r. fst r = ''Device'') (bareos_resources ls)"

lemma devices_in_skip: "\<not> opens_resource l \<Longrightarrow> devices_in (l # ls) = devices_in ls"
  by simp

lemma devices_in_device: "devices_in (device_block m a t pd @ ls) = (''Device'', map directive (device_body m a t pd)) # devices_in ls"
proof -
  have "device_block m a t pd @ ls = [] # ''Device {'' # device_body m a t pd @ ''}'' # ls"
    by (simp add: device_block_def device_body_def)
  moreover have "''}'' \<notin> set (device_body m a t pd)" by (simp add: device_body_def)
  moreover have "opens_resource ''Device {''" "\<not> opens_resource []" by (simp_all add: opens_resource_def)
  ultimately show ?thesis using resources_block [of "''Device {''" "device_body m a t pd" ls] by simp
qed

lemma devices_in_devices:
  "devices_in (concat (map (\<lambda>pd. device_block (m pd) (a pd) t pd) pds) @ ls) =
     map (\<lambda>pd. (''Device'', map directive (device_body (m pd) (a pd) t pd))) pds @ devices_in ls"
  by (induction pds) (simp_all add: devices_in_device del: bareos_resources.simps)

lemma devices_in_autochanger: "devices_in (autochanger_block lib ds device command @ ls) = devices_in ls"
proof -
  let ?body = "[''  Name = '' @ lib_name lib, ''  Device = '' @ join '', '' (map drive_name ds),
      ''  Changer Device = '' @ device, ''  Changer Command = \"'' @ command @ ''\"'']"
  have "autochanger_block lib ds device command @ ls = ''Autochanger {'' # ?body @ ''}'' # ls"
    by (simp add: autochanger_block_def)
  moreover have "''}'' \<notin> set ?body" by simp
  moreover have "opens_resource ''Autochanger {''" by (simp add: opens_resource_def)
  ultimately show ?thesis using resources_block [of "''Autochanger {''" ?body ls] by simp
qed

lemma devices_in_storage: "devices_in (storage_block lib ds media) = []"
proof -
  let ?body = "[''  Name = '' @ lib_name lib, ''  Address = <storage-daemon-hostname>'', ''  SD Port = <storage-daemon-port>'',
      ''  Password = \"<matches the Storage Daemon's password for this Storage>\"'', ''  Device = '' @ lib_name lib,
      ''  Media Type = '' @ media, ''  Autochanger = yes'', ''  Maximum Concurrent Jobs = '' @ show_nat (length ds)]"
  have "storage_block lib ds media = [[], ''# Director-side (bareos-dir.conf) - fill in Address/SD Port/Password'',
      ''# to match the Storage Daemon this logical library is running on:''] @ (''Storage {'' # ?body @ ''}'' # [])"
    by (simp add: storage_block_def)
  moreover have "''}'' \<notin> set ?body" by simp
  moreover have "opens_resource ''Storage {''" by (simp add: opens_resource_def)
  moreover have "list_all (\<lambda>l. \<not> opens_resource l) [[], ''# Director-side (bareos-dir.conf) - fill in Address/SD Port/Password'',
      ''# to match the Storage Daemon this logical library is running on:'']" by (simp add: opens_resource_def)
  ultimately show ?thesis
    using resources_block [of "''Storage {''" ?body "[]"] by (simp only: resources_skip) simp
qed


section \<open>One line per line\<close>

definition plain :: "string \<Rightarrow> bool" where
  "plain t \<longleftrightarrow> newline \<notin> set t"

lemma plain_append [simp]: "plain (a @ b) \<longleftrightarrow> plain a \<and> plain b"
  by (auto simp: plain_def)

lemma plain_Cons [simp]: "plain (c # b) \<longleftrightarrow> c \<noteq> newline \<and> plain b"
  by (auto simp: plain_def)

lemma plain_Nil [simp]: "plain []"
  by (simp add: plain_def)

lemma plain_show_nat [simp]: "plain (show_nat n)"
  using digit_not_in_show_nat [of newline n] by (simp add: plain_def newline_def is_digit_def)

lemma plain_show_int [simp]: "plain (show_int i)"
  by (simp add: show_int_def newline_def)

lemma plain_join: "plain sep \<Longrightarrow> list_all plain xs \<Longrightarrow> plain (join sep xs)"
  by (induction sep xs rule: join.induct) simp_all

lemma plain_or_else [simp]: "plain a \<Longrightarrow> plain b \<Longrightarrow> plain (or_else a b)"
  by (simp add: or_else_def)

lemma plain_drive_name [simp]: "plain (drive_name d)"
  by (simp add: drive_name_def newline_def)

lemma plain_drive_names [simp]: "plain (join '', '' (map drive_name ds))"
  by (rule plain_join) (simp_all add: newline_def list_all_iff)

definition plain_paths :: "drive_paths \<Rightarrow> bool" where
  "plain_paths ps \<longleftrightarrow> plain (generic ps) \<and> plain (tape ps) \<and> plain (stable_generic ps) \<and> plain (stable_tape ps)"

definition plain_library :: "logical_library \<Rightarrow> bool" where
  "plain_library lib \<longleftrightarrow> plain (lib_name lib) \<and>
     (\<forall>d \<in> set (or_nil (lib_drives lib)). plain (device_path d) \<and> plain (drive_type d))"

definition plain_report :: "device_report option \<Rightarrow> bool" where
  "plain_report report \<longleftrightarrow> (case report of None \<Rightarrow> True
     | Some r \<Rightarrow> plain (changer r) \<and> plain (changer_stable r) \<and> (\<forall>p \<in> set (or_nil (report_drives r)). plain_paths (snd p)))"

lemma plain_device_block:
  "plain m \<Longrightarrow> plain a \<Longrightarrow> plain t \<Longrightarrow> list_all plain (device_block m a t pd)"
  by (simp add: device_block_def newline_def)

lemma plain_autochanger_block:
  "plain (lib_name lib) \<Longrightarrow> plain device \<Longrightarrow> plain command \<Longrightarrow> list_all plain (autochanger_block lib ds device command)"
  by (simp add: autochanger_block_def newline_def)

lemma plain_storage_block: "plain (lib_name lib) \<Longrightarrow> plain m \<Longrightarrow> list_all plain (storage_block lib ds m)"
  by (simp add: storage_block_def newline_def)

lemma plain_head:
  "list_all plain (no_drives_warning ds)" "plain (lib_name lib) \<Longrightarrow> plain vtl \<Longrightarrow> plain (config_title lib vtl)"
  "plain (config_sizes lib ds)" "plain n \<Longrightarrow> list_all plain (report_note n r)"
  by (simp_all add: no_drives_warning_def config_title_def vtl_note_def config_sizes_def report_note_def newline_def)

lemma plain_report_changer: "plain_report r \<Longrightarrow> plain (report_changer r)"
  by (simp add: report_changer_def plain_report_def newline_def Let_def split: option.splits)

lemma plain_archive_device: "plain_report r \<Longrightarrow> plain (archive_device r d)"
proof -
  assume r: "plain_report r"
  have "plain_paths ps" if "Option.bind r (\<lambda>r. map_of (or_nil (report_drives r)) (drive_index d)) = Some ps" for ps
    using that r by (cases r) (auto simp: plain_report_def dest!: map_of_SomeD)
  then show ?thesis
    by (auto simp: archive_device_def plain_paths_def newline_def split: option.split)
qed

lemma list_all_concat_map: "list_all P (concat (map f xs)) \<longleftrightarrow> list_all (\<lambda>x. list_all P (f x)) xs"
  by (induction xs) simp_all

lemma sorted_drives_set: "set (sorted_drives lib) = set (or_nil (lib_drives lib))"
  by (simp add: sorted_drives_def)

lemma plain_changer_lines: "plain_library lib \<Longrightarrow> plain vtl \<Longrightarrow> list_all plain (changer_mode_lines lib vtl)"
  by (auto simp: changer_mode_lines_def Let_def plain_head list_all_concat_map list_all_iff [of _ "enumerate _ _"]
      plain_library_def sorted_drives_set newline_def dest!: in_set_enumerate_eq [THEN iffD1] nth_mem
      intro!: plain_device_block plain_autochanger_block plain_storage_block)

lemma plain_kernel_lines:
  "plain_library lib \<Longrightarrow> plain vtl \<Longrightarrow> plain_report r \<Longrightarrow> list_all plain (kernel_mode_lines lib vtl r)"
proof -
  assume a: "plain_library lib" "plain vtl" "plain_report r"
  have dt: "plain (drive_type d)" if "d \<in> set (sorted_drives lib)" for d
    using a(1) that by (simp add: plain_library_def sorted_drives_set)
  have "plain (kernel_media (sorted_drives lib))"
    using dt by (cases "sorted_drives lib") (simp_all add: kernel_media_def newline_def)
  with a dt show ?thesis
    by (auto simp: kernel_mode_lines_def Let_def plain_head list_all_concat_map list_all_iff [of _ "enumerate _ _"]
        plain_library_def newline_def plain_report_changer plain_archive_device dest!: in_set_enumerate_eq [THEN iffD1] nth_mem
        intro!: plain_device_block plain_autochanger_block plain_storage_block)
qed


lemma devices_in_changer:
  "devices_in (changer_mode_lines lib vtl) =
     map (\<lambda>pd. (''Device'', map directive (device_body ''File'' (device_path (snd pd)) ''File'' pd))) (enumerate 0 (sorted_drives lib))"
proof -
  have "list_all (\<lambda>l. \<not> opens_resource l) (no_drives_warning (sorted_drives lib) @ [config_title lib vtl, config_sizes lib (sorted_drives lib), []])"
    by (simp add: no_drives_warning_def config_title_def config_sizes_def opens_resource_def)
  from resources_skip [OF this] show ?thesis
    unfolding changer_mode_lines_def Let_def append_assoc [symmetric]
    by (simp only: append_assoc devices_in_autochanger devices_in_devices devices_in_storage append_Nil2)
qed

lemma devices_in_kernel:
  "devices_in (kernel_mode_lines lib vtl r) =
     map (\<lambda>pd. (''Device'', map directive (device_body (or_else (drive_type (snd pd)) ''Tape'') (archive_device r (snd pd)) ''Tape'' pd)))
       (enumerate 0 (sorted_drives lib))"
proof -
  let ?head = "no_drives_warning (sorted_drives lib) @
      [config_title lib vtl @ '' - kernel mode (real SCSI via TCMU/LIO)'', config_sizes lib (sorted_drives lib), ''#''] @
      report_note (lib_name lib) r @ [[]]"
  have "list_all (\<lambda>l. \<not> opens_resource l) ?head"
    by (simp add: no_drives_warning_def config_title_def config_sizes_def report_note_def opens_resource_def)
  from resources_skip [OF this] show ?thesis
    unfolding kernel_mode_lines_def Let_def
    by (simp only: append_assoc devices_in_autochanger devices_in_devices devices_in_storage append_Nil2)
qed

lemma config_devices_lines:
  assumes "list_all plain ls" and "ls \<noteq> []"
  shows "config_devices (join [newline] ls) =
     map (\<lambda>r. (map_of (snd r) ''Name'', map_of (snd r) ''Drive Index'')) (devices_in ls)"
proof -
  have "split_on newline (join [newline] ls) = ls"
    using assms by (intro split_on_join) (auto simp: list_all_iff plain_def)
  then show ?thesis by (simp add: config_devices_def)
qed

section \<open>Properties\<close>

text \<open>
  C27: The addresses a changer client sees are dense and translate back: the elements of a library (or of the
  whole installation) are numbered 1 to their count without gaps, every presented address or drive number
  translates back to the physical one it stands for, and any other number is an error.
\<close>

theorem addressing_roundtrip:
  assumes "distinct (element_addresses st)" and "distinct (scope_drives st)"
  shows "Present (Build st) ` set (element_addresses st) = {1..int (length (element_addresses st))} \<and>
     (\<forall>a \<in> set (element_addresses st). Physical (Build st) (Present (Build st) a) = Inr a) \<and>
     (\<forall>p. p \<notin> {1..int (length (element_addresses st))} \<longrightarrow> Physical (Build st) p = Inl p) \<and>
     PresentDrive (Build st) ` set (scope_drives st) = {0..<int (length (scope_drives st))} \<and>
     (\<forall>i \<in> set (scope_drives st). PhysicalDrive (Build st) (PresentDrive (Build st) i) = Inr i)"
proof -
  have rank: "f ` set ks = {n..<n + int (length ks)}"
    if "distinct ks" "\<And>k. k \<in> set ks \<Longrightarrow> f k = n + int (length (takeWhile (\<lambda>x. x \<noteq> k) ks))"
    for f :: "int \<Rightarrow> int" and n ks
  proof (intro equalityI subsetI)
    fix x assume "x \<in> f ` set ks"
    then show "x \<in> {n..<n + int (length ks)}" using that(2) takeWhile_length_nth [of _ ks] by fastforce
  next
    fix x assume x: "x \<in> {n..<n + int (length ks)}"
    define i where "i = nat (x - n)"
    have i: "i < length ks" "x = n + int i" using x by (auto simp: i_def)
    have "f (ks ! i) = x" using that(2) [of "ks ! i"] i takeWhile_distinct_nth [OF that(1) i(1)] by simp
    then show "x \<in> f ` set ks" using i(1) by (metis imageI nth_mem)
  qed
  let ?ks = "element_addresses st" and ?ds = "scope_drives st"
  have pres: "Present (Build st) a = 1 + int (length (takeWhile (\<lambda>x. x \<noteq> a) ?ks))" if "a \<in> set ?ks" for a
    using that assms(1) by (simp add: Present_def Build_def Let_def number_keys_fst)
  have presd: "PresentDrive (Build st) i = 0 + int (length (takeWhile (\<lambda>x. x \<noteq> i) ?ds))" if "i \<in> set ?ds" for i
    using that assms(2) by (simp add: PresentDrive_def Build_def Let_def number_keys_fst)
  have phys: "Physical (Build st) p = (if 1 \<le> p \<and> p < 1 + int (length ?ks) then Inr (?ks ! nat (p - 1)) else Inl p)" for p
    by (simp add: Physical_def Build_def Let_def number_keys_snd)
  have physd: "PhysicalDrive (Build st) p = (if 0 \<le> p \<and> p < int (length ?ds) then Inr (?ds ! nat p) else Inl p)" for p
    by (simp add: PhysicalDrive_def Build_def Let_def number_keys_snd)
  have "Physical (Build st) (Present (Build st) a) = Inr a" if "a \<in> set ?ks" for a
    using takeWhile_length_nth [OF that] by (simp add: pres that phys)
  moreover have "PhysicalDrive (Build st) (PresentDrive (Build st) i) = Inr i" if "i \<in> set ?ds" for i
    using takeWhile_length_nth [OF that] by (simp add: presd that physd)
  moreover have "Physical (Build st) p = Inl p" if "p \<notin> {1..int (length ?ks)}" for p
    using that by (auto simp: phys)
  moreover have "{1..<1 + int (length ?ks)} = {1..int (length ?ks)}" by auto
  ultimately show ?thesis
    using rank [OF assms(1) pres] rank [OF assms(2) presd] by auto
qed

definition gap_status :: status where
  "gap_status = \<lparr>st_name = [], slots = Some [\<lparr>slot_address = 41, slot_label = [], magazine_id = ''M2'', slot_volume = None\<rparr>],
     ioslots = Some [\<lparr>io_address = 101, io_label = [], mailbox_id = ''B1'', io_volume = None\<rparr>],
     drives = Some [\<lparr>drive_index = 3, device_path = ''/d3'', drive_type = ''LTO-8'', drive_volume = None, fault = False,
       mounts_since_cleaning = 0, activity = []\<rparr>],
     outside_volumes = None, offsite_volumes = None, offsite_enabled = False, doors = None, robotic_fault = None,
     st_arm_state = None, busy_elements = None, cleaning_enabled = False, cleaning_mount_threshold = 0,
     cleaning_max_uses = 0, magazine_pin_required = False, mailbox_pin_required = None,
     tape_set_families = None, drive_type_families = None\<rparr>"

theorem addressing_roundtrip_witness:
  "Physical (Build gap_status) (Present (Build gap_status) 101) = Inr 101 \<and> Physical (Build gap_status) 3 = Inl 3"
  using addressing_roundtrip [of gap_status]
  by (simp add: gap_status_def element_addresses_def scope_drives_def)

text \<open>
  C8: A generated Bareos configuration, read back from its text, lists one device per drive of the library, and
  the Drive Index of each device is the number that the changer, scoped to the same library, translates to
  that very drive; so Bareos and the changer never mean different drives, in either operational mode.
\<close>

theorem bareos_drive_indices_agree:
  assumes "drives st = lib_drives lib" and "plain_library lib" and "plain vtl" and "plain_report report"
  shows "config_devices (buildBareosConfig lib vtl mode report) =
       map (\<lambda>(p, d). (Some (drive_name d), Some (show_nat p))) (enumerate 0 (sorted_drives lib)) \<and>
     (\<forall>(p, d) \<in> set (enumerate 0 (sorted_drives lib)). PhysicalDrive (Build st) (int p) = Inr (drive_index d)) \<and>
     mset (sorted_drives lib) = mset (or_nil (lib_drives lib))"
proof -
  have ne: "changer_mode_lines lib vtl \<noteq> []" "kernel_mode_lines lib vtl report \<noteq> []"
    by (simp_all add: changer_mode_lines_def kernel_mode_lines_def Let_def)
  have "config_devices (buildBareosConfig lib vtl mode report) =
       map (\<lambda>(p, d). (Some (drive_name d), Some (show_nat p))) (enumerate 0 (sorted_drives lib))"
    using config_devices_lines [OF plain_changer_lines [OF assms(2,3)] ne(1)]
      config_devices_lines [OF plain_kernel_lines [OF assms(2-4)] ne(2)]
    by (simp add: buildBareosConfig_def buildBareosConfigChangerMode_def buildBareosConfigKernelMode_def
        devices_in_changer devices_in_kernel device_body_directives comp_def case_prod_unfold del: bareos_resources.simps)
  moreover have "PhysicalDrive (Build st) (int p) = Inr (drive_index d)" if "(p, d) \<in> set (enumerate 0 (sorted_drives lib))" for p d
    using that by (auto simp: in_set_enumerate_eq PhysicalDrive_def Build_def Let_def number_keys_snd scope_drives_def
        sorted_drives_def assms(1))
  ultimately show ?thesis by (auto simp: sorted_drives_def)
qed


definition gap_library :: logical_library where
  "gap_library = \<lparr>lib_name = ''LibB'', lib_drives = drives gap_status, lib_slots = slots gap_status,
     lib_io_slots = ioslots gap_status, lib_color = [], lib_changer_model = []\<rparr>"

theorem bareos_drive_indices_agree_witness:
  "config_devices (buildBareosConfig gap_library [] ''changer'' None) = [(Some ''Drive3'', Some ''0'')] \<and>
   PhysicalDrive (Build gap_status) 0 = Inr 3"
proof -
  have "drives gap_status = lib_drives gap_library" by (simp add: gap_library_def)
  moreover have "plain_library gap_library"
    by (simp add: plain_library_def gap_library_def gap_status_def newline_def)
  moreover have "plain_report None" by (simp add: plain_report_def)
  moreover obtain d where d: "sorted_drives gap_library = [d]" "drive_index d = 3"
    by (simp add: sorted_drives_def gap_library_def gap_status_def)
  moreover have "drive_name d = ''Drive3''" "show_nat 0 = ''0''"
    unfolding drive_name_def d(2) by code_simp+
  ultimately show ?thesis using bareos_drive_indices_agree [of gap_status gap_library "[]" None "''changer''"]
    by (simp add: plain_def)
qed

end
