(* ===== verification/Panels.thy ===== *)
theory Panels
  imports Backend "HOL-Library.Multiset"
begin

text \<open>
  The dashboard's panels and toggles (app.js \<open>initDashboardUI\<close> and the functions it uses): their order, which
  are collapsed, and what of it \<open>localStorage\<close> keeps across a reload. \<open>layout\<close> is the part of the document
  these functions change; a panel is a \<open>section\<close> of \<open>view-dashboard\<close> with its \<open>data-panel-id\<close>, in document order.

  \<open>localStorage\<close> maps a key to what was stored: \<open>Json v\<close> is the text \<open>JSON.stringify(v)\<close>, any other text is
  \<open>Plain\<close>, on which \<open>JSON.parse\<close> throws.
\<close>

section \<open>State\<close>

record panel =
  panel_id :: string
  collapsed :: bool
  aria_expanded :: string
  panel_btn_title :: string
  panel_btn_text :: string
  dragging :: bool

datatype stored = Json json | Plain string

record layout =
  panels :: "panel list"
  collapseAllText :: string
  events_collapsed :: bool
  events_btn_title :: string
  events_icon :: string
  dragPanel :: "string option"
  localStorage :: "string \<rightharpoonup> stored"
  dashboardUIInitialized :: bool

definition panelOrderKey :: string where "panelOrderKey = ''gotochanger.dashboard.panelOrder''"
definition eventsCollapsedKey :: string where "eventsCollapsedKey = ''gotochanger.dashboard.eventsCollapsed''"
definition collapsedPanelsKey :: string where "collapsedPanelsKey = ''gotochanger.dashboard.collapsedPanels''"
definition showLibraryColorsKey :: string where "showLibraryColorsKey = ''gotochanger.dashboard.showLibraryColors''"
definition hideUnassignedKey :: string where "hideUnassignedKey = ''gotochanger.dashboard.hideUnassigned''"

lemmas storage_keys = panelOrderKey_def eventsCollapsedKey_def collapsedPanelsKey_def showLibraryColorsKey_def
  hideUnassignedKey_def

definition setItem :: "string \<Rightarrow> stored \<Rightarrow> layout \<Rightarrow> layout" where
  "setItem k v l = l\<lparr>localStorage := (localStorage l)(k \<mapsto> v)\<rparr>"

section \<open>Order\<close>

definition string_array :: "string list \<Rightarrow> stored" where
  "string_array xs = Json (JArr (map JStr xs))"

definition savePanelOrder :: "layout \<Rightarrow> layout" where
  "savePanelOrder l = setItem panelOrderKey (string_array (filter (\<lambda>i. i \<noteq> []) (map panel_id (panels l)))) l"

text \<open>\<open>container.querySelector\<close> finds the first panel with the id; \<open>appendChild\<close> moves it to the end.\<close>

fun append_panel :: "string \<Rightarrow> panel list \<Rightarrow> panel list" where
  "append_panel i ps =
     (case js_find (\<lambda>p. panel_id p = i) ps of None \<Rightarrow> ps | Some p \<Rightarrow> remove1 p ps @ [p])"

declare append_panel.simps [simp del]

text \<open>
  The text an element of the stored array gives in the selector's template, and whether the selector is then the
  lookup of that one id. With a quote or a line break in it \<open>querySelector\<close> throws; a backslash would start an
  escape, and is counted with them.
\<close>

fun js_text :: "json \<Rightarrow> string" where
  "js_text (JStr s) = s"
| "js_text (JNum i) = show_int i"
| "js_text (JDec m k) = decimal_text m k"
| "js_text (JBool b) = (if b then ''true'' else ''false'')"
| "js_text JNull = ''null''"
| "js_text (JObj kvs) = ''[object Object]''"
| "js_text (JArr xs) = join '','' (map (\<lambda>x. if x = JNull then [] else js_text x) xs)"

definition selectable :: "string \<Rightarrow> bool" where
  "selectable s \<longleftrightarrow> set s \<inter> {CHR 0x22, CHR 0x5C, CHR 0x0A, CHR 0x0D, CHR 0x0C} = {}"

text \<open>The loop stops at the first selector that is not valid.\<close>

fun reorder :: "json list \<Rightarrow> panel list \<Rightarrow> panel list" where
  "reorder [] ps = ps"
| "reorder (v # vs) ps = (if selectable (js_text v) then reorder vs (append_panel (js_text v) ps) else ps)"

definition stored_order :: "layout \<Rightarrow> json list" where
  "stored_order l = (case localStorage l panelOrderKey of Some (Json (JArr vs)) \<Rightarrow> vs | _ \<Rightarrow> [])"

text \<open>The second component is False when the function throws.\<close>

definition restorePanelOrder :: "layout \<Rightarrow> layout \<times> bool" where
  "restorePanelOrder l =
     (l\<lparr>panels := reorder (stored_order l) (panels l)\<rparr>, list_all (\<lambda>v. selectable (js_text v)) (stored_order l))"

section \<open>Collapsing\<close>

definition setPanelCollapsed :: "bool \<Rightarrow> panel \<Rightarrow> panel" where
  "setPanelCollapsed c p =
     p\<lparr>collapsed := c, aria_expanded := (if c then ''false'' else ''true''),
       panel_btn_title := (if c then ''Expand panel'' else ''Collapse panel''),
       panel_btn_text := (if c then tri_up else tri_down)\<rparr>"

definition any_expanded :: "layout \<Rightarrow> bool" where
  "any_expanded l = list_ex (\<lambda>p. \<not> collapsed p) (panels l)"

definition updateCollapseAllBtn :: "layout \<Rightarrow> layout" where
  "updateCollapseAllBtn l = l\<lparr>collapseAllText := (if any_expanded l then ''Collapse all'' else ''Expand all'')\<rparr>"

definition saveCollapsedPanels :: "layout \<Rightarrow> layout" where
  "saveCollapsedPanels l =
     updateCollapseAllBtn (setItem collapsedPanelsKey (string_array (map panel_id (filter collapsed (panels l)))) l)"

definition stored_collapsed :: "layout \<Rightarrow> json list" where
  "stored_collapsed l =
     (case localStorage l collapsedPanelsKey of Some (Json (JArr vs)) \<Rightarrow> vs | _ \<Rightarrow> [])"

definition restoreCollapsedPanels :: "layout \<Rightarrow> layout" where
  "restoreCollapsedPanels l =
     updateCollapseAllBtn
       (l\<lparr>panels := map (\<lambda>p. setPanelCollapsed (JStr (panel_id p) \<in> set (stored_collapsed l)) p) (panels l)\<rparr>)"

definition setEventsCollapsed :: "bool \<Rightarrow> layout \<Rightarrow> layout" where
  "setEventsCollapsed c l =
     setItem eventsCollapsedKey (Plain (if c then ''1'' else ''0''))
       (l\<lparr>events_collapsed := c, events_btn_title := (if c then ''Show activity log'' else ''Hide activity log''),
          events_icon := (if c then tri_up else tri_down)\<rparr>)"

section \<open>Listeners\<close>

definition update_panel :: "string \<Rightarrow> (panel \<Rightarrow> panel) \<Rightarrow> layout \<Rightarrow> layout" where
  "update_panel i f l = l\<lparr>panels := map (\<lambda>p. if panel_id p = i then f p else p) (panels l)\<rparr>"

definition on_collapse_click :: "string \<Rightarrow> layout \<Rightarrow> layout" where
  "on_collapse_click i l = saveCollapsedPanels (update_panel i (\<lambda>p. setPanelCollapsed (\<not> collapsed p) p) l)"

definition on_collapse_all :: "layout \<Rightarrow> layout" where
  "on_collapse_all l = saveCollapsedPanels (l\<lparr>panels := map (setPanelCollapsed (any_expanded l)) (panels l)\<rparr>)"

text \<open>\<open>i\<close> is the panel the dragged element lies in.\<close>

definition on_panel_dragstart :: "string \<Rightarrow> layout \<Rightarrow> layout" where
  "on_panel_dragstart i l = (update_panel i (\<lambda>p. p\<lparr>dragging := True\<rparr>) l)\<lparr>dragPanel := Some i\<rparr>"

text \<open>\<open>container.insertBefore(dragPanel, target)\<close>, or its next sibling.\<close>

fun insert_at :: "bool \<Rightarrow> panel \<Rightarrow> string \<Rightarrow> panel list \<Rightarrow> panel list" where
  "insert_at before p t [] = [p]"
| "insert_at before p t (q # qs) =
     (if panel_id q = t then (if before then p # q # qs else q # p # qs) else q # insert_at before p t qs)"

definition move_panel :: "bool \<Rightarrow> string \<Rightarrow> string \<Rightarrow> panel list \<Rightarrow> panel list" where
  "move_panel before i t ps =
     (case js_find (\<lambda>p. panel_id p = i) ps of
        None \<Rightarrow> ps | Some p \<Rightarrow> insert_at before p t (filter (\<lambda>q. panel_id q \<noteq> i) ps))"

text \<open>The pointer is over panel \<open>t\<close>, in its upper half when \<open>before\<close>.\<close>

definition on_panel_dragover :: "string \<Rightarrow> bool \<Rightarrow> layout \<Rightarrow> layout" where
  "on_panel_dragover t before l =
     (case dragPanel l of
        None \<Rightarrow> l
      | Some i \<Rightarrow> if t = i then l else l\<lparr>panels := move_panel before i t (panels l)\<rparr>)"

definition on_panel_dragend :: "layout \<Rightarrow> layout" where
  "on_panel_dragend l =
     (case dragPanel l of
        None \<Rightarrow> l
      | Some i \<Rightarrow> savePanelOrder ((update_panel i (\<lambda>p. p\<lparr>dragging := False\<rparr>) l)\<lparr>dragPanel := None\<rparr>))"

definition on_events_toggle :: "layout \<Rightarrow> layout" where
  "on_events_toggle l = setEventsCollapsed (\<not> events_collapsed l) l"

text \<open>The two switches of the toolbar; both call \<open>refresh\<close>.\<close>

definition flag :: "bool \<Rightarrow> stored" where
  "flag b = Plain (if b then ''1'' else ''0'')"

definition on_colors_toggle :: "bool \<Rightarrow> (layout \<times> app, unit) prog" where
  "on_colors_toggle b =
     io_seq (update (\<lambda>(l, s). (setItem showLibraryColorsKey (flag b) l, s\<lparr>showLibraryColors := b\<rparr>))) (start Refresh)"

definition on_hide_toggle :: "bool \<Rightarrow> (layout \<times> app, unit) prog" where
  "on_hide_toggle b =
     io_seq (update (\<lambda>(l, s). (setItem hideUnassignedKey (flag b) l, s\<lparr>hideUnassigned := b\<rparr>))) (start Refresh)"

section \<open>initDashboardUI\<close>

definition is_one :: "stored option \<Rightarrow> bool" where
  "is_one v \<longleftrightarrow> v = Some (Plain ''1'')"

text \<open>
  The first call restores what was stored and attaches the listeners above. The third component is False when the
  stored order makes it throw: the listeners are then never attached, for later calls return at once.
\<close>

definition initDashboardUI :: "layout \<times> app \<Rightarrow> (layout \<times> app) \<times> bool" where
  "initDashboardUI ls =
     (let (l, s) = ls in
      if dashboardUIInitialized l then (ls, True)
      else
        let (l1, ok) = restorePanelOrder (l\<lparr>dashboardUIInitialized := True\<rparr>) in
        if \<not> ok then ((l1, s), False)
        else
          let l2 = restoreCollapsedPanels l1;
              l3 = setEventsCollapsed (is_one (localStorage l2 eventsCollapsedKey)) l2
          in ((l3, s\<lparr>showLibraryColors := is_one (localStorage l3 showLibraryColorsKey),
                     hideUnassigned := is_one (localStorage l3 hideUnassignedKey)\<rparr>), True))"

section \<open>Runs\<close>

text \<open>What the user does to the panels, and the state afterwards.\<close>

datatype panel_input = CollapseClick string | CollapseAll | PanelDragStart string | PanelDragOver string bool
  | PanelDragEnd | EventsToggle | ColorsToggle bool | HideToggle bool

fun panel_event :: "panel_input \<Rightarrow> layout \<times> app \<Rightarrow> layout \<times> app" where
  "panel_event (CollapseClick i) (l, s) = (on_collapse_click i l, s)"
| "panel_event CollapseAll (l, s) = (on_collapse_all l, s)"
| "panel_event (PanelDragStart i) (l, s) = (on_panel_dragstart i l, s)"
| "panel_event (PanelDragOver t before) (l, s) = (on_panel_dragover t before l, s)"
| "panel_event PanelDragEnd (l, s) = (on_panel_dragend l, s)"
| "panel_event EventsToggle (l, s) = (on_events_toggle l, s)"
| "panel_event (ColorsToggle b) (l, s) = (setItem showLibraryColorsKey (flag b) l, s\<lparr>showLibraryColors := b\<rparr>)"
| "panel_event (HideToggle b) (l, s) = (setItem hideUnassignedKey (flag b) l, s\<lparr>hideUnassigned := b\<rparr>)"

text \<open>The page as index.html gives it, with what an earlier visit left in \<open>localStorage\<close>.\<close>

definition html_panel :: "string \<Rightarrow> panel" where
  "html_panel i = \<lparr>panel_id = i, collapsed = False, aria_expanded = ''true'', panel_btn_title = ''Collapse panel'',
     panel_btn_text = tri_down, dragging = False\<rparr>"

definition fresh_layout :: "string list \<Rightarrow> (string \<rightharpoonup> stored) \<Rightarrow> layout" where
  "fresh_layout html store = \<lparr>panels = map html_panel html, collapseAllText = ''Collapse all'', events_collapsed = False,
     events_btn_title = ''Hide activity log'', events_icon = tri_down, dragPanel = None, localStorage = store,
     dashboardUIInitialized = False\<rparr>"

definition dashboard_panels :: "string list" where
  "dashboard_panels = [''outside'', ''offsite'', ''library-status'', ''drives'', ''ioslots'', ''slots'']"

definition visible_layout :: "layout \<times> app \<Rightarrow> (string \<times> bool) list \<times> bool \<times> bool \<times> bool" where
  "visible_layout ls = (map (\<lambda>p. (panel_id p, collapsed p)) (panels (fst ls)), events_collapsed (fst ls),
     showLibraryColors (snd ls), hideUnassigned (snd ls))"

section \<open>Order of the panels\<close>

abbreviation ids :: "panel list \<Rightarrow> string list" where
  "ids ps \<equiv> map panel_id ps"

lemma find_panel: "js_find (\<lambda>p. panel_id p = i) ps = None \<longleftrightarrow> i \<notin> set (ids ps)"
  by (auto simp: js_find_def find_None_iff)

lemma find_panelD: "js_find (\<lambda>p. panel_id p = i) ps = Some p \<Longrightarrow> p \<in> set ps \<and> panel_id p = i"
  unfolding js_find_def by (drule find_SomeD) simp

lemma ids_remove1: "distinct (ids ps) \<Longrightarrow> p \<in> set ps \<Longrightarrow> ids (remove1 p ps) = filter (\<lambda>i. i \<noteq> panel_id p) (ids ps)"
proof (induction ps)
  case (Cons q ps)
  show ?case
  proof (cases "q = p")
    case True
    with Cons.prems have "\<forall>i\<in>set (ids ps). i \<noteq> panel_id p" by auto (metis imageI)
    then have "filter (\<lambda>i. i \<noteq> panel_id p) (ids ps) = ids ps" by (rule filter_True)
    with True show ?thesis by simp
  next
    case False
    with Cons.prems have "p \<in> set ps" "panel_id p \<noteq> panel_id q" by auto (metis imageI)
    with Cons False show ?thesis by auto
  qed
qed simp

lemma ids_append_panel:
  assumes "distinct (ids ps)"
  shows "ids (append_panel i ps) = (if i \<in> set (ids ps) then filter (\<lambda>j. j \<noteq> i) (ids ps) @ [i] else ids ps)"
proof (cases "js_find (\<lambda>p. panel_id p = i) ps")
  case None
  then show ?thesis using find_panel [of i ps] by (simp add: append_panel.simps)
next
  case (Some p)
  then have "p \<in> set ps" "panel_id p = i" by (auto dest: find_panelD)
  with Some show ?thesis using assms by (auto simp: append_panel.simps ids_remove1)
qed

lemma distinct_append_panel: "distinct (ids ps) \<Longrightarrow> distinct (ids (append_panel i ps))"
  by (auto simp: ids_append_panel)

lemma mset_append_panel: "mset (append_panel i ps) = mset ps"
  by (auto simp: append_panel.simps split: option.split dest: find_panelD)

lemma mset_reorder: "mset (reorder vs ps) = mset ps"
  by (induction vs arbitrary: ps) (simp_all add: mset_append_panel)

lemma reorder_strings:
  assumes "distinct (ids ps)" "distinct xs" "set xs \<subseteq> set (ids ps)" "\<forall>x\<in>set xs. selectable x"
  shows "ids (reorder (map JStr xs) ps) = filter (\<lambda>i. i \<notin> set xs) (ids ps) @ xs"
  using assms
proof (induction xs arbitrary: ps)
  case (Cons x xs)
  have step: "ids (append_panel x ps) = filter (\<lambda>j. j \<noteq> x) (ids ps) @ [x]"
    using Cons.prems by (simp add: ids_append_panel)
  have "ids (reorder (map JStr xs) (append_panel x ps)) = filter (\<lambda>i. i \<notin> set xs) (ids (append_panel x ps)) @ xs"
    using Cons.prems by (intro Cons.IH distinct_append_panel) (auto simp: step)
  also have "\<dots> = filter (\<lambda>i. i \<notin> set (x # xs)) (ids ps) @ x # xs"
    using Cons.prems(2) by (simp add: step)
  finally show ?case using Cons.prems(4) by simp
qed simp

lemma ids_insert_at: "t \<in> set (ids ps) \<Longrightarrow> panel_id p = i \<Longrightarrow>
    \<exists>xs ys. ids ps = xs @ t # ys \<and> ids (insert_at before p t ps) = xs @ (if before then [i, t] else [t, i]) @ ys"
proof (induction ps)
  case (Cons q qs)
  show ?case
  proof (cases "panel_id q = t")
    case True
    with Cons.prems(2) show ?thesis by (intro exI [of _ "[]"] exI [of _ "ids qs"]) simp
  next
    case False
    with Cons obtain xs ys where
      "ids qs = xs @ t # ys" "ids (insert_at before p t qs) = xs @ (if before then [i, t] else [t, i]) @ ys" by auto
    with False show ?thesis by (intro exI [of _ "panel_id q # xs"] exI [of _ ys]) simp
  qed
qed simp

lemma mset_insert_at: "mset (insert_at before p t ps) = add_mset p (mset ps)"
  by (induction ps) auto

lemma filter_other_ids:
  "distinct (ids ps) \<Longrightarrow> p \<in> set ps \<Longrightarrow> panel_id p = i \<Longrightarrow> add_mset p (mset (filter (\<lambda>q. panel_id q \<noteq> i) ps)) = mset ps"
proof (induction ps)
  case (Cons q qs)
  show ?case
  proof (cases "q = p")
    case True
    have "\<forall>r\<in>set qs. panel_id r \<noteq> i"
      using Cons.prems True by (auto simp: image_iff)
    then have "filter (\<lambda>r. panel_id r \<noteq> i) qs = qs" by (rule filter_True)
    with True Cons.prems show ?thesis by simp
  next
    case False
    with Cons.prems have "p \<in> set qs" "panel_id q \<noteq> i" by auto
    with Cons show ?thesis by simp
  qed
qed simp

lemma mset_move_panel: "distinct (ids ps) \<Longrightarrow> mset (move_panel before i t ps) = mset ps"
proof (cases "js_find (\<lambda>p. panel_id p = i) ps")
  case (Some p)
  assume "distinct (ids ps)"
  then have "add_mset p (mset (filter (\<lambda>q. panel_id q \<noteq> i) ps)) = mset ps"
    using find_panelD [OF Some] by (intro filter_other_ids) auto
  with Some show ?thesis by (simp only: move_panel_def option.case mset_insert_at)
qed (simp add: move_panel_def)

lemma mset_ids: "mset ps = mset qs \<Longrightarrow> mset (ids ps) = mset (ids qs)"
  by simp

lemma distinct_move_panel: "distinct (ids ps) \<Longrightarrow> distinct (ids (move_panel before i t ps))"
  by (metis mset_eq_imp_distinct_iff mset_ids mset_move_panel)

lemma set_move_panel: "distinct (ids ps) \<Longrightarrow> set (ids (move_panel before i t ps)) = set (ids ps)"
  by (metis mset_eq_setD mset_ids mset_move_panel)

lemma ids_update: "\<forall>p. panel_id (f p) = panel_id p \<Longrightarrow> ids (map (\<lambda>p. if panel_id p = i then f p else p) ps) = ids ps"
  by (induction ps) auto

section \<open>What the store remembers\<close>

definition good_html :: "string list \<Rightarrow> bool" where
  "good_html html \<longleftrightarrow> distinct html \<and> (\<forall>i\<in>set html. i \<noteq> [] \<and> selectable i)"

definition panels_ok :: "string list \<Rightarrow> layout \<times> app \<Rightarrow> bool" where
  "panels_ok html ls \<longleftrightarrow>
     (let l = fst ls in
      distinct (ids (panels l)) \<and> set (ids (panels l)) = set html \<and>
      list_all (\<lambda>v. selectable (js_text v)) (stored_order l) \<and>
      (dragPanel l = None \<longrightarrow> ids (reorder (stored_order l) (map html_panel html)) = ids (panels l)) \<and>
      (\<forall>p\<in>set (panels l). collapsed p \<longleftrightarrow> JStr (panel_id p) \<in> set (stored_collapsed l)) \<and>
      events_collapsed l = is_one (localStorage l eventsCollapsedKey) \<and>
      showLibraryColors (snd ls) = is_one (localStorage l showLibraryColorsKey) \<and>
      hideUnassigned (snd ls) = is_one (localStorage l hideUnassignedKey))"

lemma keys_distinct [simp]:
  "panelOrderKey \<noteq> eventsCollapsedKey" "panelOrderKey \<noteq> collapsedPanelsKey" "panelOrderKey \<noteq> showLibraryColorsKey"
  "panelOrderKey \<noteq> hideUnassignedKey" "eventsCollapsedKey \<noteq> collapsedPanelsKey"
  "eventsCollapsedKey \<noteq> showLibraryColorsKey" "eventsCollapsedKey \<noteq> hideUnassignedKey"
  "collapsedPanelsKey \<noteq> showLibraryColorsKey" "collapsedPanelsKey \<noteq> hideUnassignedKey"
  "showLibraryColorsKey \<noteq> hideUnassignedKey"
  by (simp_all add: storage_keys)

lemmas keys_distinct' [simp] = keys_distinct [symmetric]

lemma is_one_flag [simp]: "is_one (Some (flag b)) = b" "is_one (Some (Plain (if b then ''1'' else ''0''))) = b"
  by (simp_all add: is_one_def flag_def)

lemma ids_html [simp]: "ids (map html_panel html) = html"
  by (induction html) (simp_all add: html_panel_def)

text \<open>Saving the order and reading it back gives the order.\<close>

lemma save_order_reads_back:
  assumes "good_html html" "distinct xs" "set xs = set html"
  shows "ids (reorder (map JStr (filter (\<lambda>i. i \<noteq> []) xs)) (map html_panel html)) = xs"
proof -
  have "filter (\<lambda>i. i \<noteq> []) xs = xs" using assms by (auto simp: filter_id_conv good_html_def)
  moreover have "ids (reorder (map JStr xs) (map html_panel html)) = filter (\<lambda>i. i \<notin> set xs) html @ xs"
    using assms reorder_strings [of "map html_panel html" xs] by (simp only: ids_html good_html_def) blast
  moreover have "filter (\<lambda>i. i \<notin> set xs) html = []" using assms(3) by (simp add: filter_empty_conv)
  ultimately show ?thesis by (simp only: append_Nil)
qed

lemma stored_simps [simp]:
  "stored_order (setItem k v l) = (if k = panelOrderKey then (case v of Json (JArr vs) \<Rightarrow> vs | _ \<Rightarrow> []) else stored_order l)"
  "stored_collapsed (setItem k v l) =
     (if k = collapsedPanelsKey then (case v of Json (JArr vs) \<Rightarrow> vs | _ \<Rightarrow> []) else stored_collapsed l)"
  "panels (setItem k v l) = panels l" "dragPanel (setItem k v l) = dragPanel l"
  "events_collapsed (setItem k v l) = events_collapsed l"
  "localStorage (setItem k v l) k' = (if k' = k then Some v else localStorage l k')"
  by (auto simp: setItem_def stored_order_def stored_collapsed_def split: stored.split json.split)

lemma panel_fields [simp]:
  "panel_id (setPanelCollapsed c p) = panel_id p" "collapsed (setPanelCollapsed c p) = c"
  by (simp_all add: setPanelCollapsed_def)

lemma save_collapsed [simp]:
  "panels (saveCollapsedPanels l) = panels l" "dragPanel (saveCollapsedPanels l) = dragPanel l"
  "events_collapsed (saveCollapsedPanels l) = events_collapsed l"
  "stored_order (saveCollapsedPanels l) = stored_order l"
  "stored_collapsed (saveCollapsedPanels l) = map JStr (ids (filter collapsed (panels l)))"
  "localStorage (saveCollapsedPanels l) k =
     (if k = collapsedPanelsKey then Some (string_array (ids (filter collapsed (panels l)))) else localStorage l k)"
  by (simp_all add: saveCollapsedPanels_def updateCollapseAllBtn_def setItem_def stored_order_def
      stored_collapsed_def string_array_def)

lemma collapsed_stored:
  "distinct (ids ps) \<Longrightarrow> p \<in> set ps \<Longrightarrow> collapsed p \<longleftrightarrow> JStr (panel_id p) \<in> set (map JStr (ids (filter collapsed ps)))"
  by (auto simp: distinct_map inj_on_def)

text \<open>Every event keeps the invariant.\<close>

lemma panels_ok_same_panels:
  assumes "panels_ok html (l, s)"
    and "ids (panels l') = ids (panels l)" "dragPanel l' = dragPanel l" "stored_order l' = stored_order l"
    and "\<forall>p\<in>set (panels l'). collapsed p \<longleftrightarrow> JStr (panel_id p) \<in> set (stored_collapsed l')"
    and "events_collapsed l' = is_one (localStorage l' eventsCollapsedKey)"
    and "showLibraryColors s' = is_one (localStorage l' showLibraryColorsKey)"
    and "hideUnassigned s' = is_one (localStorage l' hideUnassignedKey)"
  shows "panels_ok html (l', s')"
proof -
  have "set (ids (panels l')) = set (ids (panels l))" by (simp only: assms(2))
  with assms show ?thesis unfolding panels_ok_def Let_def fst_conv snd_conv by metis
qed

lemma stored_cong [simp]:
  "stored_order (l\<lparr>panels := ps\<rparr>) = stored_order l" "stored_order (l\<lparr>dragPanel := d\<rparr>) = stored_order l"
  "stored_collapsed (l\<lparr>panels := ps\<rparr>) = stored_collapsed l" "stored_collapsed (l\<lparr>dragPanel := d\<rparr>) = stored_collapsed l"
  "stored_order (l\<lparr>dashboardUIInitialized := b\<rparr>) = stored_order l"
  "stored_collapsed (l\<lparr>dashboardUIInitialized := b\<rparr>) = stored_collapsed l"
  by (simp_all add: stored_order_def stored_collapsed_def)

lemma panels_ok_dest:
  assumes "panels_ok html (l, s)"
  shows "distinct (ids (panels l))" "set (ids (panels l)) = set html"
    "list_all (\<lambda>v. selectable (js_text v)) (stored_order l)"
    "dragPanel l = None \<Longrightarrow> ids (reorder (stored_order l) (map html_panel html)) = ids (panels l)"
    "p \<in> set (panels l) \<Longrightarrow> collapsed p \<longleftrightarrow> JStr (panel_id p) \<in> set (stored_collapsed l)"
    "events_collapsed l = is_one (localStorage l eventsCollapsedKey)"
    "showLibraryColors s = is_one (localStorage l showLibraryColorsKey)"
    "hideUnassigned s = is_one (localStorage l hideUnassignedKey)"
  using assms unfolding panels_ok_def Let_def fst_conv snd_conv by blast+

lemma panels_ok_collapse:
  assumes "panels_ok html (l, s)" "ids ps = ids (panels l)"
  shows "panels_ok html (saveCollapsedPanels (l\<lparr>panels := ps\<rparr>), s)"
proof (rule panels_ok_same_panels [OF assms(1)])
  have "distinct (ids ps)" using assms panels_ok_dest(1) by metis
  then show "\<forall>p\<in>set (panels (saveCollapsedPanels (l\<lparr>panels := ps\<rparr>))).
      collapsed p \<longleftrightarrow> JStr (panel_id p) \<in> set (stored_collapsed (saveCollapsedPanels (l\<lparr>panels := ps\<rparr>)))"
    using collapsed_stored by simp
qed (use assms panels_ok_dest [OF assms(1)] in simp_all)

lemma panels_okI:
  assumes "distinct (ids (panels l))" "set (ids (panels l)) = set html"
    "list_all (\<lambda>v. selectable (js_text v)) (stored_order l)"
    "dragPanel l = None \<Longrightarrow> ids (reorder (stored_order l) (map html_panel html)) = ids (panels l)"
    "\<forall>p\<in>set (panels l). collapsed p \<longleftrightarrow> JStr (panel_id p) \<in> set (stored_collapsed l)"
    "events_collapsed l = is_one (localStorage l eventsCollapsedKey)"
    "showLibraryColors s = is_one (localStorage l showLibraryColorsKey)"
    "hideUnassigned s = is_one (localStorage l hideUnassignedKey)"
  shows "panels_ok html (l, s)"
  using assms unfolding panels_ok_def Let_def fst_conv snd_conv by blast

text \<open>The class \<open>dragging\<close> of a panel.\<close>

abbreviation set_dragging :: "string \<Rightarrow> bool \<Rightarrow> layout \<Rightarrow> layout" where
  "set_dragging i b \<equiv> update_panel i (\<lambda>p. p\<lparr>dragging := b\<rparr>)"

lemma set_dragging_panel:
  "panel_id (if panel_id p = i then p\<lparr>dragging := b\<rparr> else p) = panel_id p"
  "collapsed (if panel_id p = i then p\<lparr>dragging := b\<rparr> else p) = collapsed p"
  by simp_all

lemma set_dragging [simp]:
  "ids (panels (set_dragging i b l)) = ids (panels l)"
  "stored_order (set_dragging i b l) = stored_order l" "stored_collapsed (set_dragging i b l) = stored_collapsed l"
  "localStorage (set_dragging i b l) = localStorage l" "events_collapsed (set_dragging i b l) = events_collapsed l"
  by (simp_all add: update_panel_def ids_update del: map_map)

lemma set_dragging_set: "set (panels (set_dragging i b l)) = (\<lambda>p. if panel_id p = i then p\<lparr>dragging := b\<rparr> else p) ` set (panels l)"
  by (simp add: update_panel_def)

lemma set_dragging_ids: "panel_id ` set (panels (set_dragging i b l)) = panel_id ` set (panels l)"
  unfolding set_dragging_set image_image set_dragging_panel ..

lemma set_dragging_collapsed:
  "(\<forall>p\<in>set (panels (set_dragging i b l)). collapsed p \<longleftrightarrow> JStr (panel_id p) \<in> X) \<longleftrightarrow>
     (\<forall>p\<in>set (panels l). collapsed p \<longleftrightarrow> JStr (panel_id p) \<in> X)"
  unfolding set_dragging_set ball_simps set_dragging_panel ..

lemma panels_ok_dragstart:
  assumes "panels_ok html (l, s)"
  shows "panels_ok html (on_panel_dragstart i l, s)"
  unfolding on_panel_dragstart_def
  by (rule panels_okI) (use panels_ok_dest [OF assms] in \<open>simp_all add: set_dragging_ids set_dragging_collapsed\<close>)

lemma panels_ok_dragover:
  assumes ok: "panels_ok html (l, s)"
  shows "panels_ok html (on_panel_dragover t before l, s)"
proof (cases "dragPanel l")
  case (Some i)
  note d = panels_ok_dest [OF ok]
  have "set (move_panel before i t (panels l)) = set (panels l)"
    using mset_move_panel [OF d(1)] by (metis mset_eq_setD)
  then have "panels_ok html (l\<lparr>panels := move_panel before i t (panels l)\<rparr>, s)"
    using d distinct_move_panel [OF d(1), of before i t] Some by (intro panels_okI) simp_all
  with ok Some show ?thesis by (simp add: on_panel_dragover_def)
qed (use ok in \<open>simp add: on_panel_dragover_def\<close>)

lemma panels_ok_dragend:
  assumes "panels_ok html (l, s)" "good_html html"
  shows "panels_ok html (on_panel_dragend l, s)"
proof (cases "dragPanel l")
  case (Some i)
  note d = panels_ok_dest [OF assms(1)]
  have sel: "\<forall>x\<in>set (ids (panels l)). selectable x" using d(2) assms(2) unfolding good_html_def by blast
  have readback: "ids (reorder (map JStr (filter (\<lambda>i. i \<noteq> []) (ids (panels l)))) (map html_panel html)) = ids (panels l)"
    by (rule save_order_reads_back [OF assms(2) d(1) d(2)])
  let ?l = "setItem panelOrderKey (string_array (filter (\<lambda>i. i \<noteq> []) (ids (panels l)))) ((set_dragging i False l)\<lparr>dragPanel := None\<rparr>)"
  have order: "stored_order ?l = map JStr (filter (\<lambda>i. i \<noteq> []) (ids (panels l)))" by (simp add: string_array_def)
  have "panels_ok html (?l, s)"
  proof (rule panels_okI)
    show "list_all (\<lambda>v. selectable (js_text v)) (stored_order ?l)" using sel unfolding order by (auto simp: list_all_iff)
    show "ids (reorder (stored_order ?l) (map html_panel html)) = ids (panels ?l)"
      unfolding order readback by simp
  qed (use d in \<open>simp_all add: set_dragging_ids set_dragging_collapsed\<close>)
  moreover have "on_panel_dragend l = ?l" using Some by (simp only: on_panel_dragend_def savePanelOrder_def option.case) simp
  ultimately show ?thesis by simp
qed (use assms in \<open>simp add: on_panel_dragend_def\<close>)

lemma panels_ok_event:
  assumes "panels_ok html ls" "good_html html"
  shows "panels_ok html (panel_event e ls)"
proof -
  obtain l s where ls: "ls = (l, s)" by fastforce
  have ok: "panels_ok html (l, s)" using assms(1) ls by simp
  note d = panels_ok_dest [OF ok]
  have "panels_ok html (panel_event e (l, s))"
  proof (cases e)
    case (CollapseClick i)
    have "ids (map (\<lambda>p. if panel_id p = i then setPanelCollapsed (\<not> collapsed p) p else p) (panels l)) = ids (panels l)"
      by (rule ids_update) simp
    then show ?thesis
      using CollapseClick panels_ok_collapse [OF ok] by (simp only: panel_event.simps on_collapse_click_def update_panel_def)
  next
    case CollapseAll
    have "ids (map (setPanelCollapsed (any_expanded l)) (panels l)) = ids (panels l)" by simp
    then show ?thesis using CollapseAll panels_ok_collapse [OF ok] by (simp only: panel_event.simps on_collapse_all_def)
  next
    case (PanelDragStart i)
    then show ?thesis by (simp only: panel_event.simps panels_ok_dragstart [OF ok])
  next
    case (PanelDragOver t before)
    then show ?thesis by (simp only: panel_event.simps panels_ok_dragover [OF ok])
  next
    case PanelDragEnd
    then show ?thesis by (simp only: panel_event.simps panels_ok_dragend [OF ok assms(2)])
  next
    case EventsToggle
    have "panels_ok html (setEventsCollapsed (\<not> events_collapsed l) l, s)"
      by (rule panels_ok_same_panels [OF ok]) (use d in \<open>simp_all add: setEventsCollapsed_def stored_order_def stored_collapsed_def setItem_def is_one_def\<close>)
    with EventsToggle show ?thesis by (simp add: on_events_toggle_def)
  next
    case (ColorsToggle b)
    have "panels_ok html (setItem showLibraryColorsKey (flag b) l, s\<lparr>showLibraryColors := b\<rparr>)"
      by (rule panels_ok_same_panels [OF ok]) (use d in simp_all)
    with ColorsToggle show ?thesis by simp
  next
    case (HideToggle b)
    have "panels_ok html (setItem hideUnassignedKey (flag b) l, s\<lparr>hideUnassigned := b\<rparr>)"
      by (rule panels_ok_same_panels [OF ok]) (use d in simp_all)
    with HideToggle show ?thesis by simp
  qed
  then show ?thesis by (simp only: ls)
qed

lemma panels_ok_events: "panels_ok html ls \<Longrightarrow> good_html html \<Longrightarrow> panels_ok html (fold panel_event es ls)"
  by (induction es arbitrary: ls) (simp_all add: panels_ok_event)

text \<open>The layout a load of the page shows.\<close>

lemma visible_after_init:
  assumes "initDashboardUI (fresh_layout html store, s) = (ls, True)"
  shows "visible_layout ls =
     (map (\<lambda>p. (panel_id p, JStr (panel_id p) \<in> set (stored_collapsed (fresh_layout html store))))
        (reorder (stored_order (fresh_layout html store)) (map html_panel html)),
      is_one (store eventsCollapsedKey), is_one (store showLibraryColorsKey), is_one (store hideUnassignedKey))"
  using assms
  by (auto simp: initDashboardUI_def restorePanelOrder_def Let_def restoreCollapsedPanels_def updateCollapseAllBtn_def
      setEventsCollapsed_def visible_layout_def fresh_layout_def setItem_def stored_order_def stored_collapsed_def
      split: if_splits)

lemma reorder_fresh:
  assumes "good_html html"
  shows "distinct (ids (reorder vs (map html_panel html)))" "set (ids (reorder vs (map html_panel html))) = set html"
proof -
  have "mset (ids (reorder vs (map html_panel html))) = mset (ids (map html_panel html))"
    by (rule mset_ids) (rule mset_reorder)
  then have "mset (ids (reorder vs (map html_panel html))) = mset html" by (simp only: ids_html)
  with assms show "distinct (ids (reorder vs (map html_panel html)))" "set (ids (reorder vs (map html_panel html))) = set html"
    by (metis good_html_def mset_eq_imp_distinct_iff, metis mset_eq_setD)
qed

lemma panels_ok_init:
  assumes "initDashboardUI (fresh_layout html store, s) = (ls, True)" "good_html html"
  shows "panels_ok html ls"
proof -
  obtain l t where ls: "ls = (l, t)" by fastforce
  let ?f = "fresh_layout html store"
  let ?ps = "map (\<lambda>p. setPanelCollapsed (JStr (panel_id p) \<in> set (stored_collapsed ?f)) p) (reorder (stored_order ?f) (map html_panel html))"
  have l: "panels l = ?ps" "dragPanel l = None" "stored_order l = stored_order ?f" "stored_collapsed l = stored_collapsed ?f"
    "list_all (\<lambda>v. selectable (js_text v)) (stored_order ?f)"
    "events_collapsed l = is_one (localStorage l eventsCollapsedKey)"
    "showLibraryColors t = is_one (localStorage l showLibraryColorsKey)"
    "hideUnassigned t = is_one (localStorage l hideUnassignedKey)"
    using assms(1) ls
    by (auto simp: initDashboardUI_def restorePanelOrder_def Let_def restoreCollapsedPanels_def updateCollapseAllBtn_def
        setEventsCollapsed_def fresh_layout_def setItem_def stored_order_def stored_collapsed_def is_one_def split: if_splits)
  have ids: "ids ?ps = ids (reorder (stored_order ?f) (map html_panel html))" by simp
  show ?thesis
    unfolding ls
  proof (rule panels_okI)
    show "distinct (ids (panels l))" unfolding l ids by (rule reorder_fresh [OF assms(2)])
    show "set (ids (panels l)) = set html" unfolding l ids by (rule reorder_fresh [OF assms(2)])
    show "ids (reorder (stored_order l) (map html_panel html)) = ids (panels l)" unfolding l ids ..
    show "\<forall>p\<in>set (panels l). collapsed p \<longleftrightarrow> JStr (panel_id p) \<in> set (stored_collapsed l)" unfolding l by simp
  qed (use l in simp_all)
qed

lemma init_succeeds:
  "list_all (\<lambda>v. selectable (js_text v)) (stored_order (fresh_layout html store)) \<Longrightarrow>
     \<exists>ls. initDashboardUI (fresh_layout html store, s) = (ls, True)"
  by (auto simp: initDashboardUI_def restorePanelOrder_def Let_def fresh_layout_def stored_order_def)

lemma good_dashboard_panels [simp]: "good_html dashboard_panels"
  by (simp add: good_html_def dashboard_panels_def selectable_def)

section \<open>Properties\<close>

text \<open>
  C5: The dashboard's layout survives a reload. Whatever the user does to the panels (dragging, collapsing one or
  all, the activity log, the two switches), and whatever an earlier visit left in \<open>localStorage\<close>, once no panel is
  being dragged a new load of the page shows the panels in the same order, collapsed as they were, with the same
  switches; and no panel is ever lost or doubled.
\<close>

theorem dashboard_layout_survives_reload:
  assumes "initDashboardUI (fresh_layout dashboard_panels store, s) = (ls0, True)"
    and "ls = fold panel_event es ls0" and "dragPanel (fst ls) = None"
  shows "\<exists>ls'. initDashboardUI (fresh_layout dashboard_panels (localStorage (fst ls)), s') = (ls', True) \<and>
     visible_layout ls' = visible_layout ls \<and> mset (map panel_id (panels (fst ls))) = mset dashboard_panels"
proof -
  obtain l t where ls: "ls = (l, t)" by fastforce
  have ok: "panels_ok dashboard_panels (l, t)"
    using panels_ok_events [OF panels_ok_init [OF assms(1)]] assms(2) ls by simp
  note d = panels_ok_dest [OF ok]
  let ?f = "fresh_layout dashboard_panels (localStorage l)"
  have st: "stored_order ?f = stored_order l" "stored_collapsed ?f = stored_collapsed l"
    by (simp_all add: fresh_layout_def stored_order_def stored_collapsed_def)
  then obtain ls' where init: "initDashboardUI (?f, s') = (ls', True)" using init_succeeds [of _ "localStorage l" s'] d(3) by metis
  let ?g = "\<lambda>i. (i, JStr i \<in> set (stored_collapsed l))"
  have "map (\<lambda>p. ?g (panel_id p)) (reorder (stored_order l) (map html_panel dashboard_panels)) = map ?g (ids (panels l))"
    using d(4) assms(3) ls by (metis (no_types, lifting) comp_apply fst_conv map_eq_conv map_map)
  also have "\<dots> = map (\<lambda>p. (panel_id p, collapsed p)) (panels l)" using d(5) by simp
  finally have "visible_layout ls' = visible_layout (l, t)"
    using visible_after_init [OF init] d(6-8) unfolding st by (simp add: visible_layout_def)
  moreover have "mset (ids (panels l)) = mset dashboard_panels"
    using d(1,2) good_dashboard_panels unfolding good_html_def by (metis set_eq_iff_mset_eq_distinct)
  ultimately show ?thesis using init ls by auto
qed

theorem dashboard_layout_survives_reload_witness:
  "\<exists>ls0 ls ls'. initDashboardUI (fresh_layout dashboard_panels Map.empty, initial_app) = (ls0, True) \<and>
     ls = fold panel_event [CollapseClick ''drives'', PanelDragStart ''slots'', PanelDragOver ''outside'' True, PanelDragEnd] ls0 \<and>
     initDashboardUI (fresh_layout dashboard_panels (localStorage (fst ls)), initial_app) = (ls', True) \<and>
     visible_layout ls' = visible_layout ls \<and> mset (map panel_id (panels (fst ls))) = mset dashboard_panels"
proof -
  obtain ls0 where init: "initDashboardUI (fresh_layout dashboard_panels Map.empty, initial_app) = (ls0, True)"
    using init_succeeds [of dashboard_panels Map.empty initial_app] by (auto simp: fresh_layout_def stored_order_def)
  let ?es = "[CollapseClick ''drives'', PanelDragStart ''slots'', PanelDragOver ''outside'' True, PanelDragEnd]"
  have "dragPanel (fst (fold panel_event ?es ls0)) = None"
    by (cases ls0) (simp add: on_panel_dragend_def savePanelOrder_def setItem_def split: option.split)
  from dashboard_layout_survives_reload [OF init refl this, of initial_app] init show ?thesis by blast
qed

text \<open>A drag from panel \<open>i\<close> across panel \<open>t\<close> moves the panel next to it and stores the new order.\<close>

lemma panel_drag_moves_panel:
  assumes "distinct (map panel_id (panels l))" and "i \<in> set (map panel_id (panels l))"
    and "t \<in> set (map panel_id (panels l))" and "i \<noteq> t"
  shows "\<exists>xs ys l'. on_panel_dragend (on_panel_dragover t before (on_panel_dragstart i l)) = l' \<and>
     filter (\<lambda>j. j \<noteq> i) (map panel_id (panels l)) = xs @ t # ys \<and>
     map panel_id (panels l') = xs @ (if before then [i, t] else [t, i]) @ ys \<and>
     localStorage l' panelOrderKey = Some (string_array (filter (\<lambda>j. j \<noteq> []) (map panel_id (panels l'))))"
proof -
  let ?l1 = "on_panel_dragstart i l"
  have l1: "ids (panels ?l1) = ids (panels l)" "dragPanel ?l1 = Some i"
    by (simp_all add: on_panel_dragstart_def del: map_map)
  then obtain p where p: "js_find (\<lambda>p. panel_id p = i) (panels ?l1) = Some p" "panel_id p = i"
    using assms(2) find_panel find_panelD by (metis option.exhaust)
  have f: "ids (filter (\<lambda>q. panel_id q \<noteq> i) (panels ?l1)) = filter (\<lambda>j. j \<noteq> i) (ids (panels l))"
    by (simp only: l1(1) [symmetric] filter_map o_def)
  then have "t \<in> set (ids (filter (\<lambda>q. panel_id q \<noteq> i) (panels ?l1)))" using assms(3,4) by (simp only: set_filter) simp
  from ids_insert_at [OF this p(2), of before] obtain xs ys where
    xy: "filter (\<lambda>j. j \<noteq> i) (ids (panels l)) = xs @ t # ys"
      "ids (move_panel before i t (panels ?l1)) = xs @ (if before then [i, t] else [t, i]) @ ys"
    unfolding f by (auto simp: move_panel_def p(1))
  let ?l2 = "?l1\<lparr>panels := move_panel before i t (panels ?l1)\<rparr>"
  have l2: "on_panel_dragover t before ?l1 = ?l2" using l1(2) assms(4) by (simp add: on_panel_dragover_def)
  let ?l3 = "setItem panelOrderKey (string_array (filter (\<lambda>j. j \<noteq> []) (ids (panels ?l2)))) ((set_dragging i False ?l2)\<lparr>dragPanel := None\<rparr>)"
  have l3: "on_panel_dragend ?l2 = ?l3"
    using l1(2) set_dragging(1) [of i False ?l2] by (simp add: on_panel_dragend_def savePanelOrder_def del: map_map)
  have "ids (panels ?l3) = ids (panels ?l2)"
    using set_dragging(1) [of i False ?l2] by simp
  then show ?thesis using xy unfolding l2 l3 by (intro exI [of _ xs] exI [of _ ys] exI [of _ ?l3]) simp
qed

end
