(* ===== verification/Boot.thy ===== *)
theory Boot
  imports Panels
begin

text \<open>
  Starting the page: app.js \<open>boot\<close>, the three screens it switches between, the login, bootstrap, password and
  logout handlers, the navigation, and the update check with its version comparison. \<open>page\<close> is the part of
  the document these functions change, with the user they store in \<open>state\<close>; closing the event stream, which
  \<open>boot\<close> does first, is \<open>boot_disconnect\<close> of Live_Stream.
\<close>

section \<open>Version comparison\<close>

text \<open>\<open>v.split(".").map(Number)\<close>, and the i-th part with \<open>|| 0\<close> (a part that is no number counts as 0).\<close>

definition version_parts :: "string \<Rightarrow> int option list" where
  "version_parts v = map js_number (split_on (CHR ''.'') v)"

definition part_at :: "int option list \<Rightarrow> nat \<Rightarrow> int" where
  "part_at a i = (if i < length a then (case a ! i of Some n \<Rightarrow> n | None \<Rightarrow> 0) else 0)"

text \<open>The loop from part \<open>i\<close> with \<open>k\<close> parts to go.\<close>

primrec version_loop :: "nat \<Rightarrow> nat \<Rightarrow> int option list \<Rightarrow> int option list \<Rightarrow> bool" where
  "version_loop 0 i a b = False"
| "version_loop (Suc k) i a b =
     (if part_at a i \<noteq> part_at b i then part_at a i > part_at b i else version_loop k (Suc i) a b)"

definition isNewerVersion :: "string \<Rightarrow> string \<Rightarrow> bool" where
  "isNewerVersion latest current =
     (let a = version_parts latest; b = version_parts current in version_loop (max (length a) (length b)) 0 a b)"

lemma version_loop_iff:
  "version_loop k i a b \<longleftrightarrow>
     (\<exists>j. i \<le> j \<and> j < i + k \<and> (\<forall>l. i \<le> l \<and> l < j \<longrightarrow> part_at a l = part_at b l) \<and> part_at b j < part_at a j)"
proof (induction k arbitrary: i)
  case (Suc k)
  show ?case
  proof (cases "part_at a i = part_at b i")
    case True
    then have "version_loop (Suc k) i a b \<longleftrightarrow> version_loop k (Suc i) a b" by simp
    also have "\<dots> \<longleftrightarrow> (\<exists>j. i \<le> j \<and> j < i + Suc k \<and> (\<forall>l. i \<le> l \<and> l < j \<longrightarrow> part_at a l = part_at b l) \<and> part_at b j < part_at a j)"
      unfolding Suc.IH
    proof (intro iffI; elim exE conjE)
      fix j assume j: "Suc i \<le> j" "j < Suc i + k" "\<forall>l. Suc i \<le> l \<and> l < j \<longrightarrow> part_at a l = part_at b l" "part_at b j < part_at a j"
      have "part_at a l = part_at b l" if "i \<le> l" "l < j" for l using that j(3) True by (cases "l = i") auto
      with j show "\<exists>j. i \<le> j \<and> j < i + Suc k \<and> (\<forall>l. i \<le> l \<and> l < j \<longrightarrow> part_at a l = part_at b l) \<and> part_at b j < part_at a j"
        by (intro exI [of _ j]) auto
    next
      fix j assume j: "i \<le> j" "j < i + Suc k" "\<forall>l. i \<le> l \<and> l < j \<longrightarrow> part_at a l = part_at b l" "part_at b j < part_at a j"
      then have "j \<noteq> i" using True by auto
      with j show "\<exists>j\<ge>Suc i. j < Suc i + k \<and> (\<forall>l. Suc i \<le> l \<and> l < j \<longrightarrow> part_at a l = part_at b l) \<and> part_at b j < part_at a j"
        by (intro exI [of _ j]) auto
    qed
    finally show ?thesis .
  next
    case False
    then show ?thesis by (force simp: not_less_eq_eq le_less)
  qed
qed simp

text \<open>Parts beyond both lists are 0, so the bound of the loop does not matter.\<close>

lemma isNewerVersion_iff:
  "isNewerVersion v w \<longleftrightarrow>
     (\<exists>j. (\<forall>l<j. part_at (version_parts v) l = part_at (version_parts w) l) \<and>
        part_at (version_parts w) j < part_at (version_parts v) j)"
proof -
  let ?a = "version_parts v" and ?b = "version_parts w"
  have "j < max (length ?a) (length ?b)" if "part_at ?b j < part_at ?a j" for j
    using that by (auto simp: part_at_def split: if_splits)
  then show ?thesis by (auto simp: isNewerVersion_def Let_def version_loop_iff)
qed

definition same_version :: "string \<Rightarrow> string \<Rightarrow> bool" where
  "same_version v w \<longleftrightarrow> (\<forall>i. part_at (version_parts v) i = part_at (version_parts w) i)"

lemma isNewer_trans: "isNewerVersion u v \<Longrightarrow> isNewerVersion v w \<Longrightarrow> isNewerVersion u w"
proof -
  assume "isNewerVersion u v" "isNewerVersion v w"
  then obtain j k where
    j: "\<forall>l<j. part_at (version_parts u) l = part_at (version_parts v) l" "part_at (version_parts v) j < part_at (version_parts u) j" and
    k: "\<forall>l<k. part_at (version_parts v) l = part_at (version_parts w) l" "part_at (version_parts w) k < part_at (version_parts v) k"
    by (auto simp: isNewerVersion_iff)
  show ?thesis
    unfolding isNewerVersion_iff
  proof (intro exI [of _ "min j k"] conjI)
    show "\<forall>l<min j k. part_at (version_parts u) l = part_at (version_parts w) l" using j(1) k(1) by simp
    show "part_at (version_parts w) (min j k) < part_at (version_parts u) (min j k)"
      using j k by (cases j k rule: linorder_cases) (auto simp: min_def)
  qed
qed

lemma newer_or_same: "isNewerVersion v w \<or> isNewerVersion w v \<or> same_version v w"
proof (cases "same_version v w")
  case False
  then have ex: "\<exists>i. part_at (version_parts v) i \<noteq> part_at (version_parts w) i" by (simp add: same_version_def)
  define j where "j = (LEAST i. part_at (version_parts v) i \<noteq> part_at (version_parts w) i)"
  have "part_at (version_parts v) j \<noteq> part_at (version_parts w) j" unfolding j_def using ex by (rule LeastI_ex)
  moreover have "\<forall>l<j. part_at (version_parts v) l = part_at (version_parts w) l"
    unfolding j_def using not_less_Least by blast
  ultimately show ?thesis by (metis isNewerVersion_iff linorder_neqE)
qed simp

section \<open>The page\<close>

text \<open>
  A screen or form is shown when its \<open>hidden\<close> property is false. \<open>random\<close> is the value of \<open>Math.random()\<close> the next
  call sees, times four and rounded down.
\<close>

record page =
  app_shown :: bool
  auth_shown :: bool
  wizard_shown :: bool
  shown_forms :: "string list"
  header_bg :: string
  random :: nat
  loginVersion :: string
  appVersion :: string
  updateBadge :: "string option"
  whoami :: string
  admin_nav :: bool
  view :: string
  admin_section :: string
  bootstrapError :: string
  loginError :: string
  cpError :: string
  page_ui :: "layout \<times> app"

definition AUTH_HEADER_BACKGROUNDS :: "string list" where
  "AUTH_HEADER_BACKGROUNDS = [''/assets/img/auth-header1.gif'', ''/assets/img/auth-header2.webp'',
     ''/assets/img/auth-header3.jpg'', ''/assets/img/auth-header4.gif'']"

definition pickAuthHeaderBg :: "page \<Rightarrow> page" where
  "pickAuthHeaderBg p = p\<lparr>header_bg := AUTH_HEADER_BACKGROUNDS ! (random p mod length AUTH_HEADER_BACKGROUNDS)\<rparr>"

definition setVersionDisplay :: "string \<Rightarrow> page \<Rightarrow> page" where
  "setVersionDisplay v p =
     (let text = (if v = [] then [] else CHR ''v'' # v) in p\<lparr>loginVersion := text, appVersion := text\<rparr>)"

section \<open>The update check\<close>

definition strip_v :: "string \<Rightarrow> string" where
  "strip_v s = (case s of [] \<Rightarrow> [] | c # cs \<Rightarrow> if c = CHR ''v'' then cs else s)"

definition releases_request :: request where
  "releases_request = get_req ''https://api.github.com/repos/swenske/gotochanger/releases/latest''"

definition show_update :: "string \<Rightarrow> string \<Rightarrow> page \<Rightarrow> page" where
  "show_update tag current p =
     (let latest = strip_v tag
      in if latest \<noteq> [] \<and> isNewerVersion latest current
         then p\<lparr>updateBadge := Some (CHR ''v'' # latest @ '' available'')\<rparr> else p)"

text \<open>A rejected request, an answer that is not ok and a body that is no release leave the page as it is.\<close>

definition checkForUpdate :: "string \<Rightarrow> (page, unit) prog" where
  "checkForUpdate current =
     (if current = [] \<or> current = ''dev'' then Return ()
      else Fetch releases_request (\<lambda>r.
        case r of
          NetworkError e \<Rightarrow> Return ()
        | Answered code txt body \<Rightarrow>
            if \<not> http_ok code then Return ()
            else (case body of Some (PRelease tag) \<Rightarrow> update (show_update tag current) | _ \<Rightarrow> Return ())))"

section \<open>Screens\<close>

definition form_of :: "string \<Rightarrow> string" where
  "form_of which =
     (if which = ''bootstrap'' then ''bootstrapForm'' else if which = ''login'' then ''loginForm''
      else ''changePasswordForm'')"

definition showAuthScreen :: "string \<Rightarrow> page \<Rightarrow> page" where
  "showAuthScreen which p =
     (pickAuthHeaderBg (p\<lparr>app_shown := False, auth_shown := True, wizard_shown := False\<rparr>))\<lparr>shown_forms := [form_of which]\<rparr>"

definition showWizardScreen :: "wizard \<Rightarrow> (page, unit) prog" where
  "showWizardScreen w =
     io_seq (update (\<lambda>p. p\<lparr>app_shown := False, auth_shown := False, wizard_shown := True\<rparr>)) (start (RenderWizardStep w))"

definition admin_sections :: "string list" where
  "admin_sections = [''users'', ''tokens'', ''drive-types'', ''tape-types'', ''tape-sets'', ''drives'', ''magazines'',
     ''mailboxes'', ''logical-libraries'', ''latency'', ''cleaning-tapes'', ''settings'', ''prometheus'', ''telemetry'',
     ''security'', ''backup'', ''reset'']"

text \<open>\<open>admin_section\<close> is the button marked active and the one section shown.\<close>

definition selectAdminSection :: "string \<Rightarrow> (page, unit) prog" where
  "selectAdminSection section_name =
     io_seq (update (\<lambda>p. p\<lparr>admin_section := section_name\<rparr>)) (start (LoadAdmin section_name))"

definition switchView :: "string \<Rightarrow> (page, unit) prog" where
  "switchView v =
     io_seq (update (\<lambda>p. p\<lparr>view := v\<rparr>)) (if v = ''admin'' then selectAdminSection ''users'' else Return ())"

definition show_user :: "auth_state \<Rightarrow> page \<Rightarrow> page" where
  "show_user a p =
     p\<lparr>auth_shown := False, wizard_shown := False, app_shown := True,
       whoami := auth_username a @ '' ('' @ auth_role a @ '')'', admin_nav := auth_role a = ''admin'',
       page_ui := (fst (page_ui p), (snd (page_ui p))\<lparr>role := auth_role a, username := auth_username a\<rparr>)\<rparr>"

definition run_init_ui :: "(page, unit) prog" where
  "run_init_ui =
     Get (\<lambda>p. case initDashboardUI (page_ui p) of (ui, ok) \<Rightarrow>
       Set_State (p\<lparr>page_ui := ui\<rparr>) (if ok then Return () else io_throw ''SyntaxError''))"

definition showApp :: "auth_state \<Rightarrow> (page, unit) prog" where
  "showApp a =
     io_seq (update (show_user a))
       (io_seq run_init_ui
         (io_seq (switchView ''dashboard'')
           (io_seq (start LoadTapeSetFamilyMap)
             (io_seq (start LoadBackupLastRun)
               (io_seq (start Refresh) (start ConnectStream))))))"

definition enterAppOrWizard :: "auth_state \<Rightarrow> (page, unit) prog" where
  "enterAppOrWizard a =
     (if auth_role a \<noteq> ''admin'' then showApp a
      else io_bind (api (get_req ''/api/v1/wizard'')) (\<lambda>answer.
        case answer of
          Some (PWizard w) \<Rightarrow> if completed w then showApp a else showWizardScreen w
        | _ \<Rightarrow> io_throw ''TypeError''))"

section \<open>boot\<close>

text \<open>
  A failed request, or an answer whose body is no JSON, counts as not authenticated; the status of the answer is not
  looked at, so an error body (which has none of the fields) counts as not authenticated too. A body \<open>null\<close>, on which
  \<open>s.version\<close> would throw, is not an answer of this endpoint.
\<close>

definition no_session :: auth_state where
  "no_session = \<lparr>bootstrap_required = False, authenticated = False, must_change_password = False, auth_role = [],
     auth_username = [], auth_version = []\<rparr>"

definition auth_of :: "payload response \<Rightarrow> auth_state" where
  "auth_of r = (case r of Answered code txt (Some (PAuth a)) \<Rightarrow> a | _ \<Rightarrow> no_session)"

definition boot :: "(page, unit) prog" where
  "boot =
     Fetch (get_req ''/api/v1/auth/state'') (\<lambda>r.
       let a = auth_of r in
       io_seq (update (setVersionDisplay (auth_version a)))
         (io_seq (start (CheckForUpdate (auth_version a)))
           (if bootstrap_required a then update (showAuthScreen ''bootstrap'')
            else if \<not> authenticated a then update (showAuthScreen ''login'')
            else if must_change_password a then update (showAuthScreen ''changePassword'')
            else enterAppOrWizard a)))"

section \<open>The forms\<close>

definition on_bootstrap_submit :: "string \<Rightarrow> string \<Rightarrow> (page, unit) prog" where
  "on_bootstrap_submit password confirm =
     io_catch
       (io_bind (api (post_req ''/api/v1/auth/bootstrap'' (JObj [(''password'', JStr password), (''confirm_password'', JStr confirm)])))
         (\<lambda>s. case s of Some (PAuth a) \<Rightarrow> enterAppOrWizard a | _ \<Rightarrow> io_throw ''TypeError''))
       (\<lambda>e. update (\<lambda>p. p\<lparr>bootstrapError := e\<rparr>))"

definition on_login_submit :: "string \<Rightarrow> string \<Rightarrow> (page, unit) prog" where
  "on_login_submit user password =
     io_catch
       (io_bind (api (post_req ''/api/v1/auth/login'' (JObj [(''username'', JStr user), (''password'', JStr password)])))
         (\<lambda>s. case s of
             Some (PAuth a) \<Rightarrow> if must_change_password a then update (showAuthScreen ''changePassword'') else enterAppOrWizard a
           | _ \<Rightarrow> io_throw ''TypeError''))
       (\<lambda>e. update (\<lambda>p. p\<lparr>loginError := e\<rparr>))"

definition on_change_password_submit :: "string \<Rightarrow> string \<Rightarrow> (page, unit) prog" where
  "on_change_password_submit current new =
     io_catch
       (io_seq (api (post_req ''/api/v1/auth/change-password'' (JObj [(''current_password'', JStr current), (''new_password'', JStr new)])))
         (start Boot))
       (\<lambda>e. update (\<lambda>p. p\<lparr>cpError := e\<rparr>))"

definition on_logout :: "(page, unit) prog" where
  "on_logout = io_seq (io_catch (api (post_req ''/api/v1/auth/logout'' JNull)) (\<lambda>e. Return None)) (start Boot)"

section \<open>Runs\<close>

lemma exec_showApp:
  "exec R (showApp a) p tr ts p' r \<longleftrightarrow>
     tr = [] \<and>
     (case initDashboardUI (page_ui (show_user a p)) of (ui, ok) \<Rightarrow>
        if ok then r = Done () \<and> p' = (show_user a p)\<lparr>page_ui := ui, view := ''dashboard''\<rparr> \<and>
          ts = [LoadTapeSetFamilyMap, LoadBackupLastRun, Refresh, ConnectStream]
        else r = Failed ''SyntaxError'' \<and> p' = (show_user a p)\<lparr>page_ui := ui\<rparr> \<and> ts = [])"
  by (cases "initDashboardUI (page_ui (show_user a p))")
    (auto simp: showApp_def io_seq_def exec_bind run_init_ui_def io_throw_def switchView_def)

lemma exec_showWizardScreen:
  "exec R (showWizardScreen w) p tr ts p' r \<longleftrightarrow>
     tr = [] \<and> ts = [RenderWizardStep w] \<and> r = Done () \<and>
     p' = p\<lparr>app_shown := False, auth_shown := False, wizard_shown := True\<rparr>"
  by (auto simp: showWizardScreen_def io_seq_def exec_bind)

text \<open>What the screens show, and the relation that leaves them to the running program.\<close>

definition screens :: "page \<Rightarrow> bool \<times> bool \<times> bool \<times> string list" where
  "screens p = (app_shown p, auth_shown p, wizard_shown p, shown_forms p)"

definition keeps_screens :: "page \<Rightarrow> page \<Rightarrow> bool" where
  "keeps_screens p q \<longleftrightarrow> screens q = screens p"

definition only_auth :: "string \<Rightarrow> page \<Rightarrow> bool" where
  "only_auth form p \<longleftrightarrow> \<not> app_shown p \<and> auth_shown p \<and> \<not> wizard_shown p \<and> shown_forms p = [form]"

definition only_wizard :: "page \<Rightarrow> bool" where
  "only_wizard p \<longleftrightarrow> \<not> app_shown p \<and> \<not> auth_shown p \<and> wizard_shown p"

definition only_app :: "page \<Rightarrow> bool" where
  "only_app p \<longleftrightarrow> app_shown p \<and> \<not> auth_shown p \<and> \<not> wizard_shown p"

lemmas screen_defs = only_auth_def only_wizard_def only_app_def screens_def keeps_screens_def

lemma show_user_screen [simp]:
  "app_shown (show_user a p)" "\<not> auth_shown (show_user a p)" "\<not> wizard_shown (show_user a p)"
  by (simp_all add: show_user_def)

lemma showAuthScreen_only: "only_auth (form_of which) (showAuthScreen which p)"
  by (simp add: showAuthScreen_def pickAuthHeaderBg_def only_auth_def)

lemma setVersionDisplay_screens: "screens (setVersionDisplay v p) = screens p"
  by (simp add: setVersionDisplay_def Let_def screens_def)

text \<open>The wizard answers that let an administrator in.\<close>

definition wizard_answer :: "bool \<Rightarrow> payload response \<Rightarrow> bool" where
  "wizard_answer done q \<longleftrightarrow> (\<exists>w. answer_outcome q = Done (Some (PWizard w)) \<and> completed w = done)"

lemma enterAppOrWizard_ends:
  assumes "exec keeps_screens (enterAppOrWizard a) p tr ts p' r"
  shows "if auth_role a \<noteq> ''admin'' then only_app p' \<and> answers tr = []
     else \<exists>q. answers tr = [q] \<and>
       (if wizard_answer True q then only_app p'
        else if wizard_answer False q then only_wizard p' \<and> r = Done ()
        else screens p' = screens p \<and> (\<exists>e. r = Failed e))"
proof (cases "auth_role a = ''admin''")
  case False
  with assms show ?thesis
    by (auto simp: enterAppOrWizard_def exec_showApp only_app_def split: if_splits prod.splits)
next
  case True
  from assms True consider
      (ok) b p1 tr1 tr2 ts1 ts2 where "exec keeps_screens (api (get_req ''/api/v1/wizard'')) p tr1 ts1 p1 (Done b)"
        "exec keeps_screens (case b of Some (PWizard w) \<Rightarrow> if completed w then showApp a else showWizardScreen w
          | _ \<Rightarrow> io_throw ''TypeError'') p1 tr2 ts2 p' r" "tr = tr1 @ tr2" "ts = ts1 @ ts2"
    | (failed) e where "exec keeps_screens (api (get_req ''/api/v1/wizard'')) p tr ts p' (Failed e)" "r = Failed e"
    by (auto simp: enterAppOrWizard_def exec_bind)
  then show ?thesis
  proof cases
    case ok
    then obtain q where q: "tr1 = [SFetch (get_req ''/api/v1/wizard'') q]" "answer_outcome q = Done b" "screens p1 = screens p"
      by (auto simp: exec_api keeps_screens_def)
    show ?thesis
    proof (cases "\<exists>w. b = Some (PWizard w)")
      case True
      then obtain w where w: "b = Some (PWizard w)" by blast
      with ok q \<open>auth_role a = ''admin''\<close> show ?thesis
        by (cases "completed w")
          (auto simp: exec_showApp exec_showWizardScreen only_app_def only_wizard_def wizard_answer_def split: if_splits prod.splits)
    next
      case False
      then have "p' = p1" "tr2 = []" "r = Failed ''TypeError''"
        using ok(2) by (auto simp: io_throw_def split: option.splits payload.splits)
      with False ok(3) q True show ?thesis by (auto simp: wizard_answer_def)
    qed
  next
    case failed
    with True show ?thesis by (auto simp: exec_api keeps_screens_def wizard_answer_def)
  qed
qed

lemma form_of_names [simp]:
  "form_of ''bootstrap'' = ''bootstrapForm''" "form_of ''login'' = ''loginForm''"
  "form_of ''changePassword'' = ''changePasswordForm''"
  by (simp_all add: form_of_def)

lemma boot_runs:
  assumes "exec keeps_screens boot p tr ts p' r"
  obtains q p1 tr1 ts1 where "tr = SFetch (get_req ''/api/v1/auth/state'') q # tr1"
    "ts = CheckForUpdate (auth_version (auth_of q)) # ts1" "screens p1 = screens p"
    "exec keeps_screens
       (if bootstrap_required (auth_of q) then update (showAuthScreen ''bootstrap'')
        else if \<not> authenticated (auth_of q) then update (showAuthScreen ''login'')
        else if must_change_password (auth_of q) then update (showAuthScreen ''changePassword'')
        else enterAppOrWizard (auth_of q)) p1 tr1 ts1 p' r"
proof -
  from assms obtain q s1 tr1 ts1 where "tr = SFetch (get_req ''/api/v1/auth/state'') q # tr1" "screens s1 = screens p"
    "ts = CheckForUpdate (auth_version (auth_of q)) # ts1"
    "exec keeps_screens
       (if bootstrap_required (auth_of q) then update (showAuthScreen ''bootstrap'')
        else if \<not> authenticated (auth_of q) then update (showAuthScreen ''login'')
        else if must_change_password (auth_of q) then update (showAuthScreen ''changePassword'')
        else enterAppOrWizard (auth_of q)) (setVersionDisplay (auth_version (auth_of q)) s1) tr1 ts1 p' r"
    unfolding boot_def Let_def io_seq_def by (simp only: exec_simps exec_bind exec_update exec_start keeps_screens_def) auto
  then show thesis using that setVersionDisplay_screens by metis
qed

section \<open>Properties\<close>

text \<open>
  C4: What \<open>boot\<close> leaves on the screen, for every answer of the server: the one form the session asks for, alone; for a
  signed-in user who need not change the password, the dashboard alone when the user is no administrator; for an
  administrator the dashboard alone exactly when the wizard's state is read and complete, the wizard alone exactly when
  it is read and not complete, and otherwise (it could not be read) the screens as they were and an unhandled error: on
  the first load, nothing at all.
\<close>

theorem boot_screen:
  assumes "exec keeps_screens boot p tr ts p' r"
  shows "\<exists>q qs. answers tr = q # qs \<and>
     (let a = auth_of q in
        if bootstrap_required a then only_auth ''bootstrapForm'' p' \<and> qs = []
        else if \<not> authenticated a then only_auth ''loginForm'' p' \<and> qs = []
        else if must_change_password a then only_auth ''changePasswordForm'' p' \<and> qs = []
        else if auth_role a \<noteq> ''admin'' then only_app p' \<and> qs = []
        else \<exists>w. qs = [w] \<and>
          (if wizard_answer True w then only_app p'
           else if wizard_answer False w then only_wizard p' \<and> r = Done ()
           else screens p' = screens p \<and> (\<exists>e. r = Failed e)))"
proof -
  obtain q p1 tr1 ts1 where b: "tr = SFetch (get_req ''/api/v1/auth/state'') q # tr1" "screens p1 = screens p"
    "exec keeps_screens
       (if bootstrap_required (auth_of q) then update (showAuthScreen ''bootstrap'')
        else if \<not> authenticated (auth_of q) then update (showAuthScreen ''login'')
        else if must_change_password (auth_of q) then update (showAuthScreen ''changePassword'')
        else enterAppOrWizard (auth_of q)) p1 tr1 ts1 p' r"
    by (rule boot_runs [OF assms])
  note only = showAuthScreen_only [of "''bootstrap''", simplified] showAuthScreen_only [of "''login''", simplified]
    showAuthScreen_only [of "''changePassword''", simplified]
  show ?thesis
  proof (cases "bootstrap_required (auth_of q) \<or> \<not> authenticated (auth_of q) \<or> must_change_password (auth_of q)")
    case True
    then show ?thesis using b only by (auto simp: Let_def)
  next
    case False
    then have "exec keeps_screens (enterAppOrWizard (auth_of q)) p1 tr1 ts1 p' r" using b(3) by simp
    from enterAppOrWizard_ends [OF this, unfolded b(2)] False show ?thesis
      by (intro exI [of _ q] exI [of _ "answers tr1"]) (simp add: b(1) Let_def)
  qed
qed

definition blank_page :: page where
  "blank_page = \<lparr>app_shown = False, auth_shown = False, wizard_shown = False, shown_forms = [], header_bg = [],
     random = 2, loginVersion = [], appVersion = [], updateBadge = None, whoami = [], admin_nav = False,
     view = ''dashboard'', admin_section = ''users'', bootstrapError = [], loginError = [], cpError = [],
     page_ui = (fresh_layout dashboard_panels Map.empty, initial_app)\<rparr>"

theorem boot_screen_witness:
  "only_auth ''loginForm'' (showAuthScreen ''login'' (setVersionDisplay [] blank_page))"
proof -
  have "exec keeps_screens boot blank_page [SFetch (get_req ''/api/v1/auth/state'') (NetworkError ''offline'')]
      [CheckForUpdate []] (showAuthScreen ''login'' (setVersionDisplay [] blank_page)) (Done ())"
    by (auto simp: boot_def Let_def io_seq_def exec_bind auth_of_def no_session_def keeps_screens_def)
  from boot_screen [OF this] show ?thesis by (auto simp: Let_def auth_of_def no_session_def)
qed

text \<open>
  The order the update badge rests on: of two versions either one is newer or they agree in every part (missing
  parts counting as 0), never two of these; and newer is transitive. The badge is set exactly by a release with a
  newer version.
\<close>

theorem newer_version_orders:
  "(isNewerVersion v w \<or> isNewerVersion w v \<or> same_version v w) \<and>
   \<not> (isNewerVersion v w \<and> isNewerVersion w v) \<and> \<not> (isNewerVersion v w \<and> same_version v w) \<and>
   (isNewerVersion u v \<and> isNewerVersion v w \<longrightarrow> isNewerVersion u w) \<and>
   (updateBadge (show_update tag w (p\<lparr>updateBadge := None\<rparr>)) \<noteq> None \<longleftrightarrow>
      strip_v tag \<noteq> [] \<and> isNewerVersion (strip_v tag) w)"
proof -
  have irr: "\<not> isNewerVersion x x" for x by (auto simp: isNewerVersion_iff)
  have "\<not> (isNewerVersion v w \<and> isNewerVersion w v)" using irr isNewer_trans by blast
  moreover have "\<not> (isNewerVersion v w \<and> same_version v w)" by (auto simp: isNewerVersion_iff same_version_def)
  ultimately show ?thesis
    using newer_or_same [of v w] isNewer_trans [of u v w] by (auto simp: show_update_def Let_def)
qed

theorem newer_version_orders_witness:
  "isNewerVersion ''2.0'' ''1.9''"
proof -
  have "isNewerVersion ''2.0'' ''1.10.3''" "isNewerVersion ''1.10.3'' ''1.9''" by code_simp+
  then show ?thesis using newer_version_orders [of "''1.10.3''" "''1.9''" "''2.0''" "''v2''" blank_page] by blast
qed

end
