(* ===== verification/Admin_Page.thy ===== *)
theory Admin_Page
  imports Dashboard_View
begin

text \<open>
  What the Admin pages of app.js share: the elements of the document they read and write, the forms and tables
  they are made of, \<open>Promise.all\<close> over requests, the row buttons (edit, delete), and the values a dialog gives
  when the user confirms it untouched.

  \<open>dom\<close> holds the elements by their id: the value of an input, whether a checkbox is checked, the text of an
  element, whether a button is disabled, whether an element is hidden, the rows of a table or grid (the HTML of each row and the labels of its
  buttons), the page the browser was sent to, the module variables these pages keep, the dashboard as it was last
  drawn, and the list of events.
\<close>

section \<open>The document\<close>

text \<open>An entry of the event list: its four spans, with the classes of the third.\<close>

record event_item =
  item_time :: string
  item_code :: string
  item_class :: string
  item_meta :: string
  item_message :: string

record dom =
  value_of :: "string \<Rightarrow> string"
  checked_of :: "string \<Rightarrow> bool"
  text_of :: "string \<Rightarrow> string"
  disabled_of :: "string \<Rightarrow> bool"
  hidden_of :: "string \<Rightarrow> bool"
  rows_of :: "string \<Rightarrow> (string \<times> string list) list"
  location :: string
  latencyDefaults :: "latency_settings option"
  cleaningDefaults :: "cleaning_settings option"
  cleaningCurrentSettings :: "cleaning_settings option"
  resetExpectedName :: string
  dom_app :: app
  dashboard_shown :: "dashboard option"
  event_items :: "event_item list"

definition set_value :: "string \<Rightarrow> string \<Rightarrow> dom \<Rightarrow> dom" where
  "set_value i v d = d\<lparr>value_of := (value_of d)(i := v)\<rparr>"

definition set_checked :: "string \<Rightarrow> bool \<Rightarrow> dom \<Rightarrow> dom" where
  "set_checked i b d = d\<lparr>checked_of := (checked_of d)(i := b)\<rparr>"

definition set_text :: "string \<Rightarrow> string \<Rightarrow> dom \<Rightarrow> dom" where
  "set_text i v d = d\<lparr>text_of := (text_of d)(i := v)\<rparr>"

definition set_disabled :: "string \<Rightarrow> bool \<Rightarrow> dom \<Rightarrow> dom" where
  "set_disabled i b d = d\<lparr>disabled_of := (disabled_of d)(i := b)\<rparr>"

definition set_rows :: "string \<Rightarrow> (string \<times> string list) list \<Rightarrow> dom \<Rightarrow> dom" where
  "set_rows i rs d = d\<lparr>rows_of := (rows_of d)(i := rs)\<rparr>"

definition set_hidden :: "string \<Rightarrow> bool \<Rightarrow> dom \<Rightarrow> dom" where
  "set_hidden i b d = d\<lparr>hidden_of := (hidden_of d)(i := b)\<rparr>"

text \<open>A text input drops the line breaks of what it is given; a list of choices shows none when it has no such choice.\<close>

definition set_input :: "string \<Rightarrow> string \<Rightarrow> dom \<Rightarrow> dom" where
  "set_input i v = set_value i (input_text v)"

definition set_select :: "string list \<Rightarrow> string \<Rightarrow> string \<Rightarrow> dom \<Rightarrow> dom" where
  "set_select opts i v = set_value i (if v \<in> set opts then v else [])"

lemmas dom_defs = set_input_def set_select_def set_hidden_def set_value_def set_checked_def set_text_def set_disabled_def set_rows_def

text \<open>Table cells in HTML, as the code writes them: without escaping.\<close>

definition tds :: "string list \<Rightarrow> string" where
  "tds cells = concat (map (\<lambda>c. ''<td>'' @ c @ ''</td>'') cells)"

section \<open>Requests\<close>

definition attempt :: "('s, 'a) prog \<Rightarrow> ('s, string + 'a) prog" where
  "attempt m = io_catch (io_bind m (\<lambda>a. Return (Inr a))) (\<lambda>e. Return (Inl e))"

text \<open>
  \<open>Promise.all(qs.map(api))\<close>: all requests are sent; when any fails the whole throws (of several errors, the first
  in the list is kept here, the first in time in the browser).
\<close>

fun api_all :: "request list \<Rightarrow> ('s, payload option list) prog" where
  "api_all [] = Return []"
| "api_all (q # qs) =
     io_bind (attempt (api q)) (\<lambda>x. io_bind (attempt (api_all qs)) (\<lambda>y.
       case x of
         Inl e \<Rightarrow> io_throw e
       | Inr a \<Rightarrow> (case y of Inl e \<Rightarrow> io_throw e | Inr bs \<Rightarrow> Return (a # bs))))"

text \<open>Updates the page from an answer of the expected kind; any other kind makes the code throw.\<close>

definition show_answer :: "(payload option \<Rightarrow> ('s \<Rightarrow> 's) option) \<Rightarrow> payload option \<Rightarrow> ('s, unit) prog" where
  "show_answer f a = (case f a of None \<Rightarrow> io_throw ''TypeError'' | Some g \<Rightarrow> update g)"

section \<open>Dialogs and row buttons\<close>

definition text_field :: "string \<Rightarrow> string \<Rightarrow> string \<Rightarrow> dialog_field" where
  "text_field n l v = \<lparr>df_name = n, df_label = l, df_type = [], df_options = [], df_value = v\<rparr>"

definition typed_field :: "string \<Rightarrow> string \<Rightarrow> string \<Rightarrow> string \<Rightarrow> dialog_field" where
  "typed_field n l t v = \<lparr>df_name = n, df_label = l, df_type = t, df_options = [], df_value = v\<rparr>"

definition choice_field :: "string \<Rightarrow> string \<Rightarrow> choice list \<Rightarrow> string \<Rightarrow> dialog_field" where
  "choice_field n l opts v = \<lparr>df_name = n, df_label = l, df_type = ''select'', df_options = opts, df_value = v\<rparr>"

text \<open>\<open>{...v}\<close>: the dialog's values in the order of its fields.\<close>

definition spread :: "dialog_field list \<Rightarrow> (string \<rightharpoonup> answer) \<Rightarrow> (string \<times> json) list" where
  "spread fs v = map (\<lambda>f. (df_name f, JStr (answer_text v (df_name f)))) fs"

text \<open>A color input holds \<open>#\<close> and six hexadecimal digits in lower case, black when it is given anything else.\<close>

definition color_value :: "string \<Rightarrow> string" where
  "color_value s =
     (if length s = 7 \<and> hd s = CHR ''#'' \<and> list_all (\<lambda>c. radix_digit c < 16) (tl s) then lower s else ''#000000'')"

text \<open>
  What an input shows when its dialog opens: its value, as an input of its type can hold it; a list of choices the one
  with that value, and when there is none, its first choice that is not disabled (as the browser picks it).
\<close>

definition field_default :: "dialog_field \<Rightarrow> string" where
  "field_default f =
     (if df_type f = ''color'' then color_value (df_value f)
      else if df_type f \<noteq> ''select'' then input_text (df_value f)
      else if df_value f \<in> ch_value ` set (df_options f) then df_value f
      else (case filter (\<lambda>c. \<not> ch_disabled c) (df_options f) of [] \<Rightarrow> [] | c # cs \<Rightarrow> ch_value c))"

text \<open>The values of a dialog confirmed untouched.\<close>

definition untouched :: "dialog_field list \<Rightarrow> string \<rightharpoonup> answer" where
  "untouched fs = map_of (map (\<lambda>f. (df_name f, AStr (field_default f))) fs)"

definition edit_row :: "string \<Rightarrow> dialog_field list \<Rightarrow> ((string \<rightharpoonup> answer) \<Rightarrow> request) \<Rightarrow> string \<Rightarrow> ('s, unit) prog" where
  "edit_row title fs q reload =
     Dialog title fs (\<lambda>v. case v of None \<Rightarrow> Return ()
       | Some ans \<Rightarrow> io_seq (api (q ans)) (start (LoadAdmin reload)))"

definition delete_row :: "string \<Rightarrow> string \<Rightarrow> string \<Rightarrow> ('s, unit) prog" where
  "delete_row question path reload =
     Confirm question (\<lambda>yes. if \<not> yes then Return () else io_seq (api (delete_req path)) (start (LoadAdmin reload)))"

text \<open>A New button: a dialog, nothing when its key field is empty, the request's error in an alert.\<close>

definition create_row ::
    "string \<Rightarrow> dialog_field list \<Rightarrow> string \<Rightarrow> ((string \<rightharpoonup> answer) \<Rightarrow> request) \<Rightarrow> string \<Rightarrow> ('s, unit) prog" where
  "create_row title fs key q reload =
     Dialog title fs (\<lambda>v. case v of None \<Rightarrow> Return ()
       | Some ans \<Rightarrow>
           if answer_text ans key = [] then Return ()
           else io_catch (io_seq (api (q ans)) (start (LoadAdmin reload))) alert)"

text \<open>
  The submit listener of a settings form: the body from the form's elements, the error element emptied and the page
  loaded again on success, the error in that element otherwise.
\<close>

definition submit_form :: "string \<Rightarrow> (dom \<Rightarrow> json) \<Rightarrow> string \<Rightarrow> task \<Rightarrow> (dom, unit) prog" where
  "submit_form path body err reload =
     Get (\<lambda>d. io_catch
       (io_seq (api (put_req path (body d))) (io_seq (update (set_text err [])) (start reload)))
       (\<lambda>e. update (set_text err e)))"

section \<open>What the server can decode\<close>

text \<open>
  Go types as \<open>decodeJSON\<close> (internal/api/server.go) reads them: a struct refuses fields it does not declare
  (\<open>DisallowUnknownFields\<close>), leaves missing ones at their zero value, and null is accepted everywhere. An int
  takes a number with neither fraction nor exponent within 64 bits.
\<close>

datatype gotype = GStr | GInt | GBool | GList gotype | GStruct "(string \<times> gotype) list"

definition int64 :: "int \<Rightarrow> bool" where
  "int64 i \<longleftrightarrow> - (2 ^ 63) \<le> i \<and> i < 2 ^ 63"

fun decodes :: "gotype \<Rightarrow> json \<Rightarrow> bool" where
  "decodes t JNull = True"
| "decodes GStr (JStr s) = True"
| "decodes GInt (JNum i) = int64 i"
| "decodes GBool (JBool b) = True"
| "decodes (GList t) (JArr xs) = list_all (decodes t) xs"
| "decodes (GStruct fs) (JObj kvs) =
     list_all (\<lambda>kv. case map_of fs (fst kv) of None \<Rightarrow> False | Some t \<Rightarrow> decodes t (snd kv)) kvs"
| "decodes t j = False"

section \<open>Runs\<close>

lemma exec_attempt:
  "exec R (attempt m) s tr ts s' r \<longleftrightarrow>
     (\<exists>a. exec R m s tr ts s' (Done a) \<and> r = Done (Inr a)) \<or> (\<exists>e. exec R m s tr ts s' (Failed e) \<and> r = Done (Inl e))"
  by (auto simp: attempt_def exec_catch exec_bind)

lemma exec_api_requests: "exec R (api q) s tr ts s' r \<Longrightarrow> requests tr = [q]"
  by (auto simp: exec_api)

lemma exec_api_all_requests: "exec R (api_all qs) s tr ts s' r \<Longrightarrow> requests tr = qs"
proof (induction qs arbitrary: s tr ts r)
  case (Cons q qs)
  from Cons.prems show ?case
    unfolding api_all.simps exec_bind exec_attempt
    by (elim disjE exE conjE) (auto dest!: exec_api_requests Cons.IH simp: io_throw_def split: sum.splits)
qed simp

lemma exec_edit_row:
  assumes "exec R (edit_row title fs q reload) s tr ts s' r"
  shows "requests tr = [] \<or> (\<exists>v. SDialog title (Some v) \<in> set tr \<and> requests tr = [q v])"
proof -
  from assms obtain v s1 tr1 where tr: "tr = SDialog title v # tr1" and
    run: "exec R (case v of None \<Rightarrow> Return () | Some ans \<Rightarrow> io_seq (api (q ans)) (start (LoadAdmin reload))) s1 tr1 ts s' r"
    by (auto simp: edit_row_def)
  show ?thesis
  proof (cases v)
    case None
    with run tr show ?thesis by simp
  next
    case (Some ans)
    with run have "requests tr1 = [q ans]" by (auto simp: io_seq_def exec_bind dest!: exec_api_requests)
    with Some tr show ?thesis by auto
  qed
qed

lemma exec_delete_row:
  "exec R (delete_row question path reload) s tr ts s' r \<Longrightarrow> requests tr = [] \<or> requests tr = [delete_req path]"
  by (auto simp: delete_row_def io_seq_def exec_bind dest!: exec_api_requests split: if_splits)

lemma exec_create_row:
  assumes "exec R (create_row title fs key q reload) s tr ts s' r"
  shows "requests tr = [] \<or> (\<exists>v. answer_text v key \<noteq> [] \<and> requests tr = [q v])"
proof -
  from assms obtain v s1 tr1 where tr: "tr = SDialog title v # tr1" and
    run: "exec R (case v of None \<Rightarrow> Return () | Some ans \<Rightarrow> if answer_text ans key = [] then Return ()
      else io_catch (io_seq (api (q ans)) (start (LoadAdmin reload))) alert) s1 tr1 ts s' r"
    by (auto simp: create_row_def)
  show ?thesis
  proof (cases v)
    case None
    with run tr show ?thesis by simp
  next
    case (Some ans)
    with run have "answer_text ans key = [] \<and> tr1 = [] \<or> answer_text ans key \<noteq> [] \<and> requests tr1 = [q ans]"
      by (auto simp: io_seq_def exec_bind exec_catch dest!: exec_api_requests split: if_splits)
    with Some tr show ?thesis by auto
  qed
qed

text \<open>A button's run is its handler's, followed by at most an alert.\<close>

lemma exec_mkBtn:
  assumes "exec R (mkBtn m) s tr ts s' r"
  obtains r1 tr1 es where "exec R m s tr1 ts s' r1" "tr = tr1 @ map SAlert es" "r = Done ()"
proof -
  from assms consider (fine) "exec R m s tr ts s' (Done ())" "r = Done ()"
    | (failed) e s1 tr1 tr2 ts1 ts2 where "exec R m s tr1 ts1 s1 (Failed e)" "exec R (alert e) s1 tr2 ts2 s' r"
        "tr = tr1 @ tr2" "ts = ts1 @ ts2"
    by (auto simp: mkBtn_def exec_catch simp del: exec_alert)
  then show thesis
  proof cases
    case fine
    then show thesis using that [of tr "Done ()" "[]"] by simp
  next
    case failed
    then show thesis using that [of tr1 "Failed e" "[e]"] by simp
  qed
qed

section \<open>Contracts on requests\<close>

text \<open>
  The contract of a program: all requests of every run in which the user confirms every dialog with values that
  satisfy \<open>I\<close> satisfy \<open>P\<close>.
\<close>

definition all_sent :: "(request \<Rightarrow> bool) \<Rightarrow> 'p seen list \<Rightarrow> bool" where
  "all_sent P tr \<longleftrightarrow> (\<forall>q\<in>set (requests tr). P q)"

definition entered :: "((string \<rightharpoonup> answer) \<Rightarrow> bool) \<Rightarrow> 'p seen list \<Rightarrow> bool" where
  "entered I tr \<longleftrightarrow> (\<forall>n v. SDialog n (Some v) \<in> set tr \<longrightarrow> I v)"

lemma all_sent_simps [simp]: "all_sent P []" "all_sent P (SDialog n v # tr) = all_sent P tr"
  "all_sent P (SAlert n # tr) = all_sent P tr" "all_sent P (SConfirm n b # tr) = all_sent P tr"
  "all_sent P (tr @ tr') \<longleftrightarrow> all_sent P tr \<and> all_sent P tr'" "all_sent P (SFetch q p # tr) \<longleftrightarrow> P q \<and> all_sent P tr"
  by (auto simp: all_sent_def)

lemma entered_simps [simp]: "entered I []" "entered I (SDialog n None # tr) = entered I tr"
  "entered I (SDialog n (Some v) # tr) \<longleftrightarrow> I v \<and> entered I tr"
  "entered I (SAlert n # tr) = entered I tr" "entered I (SConfirm n b # tr) = entered I tr"
  "entered I (tr @ tr') \<longleftrightarrow> entered I tr \<and> entered I tr'" "entered I (SFetch q p # tr) = entered I tr"
  by (auto simp: entered_def)

lemma entered_True [simp]: "entered (\<lambda>_. True) tr"
  by (simp add: entered_def)

definition sends :: "((string \<rightharpoonup> answer) \<Rightarrow> bool) \<Rightarrow> (request \<Rightarrow> bool) \<Rightarrow> ('s, 'a) prog \<Rightarrow> bool" where
  "sends I P m \<longleftrightarrow> (\<forall>R s tr ts s' r. exec R m s tr ts s' r \<longrightarrow> entered I tr \<longrightarrow> all_sent P tr)"

lemma sendsD: "sends I P m \<Longrightarrow> exec R m s tr ts s' r \<Longrightarrow> entered I tr \<Longrightarrow> \<forall>q\<in>set (requests tr). P q"
  unfolding sends_def all_sent_def by blast

named_theorems sends_intros \<open>programs all of whose requests satisfy a contract\<close>

lemma sends_Return [sends_intros]: "sends I P (Return a)" by (auto simp: sends_def)
lemma sends_throw [sends_intros]: "sends I P (io_throw e)" by (auto simp: sends_def io_throw_def)
lemma sends_alert [sends_intros]: "sends I P (alert e)" by (auto simp: sends_def)
lemma sends_start [sends_intros]: "sends I P (start e)" by (auto simp: sends_def)
lemma sends_update [sends_intros]: "sends I P (update f)" by (auto simp: sends_def)
lemma sends_Get [sends_intros]: "(\<And>d. sends I P (f d)) \<Longrightarrow> sends I P (Get f)" unfolding sends_def exec_simps by blast
lemma sends_api [sends_intros]: "P q \<Longrightarrow> sends I P (api q)" by (auto simp: sends_def exec_api)
lemma sends_bind [sends_intros]: "sends I P m \<Longrightarrow> (\<And>a. sends I P (k a)) \<Longrightarrow> sends I P (io_bind m k)"
  unfolding sends_def exec_bind by fastforce
lemma sends_seq [sends_intros]: "sends I P m \<Longrightarrow> sends I P k \<Longrightarrow> sends I P (io_seq m k)"
  unfolding io_seq_def by (rule sends_bind)
lemma sends_catch [sends_intros]: "sends I P m \<Longrightarrow> (\<And>e. sends I P (h e)) \<Longrightarrow> sends I P (io_catch m h)"
  unfolding sends_def exec_catch by fastforce
lemma sends_mkBtn [sends_intros]: "sends I P m \<Longrightarrow> sends I P (mkBtn m)"
  unfolding mkBtn_def by (rule sends_catch) (auto intro: sends_intros)
lemma sends_Dialog [sends_intros]:
  "sends I P (f None) \<Longrightarrow> (\<And>v. I v \<Longrightarrow> sends I P (f (Some v))) \<Longrightarrow> sends I P (Dialog n fs f)"
  unfolding sends_def exec_simps by (metis option.exhaust all_sent_simps(2) entered_simps(2,3))
lemma sends_Confirm [sends_intros]: "(\<And>b. sends I P (f b)) \<Longrightarrow> sends I P (Confirm n f)"
  unfolding sends_def exec_simps by (metis all_sent_simps(4) entered_simps(5))
lemma sends_if [sends_intros]: "(b \<Longrightarrow> sends I P m) \<Longrightarrow> (\<not> b \<Longrightarrow> sends I P k) \<Longrightarrow> sends I P (if b then m else k)"
  by simp

lemma sends_show [sends_intros]: "sends I P (show_answer f a)"
  by (auto simp: show_answer_def sends_def io_throw_def split: option.split)

lemma sends_all [sends_intros]: "\<forall>q\<in>set qs. P q \<Longrightarrow> sends I P (api_all qs)"
  by (auto simp: sends_def all_sent_def dest!: exec_api_all_requests)

lemma sends_edit_row [sends_intros]: "(\<And>v. I v \<Longrightarrow> P (q v)) \<Longrightarrow> sends I P (edit_row n fs q reload)"
  unfolding edit_row_def by (intro sends_intros) (simp_all add: sends_Return sends_seq sends_api sends_start)

lemma sends_delete_row [sends_intros]: "P (delete_req p) \<Longrightarrow> sends I P (delete_row n p reload)"
  unfolding delete_row_def by (intro sends_intros)

lemma sends_create_row [sends_intros]: "(\<And>v. I v \<Longrightarrow> P (q v)) \<Longrightarrow> sends I P (create_row n fs key q reload)"
  unfolding create_row_def
  by (intro sends_intros) (simp_all add: sends_Return sends_seq sends_api sends_start sends_catch sends_alert)

end
