(* ===== verification/Admin_Catalog.thy ===== *)
theory Admin_Catalog
  imports Admin_Page Wizard_Submit
begin

text \<open>
  The Admin pages for users, API tokens, drive types, tape types and tape sets (app.js \<open>loadUsers\<close> to the New tape
  set button): each loader fills its table, each row has its buttons, each New button opens a dialog. A handler
  that reloads its table starts \<open>LoadAdmin\<close> of its section, which is the same loader. How the browser prints a
  date is the argument \<open>fmt\<close>.
\<close>

section \<open>Users\<close>

definition user_row :: "(string \<Rightarrow> string) \<Rightarrow> user_info \<Rightarrow> string \<times> string list" where
  "user_row fmt u =
     (tds [usr_name u, usr_role u, if usr_must_change u then ''must change password'' else ''active'', fmt (usr_created u)],
      [''Change role'', ''Reset password'', ''Delete''])"

definition loadUsers :: "(string \<Rightarrow> string) \<Rightarrow> (dom, unit) prog" where
  "loadUsers fmt =
     io_bind (api (get_req ''/api/v1/users''))
       (show_answer (\<lambda>a. case a of Some (PUsers us) \<Rightarrow> Some (set_rows ''usersTable'' (map (user_row fmt) us)) | _ \<Rightarrow> None))"

definition role_choices :: "choice list" where
  "role_choices = [choice ''admin'' ''admin'', choice ''operator'' ''operator'', choice ''viewer'' ''viewer'']"

definition user_path :: "string \<Rightarrow> string \<Rightarrow> string" where
  "user_path u rest = ''/api/v1/users/'' @ encodeURIComponent u @ rest"

definition change_role_fields :: "dialog_field list" where
  "change_role_fields = [choice_field ''role'' ''Role'' role_choices []]"

definition change_role_request :: "user_info \<Rightarrow> (string \<rightharpoonup> answer) \<Rightarrow> request" where
  "change_role_request u v = post_req (user_path (usr_name u) ''/role'') (JObj [(''role'', JStr (answer_text v ''role''))])"

definition change_role_click :: "user_info \<Rightarrow> (dom, unit) prog" where
  "change_role_click u =
     edit_row (''Change role for '' @ usr_name u) change_role_fields (change_role_request u) ''users''"

definition reset_password_click :: "user_info \<Rightarrow> (dom, unit) prog" where
  "reset_password_click u =
     edit_row (''Reset password for '' @ usr_name u) [typed_field ''password'' ''New password'' ''password'' []]
       (\<lambda>v. post_req (user_path (usr_name u) ''/reset-password'') (JObj [(''new_password'', JStr (answer_text v ''password''))]))
       ''users''"

definition delete_user_click :: "user_info \<Rightarrow> (dom, unit) prog" where
  "delete_user_click u = delete_row (''Delete user '' @ usr_name u @ ''?'') (user_path (usr_name u) []) ''users''"

definition new_user_fields :: "dialog_field list" where
  "new_user_fields = [text_field ''username'' ''Username'' [],
     choice_field ''role'' ''Role'' (rev role_choices) [],
     typed_field ''password'' ''Initial password (user must change it at next login)'' ''password'' []]"

definition new_user_click :: "(dom, unit) prog" where
  "new_user_click =
     create_row ''New user'' new_user_fields ''username''
       (\<lambda>v. post_req ''/api/v1/users'' (JObj (spread new_user_fields v))) ''users''"

section \<open>Tokens\<close>

definition token_row :: "(string \<Rightarrow> string) \<Rightarrow> token_info \<Rightarrow> string \<times> string list" where
  "token_row fmt t = (tds [tok_name t, tok_role t, fmt (tok_created t)], [''Revoke''])"

definition loadTokens :: "(string \<Rightarrow> string) \<Rightarrow> (dom, unit) prog" where
  "loadTokens fmt =
     io_bind (api (get_req ''/api/v1/tokens''))
       (show_answer (\<lambda>a. case a of Some (PTokens us) \<Rightarrow> Some (set_rows ''tokensTable'' (map (token_row fmt) us)) | _ \<Rightarrow> None))"

definition revoke_click :: "token_info \<Rightarrow> (dom, unit) prog" where
  "revoke_click t =
     delete_row (''Revoke token '' @ tok_name t @ ''?'') (''/api/v1/tokens/'' @ encodeURIComponent (tok_name t)) ''tokens''"

definition new_token_fields :: "dialog_field list" where
  "new_token_fields = [text_field ''name'' ''Name'' [], choice_field ''role'' ''Scope'' (rev role_choices) []]"

definition break2 :: string where
  "break2 = [CHR 0x0A, CHR 0x0A]"

definition new_token_click :: "(dom, unit) prog" where
  "new_token_click =
     Dialog ''New API token'' new_token_fields (\<lambda>v. case v of None \<Rightarrow> Return ()
       | Some ans \<Rightarrow>
           if answer_text ans ''name'' = [] then Return ()
           else io_catch
             (io_bind (api (post_req ''/api/v1/tokens'' (JObj (spread new_token_fields ans)))) (\<lambda>created.
                case created of
                  Some (PToken t) \<Rightarrow>
                    io_seq (alert (''Token created (copy it now, it will not be shown again):'' @ break2 @ t))
                      (start (LoadAdmin ''tokens''))
                | _ \<Rightarrow> io_throw ''TypeError''))
             alert)"

section \<open>Drive types\<close>

definition barcodeFamilyOptions :: "choice list" where
  "barcodeFamilyOptions = [choice ''lto'' ''LTO'', choice ''dlt'' ''DLT'', choice ''sdlt'' ''SDLT'', choice ''dds'' ''DDS/DAT'',
     choice ''ait'' ''AIT/SAIT'', choice ''3592'' ''IBM 3592'', choice ''generic'' ''Generic (non-physical)'']"

definition family_label :: "string \<Rightarrow> string" where
  "family_label f = (case js_find (\<lambda>c. ch_value c = f) barcodeFamilyOptions of None \<Rightarrow> f | Some c \<Rightarrow> or_else (ch_label c) f)"

definition drive_type_row :: "drive_kind \<Rightarrow> string \<times> string list" where
  "drive_type_row dt =
     (tds [dk_name dt, dk_model dt, dk_generation dt, dk_speed dt, dk_capacity dt, family_label (dk_barcode_family dt),
           dk_description dt, if dk_scsi_identity dt = ''realistic'' then ''Realistic'' else ''Default''],
      [''Edit'', ''Delete''])"

definition loadDriveTypes :: "(dom, unit) prog" where
  "loadDriveTypes =
     io_bind (api (get_req ''/api/v1/drive-types''))
       (show_answer (\<lambda>a. case a of
            Some (PDriveTypes ds) \<Rightarrow> Some (set_rows ''driveTypesTable'' (map drive_type_row ds))
          | None \<Rightarrow> Some (set_rows ''driveTypesTable'' []) | _ \<Rightarrow> None))"

definition drive_type_fields :: "drive_kind \<Rightarrow> dialog_field list" where
  "drive_type_fields dt =
     [text_field ''model'' ''Model'' (dk_model dt), text_field ''generation'' ''Generation'' (dk_generation dt),
      text_field ''speed'' ''Speed'' (dk_speed dt), text_field ''capacity'' ''Capacity'' (dk_capacity dt),
      text_field ''description'' ''Description'' (dk_description dt),
      choice_field ''barcode_family'' ''Barcode Family'' barcodeFamilyOptions (dk_barcode_family dt),
      choice_field ''scsi_identity'' ''SCSI Identity'' scsiIdentityOptions (dk_scsi_identity dt)]"

definition drive_type_path :: "string \<Rightarrow> string" where
  "drive_type_path n = ''/api/v1/drive-types/'' @ encodeURIComponent n"

definition drive_type_request :: "drive_kind \<Rightarrow> (string \<rightharpoonup> answer) \<Rightarrow> request" where
  "drive_type_request dt v =
     put_req (drive_type_path (dk_name dt)) (JObj ((''name'', JStr (dk_name dt)) # spread (drive_type_fields dt) v))"

definition edit_drive_type_click :: "drive_kind \<Rightarrow> (dom, unit) prog" where
  "edit_drive_type_click dt =
     edit_row (''Edit drive type '' @ dk_name dt) (drive_type_fields dt) (drive_type_request dt) ''drive-types''"

definition delete_drive_type_click :: "drive_kind \<Rightarrow> (dom, unit) prog" where
  "delete_drive_type_click dt =
     delete_row (''Delete drive type '' @ dk_name dt @ ''?'') (drive_type_path (dk_name dt)) ''drive-types''"

definition new_drive_type_fields :: "dialog_field list" where
  "new_drive_type_fields =
     [text_field ''name'' ''Name'' [], text_field ''model'' ''Model'' [], text_field ''generation'' ''Generation'' [],
      text_field ''speed'' ''Speed'' [], text_field ''capacity'' ''Capacity'' [], text_field ''description'' ''Description'' [],
      choice_field ''barcode_family'' ''Barcode Family'' barcodeFamilyOptions ''generic'',
      choice_field ''scsi_identity'' ''SCSI Identity'' scsiIdentityOptions []]"

definition new_drive_type_click :: "(dom, unit) prog" where
  "new_drive_type_click =
     create_row ''New drive type'' new_drive_type_fields ''name''
       (\<lambda>v. post_req ''/api/v1/drive-types'' (JObj (spread new_drive_type_fields v))) ''drive-types''"

section \<open>Tape types\<close>

definition tapeTypeFields :: "tape_type_info \<Rightarrow> dialog_field list" where
  "tapeTypeFields tt =
     [text_field ''capacity'' ''Capacity'' (tt_capacity tt), text_field ''description'' ''Description'' (tt_description tt),
      choice_field ''barcode_family'' ''Barcode Family'' barcodeFamilyOptions (tt_barcode_family tt),
      text_field ''media_id'' ''Media ID (e.g. L8)'' (tt_media_id tt),
      typed_field ''volser_length'' ''Volume ID Length'' ''number'' (show_int (if tt_volser_length tt = 0 then 6 else tt_volser_length tt))]"

definition formatBarcodeFormat :: "tape_type_info \<Rightarrow> string" where
  "formatBarcodeFormat tt =
     (let family = family_label (tt_barcode_family tt)
      in if tt_media_id tt \<noteq> [] then family @ '' ('' @ tt_media_id tt @ '')'' else family)"

definition tape_type_row :: "tape_type_info \<Rightarrow> string \<times> string list" where
  "tape_type_row tt = (tds [tt_name tt, tt_capacity tt, formatBarcodeFormat tt, tt_description tt], [''Edit'', ''Delete''])"

definition loadTapeTypes :: "(dom, unit) prog" where
  "loadTapeTypes =
     io_bind (api (get_req ''/api/v1/tape-types'')) (\<lambda>a.
       io_seq (show_answer (\<lambda>a. case a of
            Some (PTapeTypes ts) \<Rightarrow> Some (set_rows ''tapeTypesTable'' (map tape_type_row ts))
          | None \<Rightarrow> Some (set_rows ''tapeTypesTable'' []) | _ \<Rightarrow> None) a)
       (io_seq (start LoadTapeSetFamilyMap) (start LoadBackupLastRun)))"

text \<open>\<open>v.volser_length\<close> becomes a number, 0 when the text is none.\<close>

definition int_or_zero :: "string \<Rightarrow> int" where
  "int_or_zero s = (case parse_int s of None \<Rightarrow> 0 | Some n \<Rightarrow> n)"

definition tape_type_values :: "dialog_field list \<Rightarrow> (string \<rightharpoonup> answer) \<Rightarrow> (string \<times> json) list" where
  "tape_type_values fs v =
     map (\<lambda>(k, j). if k = ''volser_length'' then (k, JNum (int_or_zero (answer_text v k))) else (k, j)) (spread fs v)"

definition tape_type_path :: "string \<Rightarrow> string" where
  "tape_type_path n = ''/api/v1/tape-types/'' @ encodeURIComponent n"

definition tape_type_request :: "tape_type_info \<Rightarrow> (string \<rightharpoonup> answer) \<Rightarrow> request" where
  "tape_type_request tt v =
     put_req (tape_type_path (tt_name tt)) (JObj ((''name'', JStr (tt_name tt)) # tape_type_values (tapeTypeFields tt) v))"

text \<open>The listener's own try block alerts what the button's would.\<close>

definition edit_tape_type_click :: "tape_type_info \<Rightarrow> (dom, unit) prog" where
  "edit_tape_type_click tt =
     Dialog (''Edit tape type '' @ tt_name tt) (tapeTypeFields tt) (\<lambda>v. case v of None \<Rightarrow> Return ()
       | Some ans \<Rightarrow> io_catch (io_seq (api (tape_type_request tt ans)) (start (LoadAdmin ''tape-types''))) alert)"

definition delete_tape_type_click :: "tape_type_info \<Rightarrow> (dom, unit) prog" where
  "delete_tape_type_click tt =
     delete_row (''Delete tape type '' @ tt_name tt @ ''?'') (tape_type_path (tt_name tt)) ''tape-types''"

definition new_tape_type :: tape_type_info where
  "new_tape_type = \<lparr>tt_name = [], tt_capacity = [], tt_description = [], tt_barcode_family = ''lto'', tt_media_id = [],
     tt_volser_length = 6\<rparr>"

definition new_tape_type_fields :: "dialog_field list" where
  "new_tape_type_fields = text_field ''name'' ''Name'' [] # tapeTypeFields new_tape_type"

definition new_tape_type_click :: "(dom, unit) prog" where
  "new_tape_type_click =
     create_row ''New tape type'' new_tape_type_fields ''name''
       (\<lambda>v. post_req ''/api/v1/tape-types'' (JObj (tape_type_values new_tape_type_fields v))) ''tape-types''"

section \<open>Tape sets\<close>

definition cartridge_count :: "volume list \<Rightarrow> string \<Rightarrow> nat" where
  "cartridge_count vols n = length (filter (\<lambda>v. tape_set v \<noteq> [] \<and> tape_set v = n) vols)"

definition tape_set_table_row :: "volume list \<Rightarrow> tape_set_config \<Rightarrow> string \<times> string list" where
  "tape_set_table_row vols ts =
     (tds [tsc_name ts, tsc_tape_type ts, tsc_storage_folder ts, show_nat (cartridge_count vols (tsc_name ts))],
      [''Edit'', ''Add tapes'', ''Delete''])"

definition volumes_of :: "payload option \<Rightarrow> volume list" where
  "volumes_of a = (case a of Some (PVolumes vs) \<Rightarrow> vs | _ \<Rightarrow> [])"

definition loadTapeSets :: "(dom, unit) prog" where
  "loadTapeSets =
     io_bind (api_all [get_req ''/api/v1/tape-sets'', get_req ''/api/v1/volumes'']) (\<lambda>as.
       io_seq (show_answer (\<lambda>a. case a of
            Some (PTapeSets ts) \<Rightarrow> Some (set_rows ''tapeSetsTable'' (map (tape_set_table_row (volumes_of (as ! 1))) ts))
          | None \<Rightarrow> Some (set_rows ''tapeSetsTable'' []) | _ \<Rightarrow> None) (as ! 0))
       (io_seq (start LoadTapeSetFamilyMap) (start LoadBackupLastRun)))"

definition tape_type_choices :: "payload option \<Rightarrow> choice list" where
  "tape_type_choices a =
     (case a of Some (PTapeTypes ts) \<Rightarrow> map (\<lambda>t. choice (tt_name t) (tt_name t @ '' ('' @ tt_capacity t @ '')'')) ts | _ \<Rightarrow> [])"

definition loadTapeTypeOptions :: "(dom, choice list) prog" where
  "loadTapeTypeOptions = io_bind (api (get_req ''/api/v1/tape-types'')) (\<lambda>a. Return (tape_type_choices a))"

definition tape_set_path :: "string \<Rightarrow> string \<Rightarrow> string" where
  "tape_set_path n rest = ''/api/v1/tape-sets/'' @ encodeURIComponent n @ rest"

definition tape_set_fields :: "choice list \<Rightarrow> tape_set_config \<Rightarrow> dialog_field list" where
  "tape_set_fields opts ts =
     [choice_field ''tape_type'' ''Tape Type'' opts (tsc_tape_type ts),
      typed_field ''storage_folder'' ''Storage Folder'' ''folderpicker'' (tsc_storage_folder ts)]"

definition tape_set_request :: "choice list \<Rightarrow> tape_set_config \<Rightarrow> (string \<rightharpoonup> answer) \<Rightarrow> request" where
  "tape_set_request opts ts v =
     put_req (tape_set_path (tsc_name ts) []) (JObj ((''name'', JStr (tsc_name ts)) # spread (tape_set_fields opts ts) v))"

definition edit_tape_set_click :: "tape_set_config \<Rightarrow> (dom, unit) prog" where
  "edit_tape_set_click ts =
     io_bind loadTapeTypeOptions (\<lambda>opts.
       Dialog (''Edit tape set '' @ tsc_name ts) (tape_set_fields opts ts) (\<lambda>v. case v of None \<Rightarrow> Return ()
         | Some ans \<Rightarrow> io_catch (io_seq (api (tape_set_request opts ts ans)) (start (LoadAdmin ''tape-sets''))) alert))"

definition add_tapes_fields :: "dialog_field list" where
  "add_tapes_fields =
     [choice_field ''mode'' ''Mode''
        [choice ''auto'' ''Auto-generate barcodes (bulk)'', choice ''manual'' ''Enter barcode manually (single)''] [],
      typed_field ''count'' ''Count (auto mode)'' ''number'' ''1'', text_field ''barcode'' ''Barcode (manual mode)'' []]"

text \<open>\<open>parseInt(v.count, 10) || 1\<close>.\<close>

definition add_tapes_body :: "(string \<rightharpoonup> answer) \<Rightarrow> json" where
  "add_tapes_body v =
     (if answer_text v ''mode'' = ''manual'' then JObj [(''barcode'', JStr (answer_text v ''barcode''))]
      else let n = int_or_zero (answer_text v ''count'') in JObj [(''count'', JNum (if n = 0 then 1 else n))])"

definition add_tapes_click :: "tape_set_config \<Rightarrow> (dom, unit) prog" where
  "add_tapes_click ts =
     Dialog (''Add tapes to '' @ tsc_name ts) add_tapes_fields (\<lambda>v. case v of None \<Rightarrow> Return ()
       | Some ans \<Rightarrow>
           io_catch
             (io_bind (api (post_req (tape_set_path (tsc_name ts) ''/tapes'') (add_tapes_body ans))) (\<lambda>created.
                io_seq (alert (''Added '' @ show_nat (length (volumes_of created)) @ '' cartridge(s): '' @
                               join '', '' (map barcode (volumes_of created))))
                  (start (LoadAdmin ''tape-sets''))))
             alert)"

definition delete_tape_set_click :: "tape_set_config \<Rightarrow> (dom, unit) prog" where
  "delete_tape_set_click ts =
     Confirm (''Delete tape set '' @ tsc_name ts @ ''?'') (\<lambda>yes. if \<not> yes then Return ()
       else io_catch (io_seq (api (delete_req (tape_set_path (tsc_name ts) []))) (start (LoadAdmin ''tape-sets''))) alert)"

definition new_tape_set_fields :: "choice list \<Rightarrow> dialog_field list" where
  "new_tape_set_fields opts =
     [text_field ''name'' ''Name'' [], choice_field ''tape_type'' ''Tape Type'' opts [],
      typed_field ''storage_folder'' ''Storage Folder'' ''folderpicker'' [],
      typed_field ''initial_tape_count'' ''Number of tapes'' ''number'' ''1'']"

definition new_tape_set_body :: "choice list \<Rightarrow> (string \<rightharpoonup> answer) \<Rightarrow> json" where
  "new_tape_set_body opts v =
     JObj (map (\<lambda>(k, j). if k = ''initial_tape_count'' then (k, num_json (parse_int (answer_text v k))) else (k, j))
       (spread (new_tape_set_fields opts) v))"

definition new_tape_set_click :: "(dom, unit) prog" where
  "new_tape_set_click =
     io_bind loadTapeTypeOptions (\<lambda>opts.
       if opts = [] then alert ''Create a tape type first (Tape Types tab).''
       else Dialog ''New tape set'' (new_tape_set_fields opts) (\<lambda>v. case v of None \<Rightarrow> Return ()
         | Some ans \<Rightarrow>
             if answer_text ans ''name'' = [] then Return ()
             else (case validateTapeSetInput (answer_text ans ''name'') (answer_text ans ''tape_type'')
                      (answer_text ans ''storage_folder'') (parse_int (answer_text ans ''initial_tape_count'')) of
                 Some err \<Rightarrow> alert err
               | None \<Rightarrow>
                   io_catch
                     (io_bind (api (post_req ''/api/v1/tape-sets'' (new_tape_set_body opts ans))) (\<lambda>res.
                        case res of
                          Some (PTapeSet n vols) \<Rightarrow>
                            io_seq (alert (''Created tape set '' @ n @ '' with '' @ show_nat (length (or_nil vols)) @ '' cartridge(s).''))
                              (start (LoadAdmin ''tape-sets''))
                        | _ \<Rightarrow> io_throw ''TypeError''))
                     alert)))"

end
