(* ===== verification/Admin_Topology.thy ===== *)
theory Admin_Topology
  imports Admin_Catalog Bareos_Config Assignment_Board
begin

text \<open>
  The Admin pages for drives, magazines, mailboxes and logical libraries (app.js \<open>loadDrives\<close> to the New logical
  library button), and the Create tape button of the dashboard, which opens the same dialog as Add tapes.

  The assignment board of the logical-library dialogs is in Assignment_Board; here its result is the three lists
  \<open>drives\<close>, \<open>magazines\<close>, \<open>mailboxes\<close> of the dialog's answer, the drive indices as the texts of their numbers.
\<close>

section \<open>Drives\<close>

definition as_drive :: "drive_device \<Rightarrow> drive" where
  "as_drive d = \<lparr>drive_index = dd_index d, device_path = dd_path d, drive_type = dd_type d, drive_volume = None,
     fault = False, mounts_since_cleaning = 0, activity = []\<rparr>"

definition drive_row :: "(int \<rightharpoonup> drive_paths \<times> string) \<Rightarrow> drive_device \<Rightarrow> string \<times> string list" where
  "drive_row paths d =
     (tds [show_int (dd_index d), driveDevicePathCell (as_drive d) paths, dd_type d, dd_model d, dd_generation d, dd_capacity d],
      [''Edit'', ''Delete''])"

definition devices_of :: "payload option \<Rightarrow> (string \<times> device_report) list option" where
  "devices_of a = (case a of Some (PKernelDevices ds) \<Rightarrow> Some ds | _ \<Rightarrow> None)"

definition drive_type_choices :: "payload option \<Rightarrow> choice list" where
  "drive_type_choices a =
     choice [] ''(none)'' # (case a of Some (PDriveTypes ds) \<Rightarrow> map (\<lambda>d. choice (dk_name d) (dk_name d)) ds | _ \<Rightarrow> [])"

definition loadDrives :: "(dom, unit) prog" where
  "loadDrives =
     io_bind (api_all [get_req ''/api/v1/drives'', get_req ''/api/v1/drive-types'', get_req ''/api/v1/kernel-mode/devices''])
       (\<lambda>as. show_answer (\<lambda>a. case a of
            Some (PDrives ds) \<Rightarrow> Some (set_rows ''drivesTable'' (map (drive_row (buildDrivePathIndex (devices_of (as ! 2)))) ds))
          | None \<Rightarrow> Some (set_rows ''drivesTable'' []) | _ \<Rightarrow> None) (as ! 0))"

definition drive_path :: "drive_device \<Rightarrow> string" where
  "drive_path d = ''/api/v1/drives/'' @ show_int (dd_index d)"

definition drive_fields :: "choice list \<Rightarrow> drive_device \<Rightarrow> dialog_field list" where
  "drive_fields opts d =
     [text_field ''device_path'' ''Device Path'' (dd_path d), choice_field ''drive_type'' ''Drive Type'' opts (dd_type d)]"

definition drive_request :: "drive_device \<Rightarrow> (string \<rightharpoonup> answer) \<Rightarrow> request" where
  "drive_request d v =
     put_req (drive_path d) (JObj [(''device_path'', JStr (answer_text v ''device_path'')), (''drive_type'', JStr (answer_text v ''drive_type''))])"

definition edit_drive_click :: "choice list \<Rightarrow> drive_device \<Rightarrow> (dom, unit) prog" where
  "edit_drive_click opts d =
     edit_row (''Edit drive '' @ show_int (dd_index d)) (drive_fields opts d) (drive_request d) ''drives''"

definition delete_drive_click :: "drive_device \<Rightarrow> (dom, unit) prog" where
  "delete_drive_click d =
     delete_row (''Delete drive '' @ show_int (dd_index d) @ ''? It must not have a volume loaded.'') (drive_path d) ''drives''"

definition new_drive_click :: "(dom, unit) prog" where
  "new_drive_click =
     io_bind (api (get_req ''/api/v1/drive-types'')) (\<lambda>dts.
       Dialog ''New drive''
         [text_field ''device_path'' ''Device Path (blank = auto-generate)'' [],
          choice_field ''drive_type'' ''Drive Type'' (drive_type_choices dts) []]
         (\<lambda>v. case v of None \<Rightarrow> Return ()
           | Some ans \<Rightarrow>
               io_catch
                 (io_seq (api (post_req ''/api/v1/drives''
                     (JObj [(''device_path'', JStr (answer_text ans ''device_path'')), (''drive_type'', JStr (answer_text ans ''drive_type''))])))
                   (start (LoadAdmin ''drives'')))
                 alert))"

section \<open>Magazines\<close>

definition magazine_row :: "bay \<Rightarrow> string \<times> string list" where
  "magazine_row m = (tds [bay_id m, show_int (bay_slots m)], [''Edit'', ''Delete''])"

definition loadMagazines :: "(dom, unit) prog" where
  "loadMagazines =
     io_bind (api (get_req ''/api/v1/magazines''))
       (show_answer (\<lambda>a. case a of Some (PBays ms) \<Rightarrow> Some (set_rows ''magazinesTable'' (map magazine_row ms))
          | None \<Rightarrow> Some (set_rows ''magazinesTable'' []) | _ \<Rightarrow> None))"

definition magazine_path :: "string \<Rightarrow> string" where
  "magazine_path i = ''/api/v1/magazines/'' @ encodeURIComponent i"

definition bay_body :: "string \<Rightarrow> (string \<rightharpoonup> answer) \<Rightarrow> (string \<times> json) list" where
  "bay_body i v = [(''id'', JStr i), (''slots'', number_json (answer_text v ''slots''))]"

definition magazine_fields :: "bay \<Rightarrow> dialog_field list" where
  "magazine_fields m = [typed_field ''slots'' ''Slots (5-20, step 5)'' ''number'' (show_int (bay_slots m))]"

definition magazine_request :: "bay \<Rightarrow> (string \<rightharpoonup> answer) \<Rightarrow> request" where
  "magazine_request m v = put_req (magazine_path (bay_id m)) (JObj (bay_body (bay_id m) v))"

definition edit_magazine_click :: "bay \<Rightarrow> (dom, unit) prog" where
  "edit_magazine_click m = edit_row (''Edit magazine '' @ bay_id m) (magazine_fields m) (magazine_request m) ''magazines''"

definition delete_magazine_click :: "bay \<Rightarrow> (dom, unit) prog" where
  "delete_magazine_click m =
     delete_row (''Delete magazine '' @ bay_id m @ ''? Its slots must be empty.'') (magazine_path (bay_id m)) ''magazines''"

definition new_magazine_click :: "(dom, unit) prog" where
  "new_magazine_click =
     create_row ''New magazine'' [text_field ''id'' ''ID'' [], typed_field ''slots'' ''Slots (5-20, step 5)'' ''number'' ''5''] ''id''
       (\<lambda>v. post_req ''/api/v1/magazines'' (JObj (bay_body (answer_text v ''id'') v))) ''magazines''"

section \<open>Mailboxes\<close>

definition mailbox_row :: "mailbox_info \<Rightarrow> string \<times> string list" where
  "mailbox_row m =
     (tds [mbx_id m, show_int (mbx_slots m), if mbx_pin_set m then ''Set'' else em_dash],
      ''Edit'' # (if mbx_pin_set m then [''Clear PIN''] else []) @ [''Delete''])"

definition loadMailboxes :: "(dom, unit) prog" where
  "loadMailboxes =
     io_bind (api (get_req ''/api/v1/mailboxes''))
       (show_answer (\<lambda>a. case a of Some (PMailboxes ms) \<Rightarrow> Some (set_rows ''mailboxesTable'' (map mailbox_row ms))
          | None \<Rightarrow> Some (set_rows ''mailboxesTable'' []) | _ \<Rightarrow> None))"

definition mailbox_path :: "string \<Rightarrow> string" where
  "mailbox_path i = ''/api/v1/mailboxes/'' @ encodeURIComponent i"

text \<open>A blank PIN is not sent.\<close>

definition mailbox_body :: "string \<Rightarrow> (string \<rightharpoonup> answer) \<Rightarrow> (string \<times> json) list" where
  "mailbox_body i v =
     bay_body i v @ (if answer_text v ''pin'' \<noteq> [] then [(''pin'', JStr (answer_text v ''pin''))] else [])"

definition mailbox_fields :: "mailbox_info \<Rightarrow> dialog_field list" where
  "mailbox_fields m = [typed_field ''slots'' ''Slots (1-5)'' ''number'' (show_int (mbx_slots m)),
     typed_field ''pin'' ''New 4-digit PIN (blank = leave unchanged)'' ''password'' []]"

definition mailbox_request :: "mailbox_info \<Rightarrow> (string \<rightharpoonup> answer) \<Rightarrow> request" where
  "mailbox_request m v = put_req (mailbox_path (mbx_id m)) (JObj (mailbox_body (mbx_id m) v))"

definition edit_mailbox_click :: "mailbox_info \<Rightarrow> (dom, unit) prog" where
  "edit_mailbox_click m = edit_row (''Edit mailbox '' @ mbx_id m) (mailbox_fields m) (mailbox_request m) ''mailboxes''"

definition clear_pin_request :: "mailbox_info \<Rightarrow> request" where
  "clear_pin_request m =
     put_req (mailbox_path (mbx_id m)) (JObj [(''id'', JStr (mbx_id m)), (''slots'', JNum (mbx_slots m)), (''pin'', JStr [])])"

definition clear_pin_click :: "mailbox_info \<Rightarrow> (dom, unit) prog" where
  "clear_pin_click m =
     Confirm (''Clear the PIN for mailbox '' @ mbx_id m @ ''?'') (\<lambda>yes. if \<not> yes then Return ()
       else io_seq (api (clear_pin_request m)) (start (LoadAdmin ''mailboxes'')))"

definition delete_mailbox_click :: "mailbox_info \<Rightarrow> (dom, unit) prog" where
  "delete_mailbox_click m =
     delete_row (''Delete mailbox '' @ mbx_id m @ ''? Its slots must be empty.'') (mailbox_path (mbx_id m)) ''mailboxes''"

definition new_mailbox_click :: "(dom, unit) prog" where
  "new_mailbox_click =
     create_row ''New mailbox'' [text_field ''id'' ''ID'' [], typed_field ''slots'' ''Slots (1-5)'' ''number'' ''1'',
         typed_field ''pin'' ''PIN (optional)'' ''password'' []] ''id''
       (\<lambda>v. post_req ''/api/v1/mailboxes'' (JObj (mailbox_body (answer_text v ''id'') v))) ''mailboxes''"

section \<open>Logical libraries\<close>

definition status_of_answer :: "payload option \<Rightarrow> status option" where
  "status_of_answer a = (case a of Some (PStatus st) \<Rightarrow> Some st | _ \<Rightarrow> None)"

definition libraries_of :: "payload option \<Rightarrow> logical_library list" where
  "libraries_of a = (case a of Some (PLibraries ls) \<Rightarrow> ls | _ \<Rightarrow> [])"

definition report_of :: "payload option \<Rightarrow> string \<Rightarrow> device_report option" where
  "report_of a n = map_of (or_nil (devices_of a)) n"

definition scsi_path :: "device_report option \<Rightarrow> string" where
  "scsi_path report = (case report of None \<Rightarrow> ''-'' | Some r \<Rightarrow> or_else (changer_stable r) (or_else (changer r) ''-''))"

definition mailbox_count :: "logical_library \<Rightarrow> nat" where
  "mailbox_count lib = card (set (filter (\<lambda>m. m \<noteq> []) (map mailbox_id (or_nil (lib_io_slots lib)))))"

definition library_row :: "payload option \<Rightarrow> logical_library \<Rightarrow> string \<times> string list" where
  "library_row devices lib =
     (tds [''<span style=\"display:inline-block;width:0.7em;height:0.7em;border-radius:50%;background:'' @
             or_else (lib_color lib) ''#4285F4'' @ '';margin-right:0.4em;\"></span>'' @ lib_name lib,
           show_nat (length (or_nil (lib_drives lib))), show_nat (length (or_nil (lib_slots lib))),
           show_nat (mailbox_count lib), scsi_path (report_of devices (lib_name lib)),
           if lib_changer_model lib = ''realistic'' then ''Realistic'' else ''Default''],
      [''Bareos Config'', ''Kernel Mode Setup'', ''Edit'', ''Delete''])"

definition loadLogicalLibraries :: "(dom, unit) prog" where
  "loadLogicalLibraries =
     io_bind (api_all [get_req ''/api/v1/logical-libraries'', get_req ''/api/v1/status'', get_req ''/api/v1/wizard'',
         get_req ''/api/v1/kernel-mode/devices''])
       (\<lambda>as. if as ! 2 = None then io_throw ''TypeError''
         else update (set_rows ''logicalLibrariesTable'' (map (library_row (as ! 3)) (libraries_of (as ! 0)))))"

definition logicalLibraryPickerData :: "(dom, payload option list) prog" where
  "logicalLibraryPickerData =
     io_bind (api_all [get_req ''/api/v1/status'', get_req ''/api/v1/magazines'', get_req ''/api/v1/mailboxes'',
         get_req ''/api/v1/logical-libraries'', get_req ''/api/v1/kernel-mode/devices''])
       (\<lambda>as. if as ! 0 = None then io_throw ''TypeError'' else Return as)"

definition changerModelOptions :: "choice list" where
  "changerModelOptions = [choice [] ''Default (GOTOCHNG)'', choice ''realistic'' ''Realistic (STK SL150)'']"

text \<open>The fields beside the board.\<close>

definition library_fields :: "logical_library \<Rightarrow> dialog_field list" where
  "library_fields lib =
     [typed_field ''color'' ''Color'' ''color'' (or_else (lib_color lib) ''#4285F4''),
      choice_field ''changer_model'' ''Changer Model'' changerModelOptions (lib_changer_model lib)]"

text \<open>An answer holds texts: a drive's index, a number in the board's set, is its decimal text there.\<close>

definition membership_json :: "(string \<rightharpoonup> answer) \<Rightarrow> (string \<times> json) list" where
  "membership_json v =
     [(''drives'', JArr (map number_json (answer_list v ''drives''))),
      (''magazines'', JArr (map JStr (answer_list v ''magazines''))), (''mailboxes'', JArr (map JStr (answer_list v ''mailboxes'')))]"

definition library_body :: "string \<Rightarrow> (string \<rightharpoonup> answer) \<Rightarrow> json" where
  "library_body n v =
     JObj ([(''name'', JStr n), (''color'', JStr (answer_text v ''color'')), (''changer_model'', JStr (answer_text v ''changer_model''))] @
       membership_json v)"

definition library_path :: "string \<Rightarrow> string" where
  "library_path n = ''/api/v1/logical-libraries/'' @ encodeURIComponent n"

definition edit_library_click :: "logical_library \<Rightarrow> (dom, unit) prog" where
  "edit_library_click lib =
     io_seq logicalLibraryPickerData
       (edit_row (''Edit logical library '' @ lib_name lib) (library_fields lib)
         (\<lambda>v. put_req (library_path (lib_name lib)) (library_body (lib_name lib) v)) ''logical-libraries'')"

definition delete_library_click :: "logical_library \<Rightarrow> (dom, unit) prog" where
  "delete_library_click lib =
     delete_row (''Delete logical library '' @ lib_name lib @ ''?'') (library_path (lib_name lib)) ''logical-libraries''"

definition new_library_click :: "(dom, unit) prog" where
  "new_library_click =
     io_bind logicalLibraryPickerData (\<lambda>as.
       create_row ''New logical library''
         [text_field ''name'' ''Name'' [],
          typed_field ''color'' ''Color'' ''color'' (nextLogicalLibraryColor (length (libraries_of (as ! 3)))),
          choice_field ''changer_model'' ''Changer Model'' changerModelOptions []] ''name''
         (\<lambda>v. post_req ''/api/v1/logical-libraries'' (library_body (answer_text v ''name'') v)) ''logical-libraries'')"

text \<open>The two texts a row shows, and the whole library's.\<close>

definition bareos_config_click :: "payload option list \<Rightarrow> string \<Rightarrow> logical_library \<Rightarrow> string \<times> string" where
  "bareos_config_click as mode lib =
     showBareosConfig lib (case status_of_answer (as ! 1) of None \<Rightarrow> [] | Some st \<Rightarrow> st_name st) mode (report_of (as ! 3) (lib_name lib))"

definition whole_library_kernel_click :: "(dom, string \<times> string) prog" where
  "whole_library_kernel_click =
     io_bind (api (get_req ''/api/v1/status'')) (\<lambda>a. case status_of_answer a of
         None \<Rightarrow> io_throw ''TypeError'' | Some st \<Rightarrow> Return (showKernelModeSetup None (st_name st)))"

section \<open>Create tape\<close>

definition outside_create_fields :: "tape_set_config list \<Rightarrow> dialog_field list" where
  "outside_create_fields sets =
     [choice_field ''tape_set'' ''Tape Set'' (map (\<lambda>t. choice (tsc_name t) (tsc_name t @ '' ('' @ tsc_tape_type t @ '')'')) sets) [],
      choice_field ''mode'' ''Mode'' [choice ''auto'' ''Auto-generate barcode'', choice ''manual'' ''Enter barcode manually''] [],
      typed_field ''count'' ''Count (auto mode)'' ''number'' ''1'', text_field ''barcode'' ''Barcode (manual mode)'' []]"

text \<open>\<open>goto_admin\<close> is the switch to the tape sets of the Admin view (Boot).\<close>

definition outside_create_click :: "(dom, unit) prog \<Rightarrow> (dom, unit) prog" where
  "outside_create_click goto_admin =
     io_bind (api (get_req ''/api/v1/tape-sets'')) (\<lambda>a.
       let sets = (case a of Some (PTapeSets ts) \<Rightarrow> ts | _ \<Rightarrow> []) in
       if sets = [] then
         Get (\<lambda>d. if role (dom_app d) = ''admin''
           then io_seq (alert ''No tape sets configured yet. Create one first.'') goto_admin
           else alert ''No tape sets configured yet. Ask an administrator to create one.'')
       else Dialog ''Add tape to a tape set'' (outside_create_fields sets) (\<lambda>v. case v of None \<Rightarrow> Return ()
         | Some ans \<Rightarrow>
             if answer_text ans ''tape_set'' = [] then Return ()
             else io_catch
               (io_seq (api (post_req (tape_set_path (answer_text ans ''tape_set'') ''/tapes'') (add_tapes_body ans))) (start Refresh))
               alert))"

section \<open>Every request the pages send\<close>

datatype admin_action =
    ChangeRole user_info | ResetPassword user_info | DeleteUser user_info | NewUser
  | RevokeToken token_info | NewToken
  | EditDriveType drive_kind | DeleteDriveType drive_kind | NewDriveType
  | EditTapeType tape_type_info | DeleteTapeType tape_type_info | NewTapeType
  | EditTapeSet tape_set_config | AddTapes tape_set_config | DeleteTapeSet tape_set_config | NewTapeSet
  | EditDrive "choice list" drive_device | DeleteDrive drive_device | NewDrive
  | EditMagazine bay | DeleteMagazine bay | NewMagazine
  | EditMailbox mailbox_info | ClearPin mailbox_info | DeleteMailbox mailbox_info | NewMailbox
  | EditLibrary logical_library | DeleteLibrary logical_library | NewLibrary

fun admin_click :: "admin_action \<Rightarrow> (dom, unit) prog" where
  "admin_click (ChangeRole u) = mkBtn (change_role_click u)"
| "admin_click (ResetPassword u) = mkBtn (reset_password_click u)"
| "admin_click (DeleteUser u) = mkBtn (delete_user_click u)"
| "admin_click NewUser = new_user_click"
| "admin_click (RevokeToken t) = mkBtn (revoke_click t)"
| "admin_click NewToken = new_token_click"
| "admin_click (EditDriveType d) = mkBtn (edit_drive_type_click d)"
| "admin_click (DeleteDriveType d) = mkBtn (delete_drive_type_click d)"
| "admin_click NewDriveType = new_drive_type_click"
| "admin_click (EditTapeType t) = mkBtn (edit_tape_type_click t)"
| "admin_click (DeleteTapeType t) = mkBtn (delete_tape_type_click t)"
| "admin_click NewTapeType = new_tape_type_click"
| "admin_click (EditTapeSet t) = mkBtn (edit_tape_set_click t)"
| "admin_click (AddTapes t) = mkBtn (add_tapes_click t)"
| "admin_click (DeleteTapeSet t) = mkBtn (delete_tape_set_click t)"
| "admin_click NewTapeSet = new_tape_set_click"
| "admin_click (EditDrive opts d) = mkBtn (edit_drive_click opts d)"
| "admin_click (DeleteDrive d) = mkBtn (delete_drive_click d)"
| "admin_click NewDrive = new_drive_click"
| "admin_click (EditMagazine m) = mkBtn (edit_magazine_click m)"
| "admin_click (DeleteMagazine m) = mkBtn (delete_magazine_click m)"
| "admin_click NewMagazine = new_magazine_click"
| "admin_click (EditMailbox m) = mkBtn (edit_mailbox_click m)"
| "admin_click (ClearPin m) = mkBtn (clear_pin_click m)"
| "admin_click (DeleteMailbox m) = mkBtn (delete_mailbox_click m)"
| "admin_click NewMailbox = new_mailbox_click"
| "admin_click (EditLibrary l) = mkBtn (edit_library_click l)"
| "admin_click (DeleteLibrary l) = mkBtn (delete_library_click l)"
| "admin_click NewLibrary = new_library_click"

text \<open>The struct each handler's body is decoded into (internal/api, internal/config).\<close>

definition texts :: "string list \<Rightarrow> (string \<times> gotype) list" where
  "texts ns = map (\<lambda>n. (n, GStr)) ns"

definition drive_type_struct :: gotype where
  "drive_type_struct = GStruct (texts [''name'', ''speed'', ''capacity'', ''description'', ''model'', ''generation'',
     ''barcode_family'', ''scsi_identity''])"

definition tape_type_struct :: gotype where
  "tape_type_struct = GStruct ((''volser_length'', GInt) #
     texts [''name'', ''capacity'', ''description'', ''barcode_family'', ''media_id''])"

definition bay_struct :: "gotype" where
  "bay_struct = GStruct [(''id'', GStr), (''slots'', GInt)]"

definition mailbox_struct :: gotype where
  "mailbox_struct = GStruct [(''id'', GStr), (''slots'', GInt), (''pin'', GStr)]"

definition library_struct :: gotype where
  "library_struct = GStruct [(''name'', GStr), (''drives'', GList GInt), (''magazines'', GList GStr), (''mailboxes'', GList GStr),
     (''color'', GStr), (''changer_model'', GStr)]"

fun body_struct :: "admin_action \<Rightarrow> gotype" where
  "body_struct (ChangeRole u) = GStruct (texts [''role''])"
| "body_struct (ResetPassword u) = GStruct (texts [''new_password''])"
| "body_struct NewUser = GStruct (texts [''username'', ''role'', ''password''])"
| "body_struct NewToken = GStruct (texts [''name'', ''role''])"
| "body_struct (EditDriveType d) = drive_type_struct"
| "body_struct NewDriveType = drive_type_struct"
| "body_struct (EditTapeType t) = tape_type_struct"
| "body_struct NewTapeType = tape_type_struct"
| "body_struct (EditTapeSet t) = GStruct (texts [''name'', ''tape_type'', ''storage_folder''])"
| "body_struct (AddTapes t) = GStruct [(''count'', GInt), (''barcode'', GStr)]"
| "body_struct NewTapeSet = GStruct ((''initial_tape_count'', GInt) # texts [''name'', ''tape_type'', ''storage_folder''])"
| "body_struct (EditDrive opts d) = GStruct (texts [''device_path'', ''drive_type''])"
| "body_struct NewDrive = GStruct (texts [''device_path'', ''drive_type''])"
| "body_struct (EditMagazine m) = bay_struct"
| "body_struct NewMagazine = bay_struct"
| "body_struct (EditMailbox m) = mailbox_struct"
| "body_struct (ClearPin m) = mailbox_struct"
| "body_struct NewMailbox = mailbox_struct"
| "body_struct (EditLibrary l) = library_struct"
| "body_struct NewLibrary = library_struct"
| "body_struct a = GStruct []"

lemmas structs = drive_type_struct_def tape_type_struct_def bay_struct_def mailbox_struct_def library_struct_def texts_def

text \<open>The number fields of the dialogs hold integers of at most 15 digits, or nothing.\<close>

definition plain_numbers :: "(string \<rightharpoonup> answer) \<Rightarrow> bool" where
  "plain_numbers v \<longleftrightarrow>
     list_all (\<lambda>k. integer_text (answer_text v k)) [''slots'', ''count'', ''initial_tape_count'', ''volser_length''] \<and>
     list_all integer_text (answer_list v ''drives'')"

lemma small_int64: "\<bar>i\<bar> < 10 ^ 15 \<Longrightarrow> int64 i"
  unfolding int64_def abs_less_iff by (intro conjI) simp_all

lemma decodes_number: "integer_text s \<Longrightarrow> decodes GInt (number_json s)"
  using number_json_integer small_int64 by fastforce

lemma decodes_numbers: "list_all integer_text xs \<Longrightarrow> list_all (decodes GInt) (map number_json xs)"
  by (induction xs) (simp_all add: decodes_number)

lemma decodes_parsed: "integer_text s \<Longrightarrow> decodes GInt (num_json (parse_int s))"
  using integer_text_value(2) [of s] small_int64 by (cases "parse_int s") (simp_all add: num_json_def)

lemma decodes_int_or_zero: "integer_text s \<Longrightarrow> int64 (int_or_zero s)"
  using integer_text_value(2) [of s] small_int64 by (cases "parse_int s") (simp_all add: int_or_zero_def int64_def)

lemma decodes_strs [simp]: "list_all (decodes GStr) (map JStr xs)"
  by (induction xs) simp_all

text \<open>The contract of the Admin tables: every body decodes.\<close>

definition body_ok :: "gotype \<Rightarrow> request \<Rightarrow> bool" where
  "body_ok t q \<longleftrightarrow> decodes t (req_body q)"

declare body_ok_def [simp]

lemma no_body [simp]: "req_body (get_req p) = JNull" "req_body (delete_req p) = JNull"
  by (simp_all add: get_req_def delete_req_def)

lemmas body_defs = structs post_req_def put_req_def delete_req_def spread_def text_field_def typed_field_def choice_field_def
  bay_body_def mailbox_body_def

lemma decodes_bay [simp]:
  "plain_numbers v \<Longrightarrow> decodes bay_struct (JObj (bay_body i v))"
  "plain_numbers v \<Longrightarrow> decodes mailbox_struct (JObj (mailbox_body i v))"
  by (simp_all add: bay_body_def mailbox_body_def bay_struct_def mailbox_struct_def plain_numbers_def decodes_number)

lemma decodes_library [simp]: "plain_numbers v \<Longrightarrow> decodes library_struct (library_body n v)"
  using decodes_numbers by (simp add: library_body_def membership_json_def library_struct_def plain_numbers_def)

lemma decodes_add_tapes [simp]:
  "plain_numbers v \<Longrightarrow> decodes (GStruct [(''count'', GInt), (''barcode'', GStr)]) (add_tapes_body v)"
  by (simp add: add_tapes_body_def Let_def plain_numbers_def decodes_int_or_zero int64_def [of 1])

lemma decodes_tape_type [simp]:
  "plain_numbers v \<Longrightarrow> decodes tape_type_struct (JObj ((''name'', JStr n) # tape_type_values (tapeTypeFields tt) v))"
  "plain_numbers v \<Longrightarrow> decodes tape_type_struct (JObj (tape_type_values new_tape_type_fields v))"
  by (simp_all add: plain_numbers_def decodes_int_or_zero tape_type_values_def spread_def tapeTypeFields_def new_tape_type_fields_def text_field_def typed_field_def
      choice_field_def tape_type_struct_def texts_def)

lemma decodes_tape_set [simp]:
  "plain_numbers v \<Longrightarrow> decodes (GStruct ((''initial_tape_count'', GInt) # texts [''name'', ''tape_type'', ''storage_folder''])) (new_tape_set_body opts v)"
  by (simp add: plain_numbers_def decodes_parsed new_tape_set_body_def spread_def new_tape_set_fields_def text_field_def typed_field_def choice_field_def texts_def)

lemma decodes_drive_type [simp]:
  "decodes drive_type_struct (JObj ((''name'', JStr n) # spread (drive_type_fields dt) v))"
  "decodes drive_type_struct (JObj (spread new_drive_type_fields v))"
  by (simp_all add: spread_def drive_type_fields_def new_drive_type_fields_def text_field_def choice_field_def drive_type_struct_def texts_def)

lemma sends_loaders [sends_intros]:
  "P (get_req ''/api/v1/tape-types'') \<Longrightarrow> sends I P loadTapeTypeOptions"
  "(\<And>p. P (get_req p)) \<Longrightarrow> sends I P logicalLibraryPickerData"
  unfolding loadTapeTypeOptions_def logicalLibraryPickerData_def by (intro sends_intros; simp)+

lemma sends_new_token: "sends plain_numbers (body_ok (GStruct (texts [''name'', ''role'']))) new_token_click"
proof -
  have k: "sends plain_numbers (body_ok t) (case created of Some (PToken x) \<Rightarrow> io_seq (alert (m x)) (start (LoadAdmin n)) | _ \<Rightarrow> io_throw e)"
    for t created m n e
    by (cases created rule: option.exhaust) (auto split: payload.split intro!: sends_seq sends_alert sends_start sends_throw)
  show ?thesis
    unfolding new_token_click_def
    by (intro sends_Dialog; simp only: option.case)
      (intro sends_intros k, auto intro!: sends_catch sends_bind sends_api sends_alert sends_if sends_Return k
        simp: post_req_def spread_def new_token_fields_def text_field_def choice_field_def texts_def)
qed

text \<open>Clear PIN sends the row's slot count, an int of the server.\<close>

fun row_in_range :: "admin_action \<Rightarrow> bool" where
  "row_in_range (ClearPin m) = int64 (mbx_slots m)"
| "row_in_range a = True"

lemma sends_admin: "row_in_range a \<Longrightarrow> sends plain_numbers (body_ok (body_struct a)) (admin_click a)"
proof (cases a)
  case (ChangeRole u)
  then show ?thesis by (simp add: change_role_click_def change_role_request_def post_req_def texts_def sends_mkBtn sends_edit_row)
next
  case (ResetPassword u)
  then show ?thesis by (simp add: reset_password_click_def post_req_def texts_def sends_mkBtn sends_edit_row)
next
  case NewUser
  then show ?thesis
    by (simp add: new_user_click_def new_user_fields_def post_req_def spread_def text_field_def typed_field_def choice_field_def
        texts_def sends_create_row)
next
  case NewToken
  then show ?thesis by (simp add: sends_new_token)
next
  case (EditDriveType d)
  then show ?thesis by (simp add: edit_drive_type_click_def drive_type_request_def put_req_def sends_mkBtn sends_edit_row)
next
  case NewDriveType
  then show ?thesis by (simp add: new_drive_type_click_def post_req_def sends_create_row)
next
  case NewTapeType
  then show ?thesis by (simp add: new_tape_type_click_def post_req_def sends_create_row)
next
  case (EditMagazine m)
  then show ?thesis by (simp add: edit_magazine_click_def magazine_request_def put_req_def sends_mkBtn sends_edit_row)
next
  case NewMagazine
  then show ?thesis by (simp add: new_magazine_click_def post_req_def sends_create_row)
next
  case (EditMailbox m)
  then show ?thesis by (simp add: edit_mailbox_click_def mailbox_request_def put_req_def sends_mkBtn sends_edit_row)
next
  case NewMailbox
  then show ?thesis by (simp add: new_mailbox_click_def post_req_def sends_create_row)
next
  case (EditDrive opts d)
  then show ?thesis by (simp add: edit_drive_click_def drive_request_def put_req_def texts_def sends_mkBtn sends_edit_row)
next
  case (EditLibrary l)
  then show ?thesis
    by (simp add: edit_library_click_def put_req_def sends_mkBtn sends_seq sends_loaders sends_edit_row)
next
  case NewLibrary
  then show ?thesis
    by (simp add: new_library_click_def post_req_def sends_bind sends_loaders sends_create_row)
next
  case (ClearPin m)
  moreover assume "row_in_range a"
  ultimately show ?thesis
    by (simp add: clear_pin_click_def clear_pin_request_def put_req_def mailbox_struct_def sends_mkBtn sends_Confirm sends_if
        sends_Return sends_seq sends_api sends_start)
next
  case (EditTapeType t)
  then show ?thesis
    by (simp add: edit_tape_type_click_def tape_type_request_def put_req_def sends_mkBtn sends_Dialog sends_Return sends_catch
        sends_seq sends_api sends_start sends_alert)
next
  case (EditTapeSet t)
  then show ?thesis
    by (simp add: edit_tape_set_click_def tape_set_request_def tape_set_fields_def put_req_def spread_def choice_field_def
        typed_field_def texts_def sends_mkBtn sends_bind sends_loaders sends_Dialog sends_Return sends_catch sends_seq
        sends_api sends_start sends_alert)
next
  case (AddTapes t)
  then show ?thesis
    by (simp add: add_tapes_click_def post_req_def sends_mkBtn sends_Dialog sends_Return sends_catch sends_bind sends_seq
        sends_api sends_start sends_alert)
next
  case (DeleteTapeSet t)
  then show ?thesis
    by (simp add: delete_tape_set_click_def delete_req_def sends_mkBtn sends_Confirm sends_Return sends_catch sends_seq
        sends_api sends_start sends_alert)
next
  case NewTapeSet
  have k: "sends plain_numbers (body_ok t) (case res of Some (PTapeSet n vols) \<Rightarrow> io_seq (alert (m n vols)) (start x) | _ \<Rightarrow> io_throw e)" for t res m x e
    by (cases res rule: option.exhaust) (auto split: payload.split intro!: sends_seq sends_alert sends_start sends_throw)
  from NewTapeSet show ?thesis
    by (auto simp: new_tape_set_click_def post_req_def split: option.split
        intro!: sends_bind sends_loaders sends_if sends_alert sends_Dialog sends_Return sends_catch sends_api k)
next
  case NewDrive
  then show ?thesis
    by (simp add: new_drive_click_def post_req_def get_req_def texts_def sends_bind sends_Dialog sends_Return sends_catch
        sends_seq sends_api sends_start sends_alert)
qed (simp_all add: delete_user_click_def revoke_click_def delete_drive_type_click_def delete_tape_type_click_def
    delete_drive_click_def delete_magazine_click_def delete_mailbox_click_def delete_library_click_def sends_mkBtn sends_delete_row)

section \<open>What an edit keeps\<close>

text \<open>The server's side of a PUT: the struct's fields, empty or 0 where the body has none; the name is the path's.\<close>

definition str_field :: "json \<Rightarrow> string \<Rightarrow> string" where
  "str_field j k = (case j of JObj kvs \<Rightarrow> (case map_of kvs k of Some (JStr s) \<Rightarrow> s | _ \<Rightarrow> []) | _ \<Rightarrow> [])"

definition int_field :: "json \<Rightarrow> string \<Rightarrow> int" where
  "int_field j k = (case j of JObj kvs \<Rightarrow> (case map_of kvs k of Some (JNum i) \<Rightarrow> i | _ \<Rightarrow> 0) | _ \<Rightarrow> 0)"

definition has_field :: "json \<Rightarrow> string \<Rightarrow> bool" where
  "has_field j k = (case j of JObj kvs \<Rightarrow> map_of kvs k \<noteq> None | _ \<Rightarrow> False)"

definition read_drive_type :: "string \<Rightarrow> json \<Rightarrow> drive_kind" where
  "read_drive_type n j = \<lparr>dk_name = n, dk_speed = str_field j ''speed'', dk_capacity = str_field j ''capacity'',
     dk_description = str_field j ''description'', dk_model = str_field j ''model'', dk_generation = str_field j ''generation'',
     dk_barcode_family = str_field j ''barcode_family'', dk_scsi_identity = str_field j ''scsi_identity''\<rparr>"

definition read_tape_type :: "string \<Rightarrow> json \<Rightarrow> tape_type_info" where
  "read_tape_type n j = \<lparr>tt_name = n, tt_capacity = str_field j ''capacity'', tt_description = str_field j ''description'',
     tt_barcode_family = str_field j ''barcode_family'', tt_media_id = str_field j ''media_id'',
     tt_volser_length = int_field j ''volser_length''\<rparr>"

definition read_tape_set :: "string \<Rightarrow> json \<Rightarrow> tape_set_config" where
  "read_tape_set n j = \<lparr>tsc_name = n, tsc_tape_type = str_field j ''tape_type'', tsc_storage_folder = str_field j ''storage_folder''\<rparr>"

definition read_bay :: "string \<Rightarrow> json \<Rightarrow> bay" where
  "read_bay n j = \<lparr>bay_id = n, bay_slots = int_field j ''slots''\<rparr>"

text \<open>handleUpdateMailbox: an absent PIN is left as it is, an empty one removes it.\<close>

definition update_mailbox :: "json \<Rightarrow> mailbox_info \<Rightarrow> mailbox_info" where
  "update_mailbox j m = m\<lparr>mbx_slots := int_field j ''slots'',
     mbx_pin_set := (if has_field j ''pin'' then str_field j ''pin'' \<noteq> [] else mbx_pin_set m)\<rparr>"

definition families :: "string list" where
  "families = map ch_value barcodeFamilyOptions"

lemma default_simps [simp]:
  "one_line v \<Longrightarrow> field_default (text_field n l v) = v" "one_line v \<Longrightarrow> field_default (typed_field n l ''number'' v) = v"
  "one_line v \<Longrightarrow> field_default (typed_field n l ''password'' v) = v"
  "one_line v \<Longrightarrow> field_default (typed_field n l ''folderpicker'' v) = v"
  "field_default (typed_field n l ''color'' v) = color_value v"
  "v \<in> ch_value ` set opts \<Longrightarrow> field_default (choice_field n l opts v) = v"
  by (simp_all add: field_default_def text_field_def typed_field_def choice_field_def)

lemma field_names [simp]:
  "df_name (text_field n l v) = n" "df_name (typed_field n l t v) = n" "df_name (choice_field n l opts v) = n"
  by (simp_all add: text_field_def typed_field_def choice_field_def)

text \<open>
  handleUpdateDrive: a device path that is not absolute is refused; the row it answers looks the model, generation and
  capacity up in the catalog, the last type of a name counting.
\<close>

definition drive_view :: "drive_kind list \<Rightarrow> int \<Rightarrow> string \<Rightarrow> string \<Rightarrow> drive_device" where
  "drive_view types i path ty =
     (let dt = map_of (rev (map (\<lambda>t. (dk_name t, t)) types)) ty; col = (\<lambda>f. case dt of None \<Rightarrow> [] | Some t \<Rightarrow> f t) in
      \<lparr>dd_index = i, dd_path = path, dd_type = ty, dd_model = col dk_model, dd_generation = col dk_generation,
       dd_capacity = col dk_capacity\<rparr>)"

definition read_drive :: "drive_kind list \<Rightarrow> int \<Rightarrow> json \<Rightarrow> drive_device option" where
  "read_drive types i j =
     (let path = str_field j ''device_path'' in
      if path = [] \<or> hd path \<noteq> CHR ''/'' then None else Some (drive_view types i path (str_field j ''drive_type'')))"

text \<open>config.LogicalLibraryConfig, what handleUpdateLogicalLibrary decodes and the store keeps; the name is the path's.\<close>

record library_config =
  lc_name :: string
  lc_drives :: "int list"
  lc_magazines :: "string list"
  lc_mailboxes :: "string list"
  lc_color :: string
  lc_changer_model :: string

definition list_field :: "json \<Rightarrow> string \<Rightarrow> json list" where
  "list_field j k = (case j of JObj kvs \<Rightarrow> (case map_of kvs k of Some (JArr xs) \<Rightarrow> xs | _ \<Rightarrow> []) | _ \<Rightarrow> [])"

fun json_int :: "json \<Rightarrow> int" where
  "json_int (JNum i) = i"
| "json_int j = 0"

fun json_str :: "json \<Rightarrow> string" where
  "json_str (JStr s) = s"
| "json_str j = []"

definition read_library_update :: "string \<Rightarrow> json \<Rightarrow> library_config" where
  "read_library_update n j = \<lparr>lc_name = n, lc_drives = map json_int (list_field j ''drives''),
     lc_magazines = map json_str (list_field j ''magazines''), lc_mailboxes = map json_str (list_field j ''mailboxes''),
     lc_color = str_field j ''color'', lc_changer_model = str_field j ''changer_model''\<rparr>"

definition library_config_of :: "logical_library \<Rightarrow> library_config" where
  "library_config_of lib =
     (let m = logicalLibraryMembership lib in
      \<lparr>lc_name = lib_name lib, lc_drives = m_drives m, lc_magazines = m_magazines m, lc_mailboxes = m_mailboxes m,
       lc_color = lib_color lib, lc_changer_model = lib_changer_model lib\<rparr>)"

text \<open>What the board of the dialog gives when nothing was dragged on it.\<close>

definition board_answer :: "membership \<Rightarrow> string \<rightharpoonup> answer" where
  "board_answer m = [''drives'' \<mapsto> AList (map show_int (m_drives m)), ''magazines'' \<mapsto> AList (m_magazines m),
     ''mailboxes'' \<mapsto> AList (m_mailboxes m)]"

definition untouched_library :: "logical_library \<Rightarrow> string \<rightharpoonup> answer" where
  "untouched_library lib = untouched (library_fields lib) ++ board_answer (initial_membership (logicalLibraryMembership lib))"

lemma edit_keeps_drive_type:
  assumes "dk_barcode_family dt \<in> set families" "dk_scsi_identity dt \<in> {[], ''realistic''}"
    and "list_all one_line [dk_model dt, dk_generation dt, dk_speed dt, dk_capacity dt, dk_description dt]"
  shows "read_drive_type (dk_name dt) (req_body (drive_type_request dt (untouched (drive_type_fields dt)))) = dt"
proof -
  have "field_default (choice_field n l barcodeFamilyOptions (dk_barcode_family dt)) = dk_barcode_family dt" for n l
    using assms(1) by (intro default_simps) (simp add: families_def)
  moreover have "field_default (choice_field n l scsiIdentityOptions (dk_scsi_identity dt)) = dk_scsi_identity dt" for n l
    using assms(2) by (intro default_simps) (auto simp: scsiIdentityOptions_def)
  ultimately show ?thesis
    using assms(3) by (simp add: read_drive_type_def drive_type_request_def put_req_def spread_def drive_type_fields_def
        untouched_def str_field_def answer_text_def)
qed

lemma edit_keeps_tape_type:
  assumes "tt_barcode_family tt \<in> set families" "tt_volser_length tt \<noteq> 0"
    and "list_all one_line [tt_capacity tt, tt_description tt, tt_media_id tt]"
  shows "read_tape_type (tt_name tt) (req_body (tape_type_request tt (untouched (tapeTypeFields tt)))) = tt"
proof -
  have "field_default (choice_field n l barcodeFamilyOptions (tt_barcode_family tt)) = tt_barcode_family tt" for n l
    using assms(1) by (intro default_simps) (simp add: families_def)
  with assms(2,3) show ?thesis
    by (simp add: read_tape_type_def tape_type_request_def put_req_def tape_type_values_def spread_def tapeTypeFields_def
        untouched_def str_field_def int_field_def answer_text_def int_or_zero_def)
qed

lemma edit_keeps_tape_set:
  assumes "tsc_tape_type ts \<in> ch_value ` set opts" "one_line (tsc_storage_folder ts)"
  shows "read_tape_set (tsc_name ts) (req_body (tape_set_request opts ts (untouched (tape_set_fields opts ts)))) = ts"
  using assms by (simp add: read_tape_set_def tape_set_request_def put_req_def spread_def tape_set_fields_def untouched_def
      str_field_def answer_text_def)

lemma edit_keeps_drive:
  assumes "ty = [] \<or> ty \<in> dk_name ` set types" "one_line path" "path \<noteq> []" "hd path = CHR ''/''"
    and d: "d = drive_view types i path ty"
  shows "read_drive types i (req_body (drive_request d (untouched (drive_fields (drive_type_choices (Some (PDriveTypes types))) d)))) =
    Some d"
proof -
  have sel: "ty \<in> ch_value ` set (drive_type_choices (Some (PDriveTypes types)))"
    using assms(1) by (force simp: drive_type_choices_def choice_def)
  have "field_default (choice_field n l (drive_type_choices (Some (PDriveTypes types))) ty) = ty" for n l
    using sel by (rule default_simps)
  then show ?thesis
    using assms by (simp add: read_drive_def drive_request_def put_req_def drive_fields_def untouched_def str_field_def answer_text_def
        drive_view_def Let_def)
qed

lemma edit_keeps_magazine:
  "read_bay (bay_id m) (req_body (magazine_request m (untouched (magazine_fields m)))) = m"
  by (simp add: read_bay_def magazine_request_def put_req_def bay_body_def magazine_fields_def untouched_def int_field_def
      answer_text_def)

lemma edit_keeps_mailbox:
  "update_mailbox (req_body (mailbox_request m (untouched (mailbox_fields m)))) m = m"
  by (simp add: update_mailbox_def mailbox_request_def put_req_def mailbox_body_def bay_body_def mailbox_fields_def untouched_def
      int_field_def has_field_def answer_text_def)

lemma json_reads [simp]: "json_int \<circ> (number_json \<circ> show_int) = id" "json_str \<circ> JStr = id"
  by (simp_all add: fun_eq_iff)

lemma edit_keeps_library:
  assumes "lib_changer_model lib \<in> {[], ''realistic''}" "distinct (drive_indices lib)"
  shows "read_library_update (lib_name lib) (library_body (lib_name lib) (untouched_library lib)) =
    (library_config_of lib)\<lparr>lc_color := color_value (or_else (lib_color lib) ''#4285F4'')\<rparr>"
proof -
  have "field_default (choice_field n l changerModelOptions (lib_changer_model lib)) = lib_changer_model lib" for n l
    using assms(1) by (intro default_simps) (auto simp: changerModelOptions_def choice_def)
  moreover have "js_set (js_set xs) = js_set xs" for xs :: "string list" by (simp add: js_set_distinct)
  ultimately show ?thesis
    using assms(2)
    by (simp add: read_library_update_def library_body_def membership_json_def untouched_library_def board_answer_def untouched_def
        library_fields_def str_field_def list_field_def answer_text_def answer_list_def library_config_of_def Let_def
        initial_membership_def logicalLibraryMembership_def js_set_distinct map_add_def)
qed

section \<open>Properties\<close>

text \<open>
  C12: Every body the Admin tables send is well-typed for the server: as long as the number fields of the dialogs
  hold integers (of at most 15 digits, or nothing), and whatever else the user enters and the server answered before,
  the object has only fields of the struct the handler decodes it into (which refuses others), each with a value the
  field's type takes. A fraction or an integer beyond 64 bits in a number field is sent as it is, and refused.
\<close>

theorem admin_requests_decode:
  assumes "exec R (admin_click a) s tr ts s' r" and "q \<in> set (requests tr)"
    and "entered plain_numbers tr" and "row_in_range a"
  shows "decodes (body_struct a) (req_body q)"
  using sendsD [OF sends_admin [OF assms(4)] assms(1,3)] assms(2) by (auto simp: body_ok_def)

definition lto8 :: drive_kind where
  "lto8 = \<lparr>dk_name = ''LTO-8'', dk_speed = ''360MB/s'', dk_capacity = ''12TB'', dk_description = [], dk_model = [],
     dk_generation = ''LTO-8'', dk_barcode_family = ''lto'', dk_scsi_identity = []\<rparr>"

definition lto8_tape :: tape_type_info where
  "lto8_tape = \<lparr>tt_name = ''LTO-8'', tt_capacity = ''12TB'', tt_description = [], tt_barcode_family = ''lto'',
     tt_media_id = ''L8'', tt_volser_length = 6\<rparr>"

definition ten_slots :: "string \<rightharpoonup> answer" where
  "ten_slots = [''id'' \<mapsto> AStr ''M2'', ''slots'' \<mapsto> AStr ''10'']"

theorem admin_requests_decode_witness:
  "decodes bay_struct (JObj (bay_body ''M2'' ten_slots))"
proof -
  let ?q = "post_req ''/api/v1/magazines'' (JObj (bay_body ''M2'' ten_slots))"
  have id: "answer_text ten_slots ''id'' = ''M2''" by (simp add: ten_slots_def answer_text_def)
  have run: "exec (=) (admin_click NewMagazine) undefined
      [SDialog ''New magazine'' (Some ten_slots), SFetch ?q (Answered 201 [] None)] [LoadAdmin ''magazines''] undefined (Done ())"
    by (simp add: new_magazine_click_def create_row_def exec_catch io_seq_def exec_bind exec_api id http_ok_def)
  have numbers: "entered plain_numbers [SDialog ''New magazine'' (Some ten_slots), SFetch ?q (Answered 201 [] None)]"
    by (simp add: plain_numbers_def ten_slots_def answer_text_def answer_list_def integer_text_def strip_sign_def is_digit_def)
  have "decodes (body_struct NewMagazine) (req_body ?q)" by (rule admin_requests_decode [OF run _ numbers]) simp_all
  then show ?thesis by (simp add: post_req_def)
qed



text \<open>
  C38: The Change role dialog does not open with the user's role: its list has no selected choice, so it opens on
  the first one, and confirming it untouched asks the server to make the user an administrator, whoever it is.
\<close>

theorem untouched_role_dialog_makes_admin:
  assumes "exec R (mkBtn (change_role_click u)) s tr ts s' r"
    and "SDialog (''Change role for '' @ usr_name u) (Some (untouched change_role_fields)) \<in> set tr"
  shows "requests tr = [post_req (user_path (usr_name u) ''/role'') (JObj [(''role'', JStr ''admin'')])]"
proof -
  obtain r1 tr1 es where m: "exec R (change_role_click u) s tr1 ts s' r1" "tr = tr1 @ map SAlert es"
    by (rule exec_mkBtn [OF assms(1)])
  then obtain v s2 tr2 where run: "tr1 = SDialog (''Change role for '' @ usr_name u) v # tr2"
    "exec R (case v of None \<Rightarrow> Return () | Some ans \<Rightarrow> io_seq (api (change_role_request u ans)) (start (LoadAdmin ''users''))) s2 tr2 ts s' r1"
    by (auto simp: change_role_click_def edit_row_def)
  have alerts: "requests (map SAlert es) = []" by (induction es) simp_all
  have fetch_only: "SDialog n x \<notin> set tr2" for n x
    using run(2) by (cases v) (auto simp: io_seq_def exec_bind exec_api)
  then have "v = Some (untouched change_role_fields)" using run(1) m(2) assms(2) by auto
  then have "requests tr2 = [change_role_request u (untouched change_role_fields)]"
    using run(2) by (auto simp: io_seq_def exec_bind dest!: exec_api_requests)
  moreover have "answer_text (untouched change_role_fields) ''role'' = ''admin''"
    by (simp add: untouched_def change_role_fields_def choice_field_def field_default_def role_choices_def choice_def answer_text_def)
  ultimately show ?thesis using run(1) m(2) alerts by (simp add: change_role_request_def)
qed

theorem untouched_role_dialog_makes_admin_witness:
  "requests [SDialog ''Change role for eve'' (Some (untouched change_role_fields)),
     SFetch (change_role_request \<lparr>usr_name = ''eve'', usr_role = ''viewer'', usr_must_change = False, usr_created = []\<rparr>
       (untouched change_role_fields)) (Answered 204 [] None)] =
   [post_req ''/api/v1/users/eve/role'' (JObj [(''role'', JStr ''admin'')])]"
proof -
  let ?u = "\<lparr>usr_name = ''eve'', usr_role = ''viewer'', usr_must_change = False, usr_created = []\<rparr>"
  have "exec (=) (mkBtn (change_role_click ?u)) undefined
      [SDialog (''Change role for '' @ ''eve'') (Some (untouched change_role_fields)),
       SFetch (change_role_request ?u (untouched change_role_fields)) (Answered 204 [] None)] [LoadAdmin ''users''] undefined (Done ())"
    by (simp add: change_role_click_def mkBtn_def exec_catch edit_row_def io_seq_def exec_bind exec_api)
  from untouched_role_dialog_makes_admin [OF this] have
    "requests [SDialog ''Change role for eve'' (Some (untouched change_role_fields)),
       SFetch (change_role_request ?u (untouched change_role_fields)) (Answered 204 [] None)] =
     [post_req (user_path ''eve'' ''/role'') (JObj [(''role'', JStr ''admin'')])]" by simp
  moreover have "user_path ''eve'' ''/role'' = ''/api/v1/users/eve/role''" by code_simp
  ultimately show ?thesis by simp
qed

end
