(* ===== verification/Admin_Settings.thy ===== *)
theory Admin_Settings
  imports Admin_Topology Wizard_View Js_Numbers Cartridge_Label
begin

text \<open>
  The Admin pages that are forms: general settings with the SNMP targets, latency, Prometheus, telemetry, the
  magazine PIN, cleaning with its tapes, backups (app.js \<open>loadSettings\<close> to the backup schedule form). A loader
  fills the form's elements from the server's answer, a submit listener sends what they hold. In the grid of
  cleaning tapes the entries of a row are the card's class and tooltip.
\<close>

section \<open>General settings\<close>

definition number_text :: "int \<Rightarrow> string" where
  "number_text n = (if n = 0 then [] else show_int n)"

definition target_line :: "snmp_target \<Rightarrow> string" where
  "target_line t = tg_host t @ '':'' @ show_int (tg_port t) @ '':'' @ tg_community t"

definition targets_text :: "snmp_target list \<Rightarrow> string" where
  "targets_text ts = join [newline] (map target_line ts)"

definition log_levels :: "string list" where
  "log_levels = [''debug'', ''info'', ''warn'', ''error'']"

definition fill_settings :: "daemon_config \<Rightarrow> string list option \<Rightarrow> dom \<Rightarrow> dom" where
  "fill_settings cfg restart d =
     (set_input ''s_default_capacity'' (cfg_default_capacity cfg)
     \<circ> set_input ''s_poll_interval'' (cfg_poll_interval cfg)
     \<circ> set_select log_levels ''s_log_level'' (or_else (cfg_log_level cfg) ''info'')
     \<circ> set_checked ''s_snmp_enabled'' (cfg_snmp_enabled cfg)
     \<circ> set_input ''s_snmp_oid'' (cfg_enterprise_oid cfg)
     \<circ> set_input ''s_snmp_agent'' (cfg_agent_address cfg)
     \<circ> set_value ''s_snmp_targets'' (targets_text (or_nil (cfg_targets cfg)))
     \<circ> set_checked ''s_offsite_location'' (cfg_offsite_location cfg)
     \<circ> set_input ''s_offsite_rotation_interval'' (cfg_rotation_interval cfg)
     \<circ> set_value ''s_offsite_rotation_count'' (number_text (cfg_rotation_count cfg))
     \<circ> set_text ''restartHint'' (''Fields requiring a service restart to take effect: '' @ join '', '' (or_nil restart))
     \<circ> set_text ''rawConfig'' (json_text 0 (cfg_json cfg))) d"

definition loadSettings :: "(dom, unit) prog" where
  "loadSettings =
     io_bind (api (get_req ''/api/v1/settings''))
       (show_answer (\<lambda>a. case a of Some (PSettings cfg restart) \<Rightarrow> Some (fill_settings cfg restart) | _ \<Rightarrow> None))"

text \<open>A line's host, port (null when it is no number) and community; what follows a third colon is dropped.\<close>

definition parse_target :: "string \<Rightarrow> string \<times> json \<times> string" where
  "parse_target l =
     (let ps = split_on (CHR '':'') l in
      (ps ! 0, if 1 < length ps then number_json (ps ! 1) else JNull,
       or_else (if 2 < length ps then ps ! 2 else []) ''public''))"

definition parse_targets :: "string \<Rightarrow> (string \<times> json \<times> string) list" where
  "parse_targets s = map parse_target (filter (\<lambda>l. l \<noteq> []) (map trim (split_on newline s)))"

definition target_json :: "string \<times> json \<times> string \<Rightarrow> json" where
  "target_json t = JObj [(''host'', JStr (fst t)), (''port'', fst (snd t)), (''community'', JStr (snd (snd t))),
     (''version'', JStr ''2c'')]"

definition settings_body :: "dom \<Rightarrow> json" where
  "settings_body d =
     JObj [(''default_capacity'', JStr (value_of d ''s_default_capacity'')),
       (''poll_interval'', JStr (value_of d ''s_poll_interval'')), (''log_level'', JStr (value_of d ''s_log_level'')),
       (''snmp_enabled'', JBool (checked_of d ''s_snmp_enabled'')), (''snmp_enterprise_oid'', JStr (value_of d ''s_snmp_oid'')),
       (''snmp_agent_address'', JStr (value_of d ''s_snmp_agent'')),
       (''snmp_targets'', JArr (map target_json (parse_targets (value_of d ''s_snmp_targets'')))),
       (''offsite_location'', JBool (checked_of d ''s_offsite_location'')),
       (''offsite_rotation_interval'', JStr (value_of d ''s_offsite_rotation_interval'')),
       (''offsite_rotation_count'', number_json (or_else (value_of d ''s_offsite_rotation_count'') ''0''))]"

definition on_settings_submit :: "(dom, unit) prog" where
  "on_settings_submit = submit_form ''/api/v1/settings'' settings_body ''settingsError'' (LoadAdmin ''settings'')"

section \<open>Latency\<close>

definition fillLatencyDurations :: "latency_settings \<Rightarrow> dom \<Rightarrow> dom" where
  "fillLatencyDurations ls d =
     (set_input ''lt_drive_load'' (lt_drive_load ls)
     \<circ> set_input ''lt_drive_unload'' (lt_drive_unload ls)
     \<circ> set_input ''lt_tape_positioning'' (lt_tape_positioning ls)
     \<circ> set_input ''lt_robot_move_tape'' (lt_robot_move_tape ls)
     \<circ> set_input ''lt_robot_move_scan'' (lt_robot_move_scan ls)
     \<circ> set_input ''lt_magazine_scan'' (lt_magazine_scan ls)
     \<circ> set_input ''lt_door_action'' (lt_door_action ls)) d"

definition fillLatencyForm :: "latency_settings \<Rightarrow> dom \<Rightarrow> dom" where
  "fillLatencyForm ls d = fillLatencyDurations ls (set_checked ''lt_enabled'' (lt_enabled ls) d)"

definition loadLatencySettings :: "(dom, unit) prog" where
  "loadLatencySettings =
     io_bind (api (get_req ''/api/v1/settings/latency''))
       (show_answer (\<lambda>a. case a of
          Some (PLatency settings defaults) \<Rightarrow> Some (\<lambda>d. fillLatencyForm settings (d\<lparr>latencyDefaults := Some defaults\<rparr>))
        | _ \<Rightarrow> None))"

definition latency_load_defaults :: "dom \<Rightarrow> dom" where
  "latency_load_defaults d = (case latencyDefaults d of None \<Rightarrow> d | Some ls \<Rightarrow> fillLatencyDurations ls d)"

definition latency_body :: "dom \<Rightarrow> json" where
  "latency_body d =
     JObj [(''enabled'', JBool (checked_of d ''lt_enabled'')), (''drive_load'', JStr (value_of d ''lt_drive_load'')),
       (''drive_unload'', JStr (value_of d ''lt_drive_unload'')), (''tape_positioning'', JStr (value_of d ''lt_tape_positioning'')),
       (''robot_move_tape'', JStr (value_of d ''lt_robot_move_tape'')), (''robot_move_scan'', JStr (value_of d ''lt_robot_move_scan'')),
       (''magazine_scan'', JStr (value_of d ''lt_magazine_scan'')), (''door_action'', JStr (value_of d ''lt_door_action''))]"

definition on_latency_submit :: "(dom, unit) prog" where
  "on_latency_submit = submit_form ''/api/v1/settings/latency'' latency_body ''latencySettingsError'' (LoadAdmin ''latency'')"

section \<open>Prometheus, telemetry, magazine PIN\<close>

definition loadPrometheusSettings :: "(dom, unit) prog" where
  "loadPrometheusSettings =
     io_bind (api (get_req ''/api/v1/settings/prometheus''))
       (show_answer (\<lambda>a. case a of
          Some (PPrometheus on path) \<Rightarrow>
            Some (set_checked ''prom_enabled'' on \<circ> set_text ''prom_metrics_path'' path \<circ>
                  set_text ''prom_status'' (if on then ''enabled'' else ''disabled''))
        | _ \<Rightarrow> None))"

definition on_prometheus_submit :: "(dom, unit) prog" where
  "on_prometheus_submit =
     submit_form ''/api/v1/settings/prometheus'' (\<lambda>d. JObj [(''enabled'', JBool (checked_of d ''prom_enabled''))])
       ''prometheusSettingsError'' (LoadAdmin ''prometheus'')"

definition goto :: "string \<Rightarrow> dom \<Rightarrow> dom" where
  "goto path d = d\<lparr>location := path\<rparr>"

definition download_grafana_click :: "dom \<Rightarrow> dom" where
  "download_grafana_click = goto ''/api/v1/prometheus/dashboard''"

definition loadTelemetrySettings :: "(dom, unit) prog" where
  "loadTelemetrySettings =
     io_bind (api (get_req ''/api/v1/settings/telemetry''))
       (show_answer (\<lambda>a. case a of
          Some (PTelemetry on endpoint payload) \<Rightarrow>
            Some (set_checked ''tel_enabled'' on \<circ> set_text ''tel_endpoint'' endpoint \<circ>
                  set_text ''tel_status'' (if on then ''enabled'' else ''disabled'') \<circ> set_text ''tel_preview'' (json_text 0 payload))
        | _ \<Rightarrow> None))"

definition on_telemetry_submit :: "(dom, unit) prog" where
  "on_telemetry_submit =
     submit_form ''/api/v1/settings/telemetry'' (\<lambda>d. JObj [(''enabled'', JBool (checked_of d ''tel_enabled''))])
       ''telemetrySettingsError'' (LoadAdmin ''telemetry'')"

definition loadSecuritySettings :: "(dom, unit) prog" where
  "loadSecuritySettings =
     io_bind (api (get_req ''/api/v1/settings/pin''))
       (show_answer (\<lambda>a. case a of
          Some (PPin configured) \<Rightarrow>
            Some (set_text ''magazinePinStatus'' (if configured then ''A magazine PIN is currently configured.''
                    else ''No magazine PIN is configured - every magazine opens with no prompt.'') \<circ>
                  set_value ''s_magazine_pin'' [])
        | _ \<Rightarrow> None))"

definition on_magazine_pin_submit :: "(dom, unit) prog" where
  "on_magazine_pin_submit =
     submit_form ''/api/v1/settings/pin'' (\<lambda>d. JObj [(''magazine_pin'', JStr (value_of d ''s_magazine_pin''))])
       ''magazinePinError'' (LoadAdmin ''security'')"

section \<open>Cleaning\<close>

definition fillCleaningTunables :: "cleaning_settings \<Rightarrow> dom \<Rightarrow> dom" where
  "fillCleaningTunables cs d =
     (set_input ''cl_max_uses'' (number_text (cl_max_uses cs))
     \<circ> set_input ''cl_mount_threshold'' (number_text (cl_mount_threshold cs))
     \<circ> set_input ''cl_duration'' (cl_duration cs)) d"

definition cleaning_modes :: "string list" where
  "cleaning_modes = [''backup_software'', ''backup_robot'']"

definition fillCleaningForm :: "cleaning_settings \<Rightarrow> dom \<Rightarrow> dom" where
  "fillCleaningForm cs d =
     fillCleaningTunables cs
       (set_select cleaning_modes ''cl_mode'' (or_else (cl_mode cs) ''backup_software'') (set_checked ''cl_enabled'' (cl_enabled cs) d))"

definition loadCleaningSettings :: "(dom, unit) prog" where
  "loadCleaningSettings =
     io_bind (api (get_req ''/api/v1/settings/cleaning''))
       (show_answer (\<lambda>a. case a of
          Some (PCleaning settings defaults) \<Rightarrow>
            Some (\<lambda>d. fillCleaningForm settings (d\<lparr>cleaningDefaults := Some defaults, cleaningCurrentSettings := Some settings\<rparr>))
        | _ \<Rightarrow> None))"

definition cleaning_load_defaults :: "dom \<Rightarrow> dom" where
  "cleaning_load_defaults d = (case cleaningDefaults d of None \<Rightarrow> d | Some cs \<Rightarrow> fillCleaningTunables cs d)"

definition cleaning_body :: "dom \<Rightarrow> json" where
  "cleaning_body d =
     JObj [(''enabled'', JBool (checked_of d ''cl_enabled'')), (''mode'', JStr (value_of d ''cl_mode'')),
       (''max_uses'', JNum (int_or_zero (value_of d ''cl_max_uses''))),
       (''mount_threshold'', JNum (int_or_zero (value_of d ''cl_mount_threshold''))),
       (''duration'', JStr (value_of d ''cl_duration''))]"

definition on_cleaning_submit :: "(dom, unit) prog" where
  "on_cleaning_submit = submit_form ''/api/v1/settings/cleaning'' cleaning_body ''cleaningSettingsError'' LoadCleaningSettings"

definition holds :: "string \<Rightarrow> volume option \<Rightarrow> bool" where
  "holds bc v = (case v of None \<Rightarrow> False | Some w \<Rightarrow> barcode w = bc)"

definition locateVolumeLabel :: "string \<Rightarrow> status \<Rightarrow> string" where
  "locateVolumeLabel bc st =
     (case js_find (\<lambda>s. holds bc (slot_volume s)) (or_nil (slots st)) of
        Some s \<Rightarrow> ''slot '' @ or_else (slot_label s) (show_int (slot_address s))
      | None \<Rightarrow>
      (case js_find (\<lambda>i. holds bc (io_volume i)) (or_nil (ioslots st)) of
        Some i \<Rightarrow> ''ioslot '' @ or_else (io_label i) (show_int (io_address i))
      | None \<Rightarrow>
      (case js_find (\<lambda>d. holds bc (drive_volume d)) (or_nil (drives st)) of
        Some d \<Rightarrow> ''drive '' @ show_int (drive_index d)
      | None \<Rightarrow>
         if list_ex (\<lambda>v. barcode v = bc) (or_nil (outside_volumes st)) then ''outside'' else ''unknown'')))"

definition cleaning_card :: "app \<Rightarrow> nat \<Rightarrow> status \<Rightarrow> volume \<Rightarrow> string \<times> string list" where
  "cleaning_card s max_uses st v =
     (cartridgeLabelHTML s (barcode v) [] None False None @
      ''<div>'' @ or_else (cleaning_state v) ''available'' @
        (if cleaning_state v = ''expired'' then '' <span class=\"full\">EXPIRED</span>'' else []) @ ''</div>'' @
      ''<div>Location: '' @ locateVolumeLabel (barcode v) st @ ''</div>'',
      (''card'' @ (if cleaning_state v = ''expired'' then '' empty'' else [])) #
        (case applyCleaningTooltip (Some v) max_uses of None \<Rightarrow> [] | Some t \<Rightarrow> [t]))"

definition current_max_uses :: "dom \<Rightarrow> nat" where
  "current_max_uses d = (case cleaningCurrentSettings d of None \<Rightarrow> 0 | Some cs \<Rightarrow> nat (cl_max_uses cs))"

definition show_cleaning_tapes :: "volume list \<Rightarrow> status \<Rightarrow> dom \<Rightarrow> dom" where
  "show_cleaning_tapes tapes st d =
     set_disabled ''newCleaningTapeBtn'' (5 \<le> length tapes)
       (set_rows ''cleaningTapesGrid'' (map (cleaning_card (dom_app d) (current_max_uses d) st) (sort_key barcode tapes)) d)"

definition loadCleaningTapes :: "(dom, unit) prog" where
  "loadCleaningTapes =
     io_bind (api_all [get_req ''/api/v1/cleaning/tapes'', get_req ''/api/v1/status'']) (\<lambda>as.
       case as ! 1 of
         Some (PStatus st) \<Rightarrow> update (show_cleaning_tapes (volumes_of (as ! 0)) st)
       | _ \<Rightarrow> io_throw ''TypeError'')"

definition loadCleaningAdmin :: "(dom, unit) prog" where
  "loadCleaningAdmin = io_seq loadCleaningSettings loadCleaningTapes"

definition new_cleaning_tape_click :: "('s, unit) prog" where
  "new_cleaning_tape_click =
     io_catch (io_seq (api (post_req ''/api/v1/cleaning/tapes'' (JObj []))) (start LoadCleaningTapes))
       (\<lambda>e. alert (''Error: '' @ e))"

section \<open>Backups\<close>

definition backup_row :: "(string \<Rightarrow> string) \<Rightarrow> backup_file \<Rightarrow> string \<times> string list" where
  "backup_row fmt f = (tds [bf_name f, fmtBytes (bf_size f), fmt (bf_created f)], [''Download'', ''Delete''])"

definition loadBackupsList :: "(string \<Rightarrow> string) \<Rightarrow> (dom, unit) prog" where
  "loadBackupsList fmt =
     io_bind (api (get_req ''/api/v1/backups''))
       (show_answer (\<lambda>a. case a of Some (PBackups fs) \<Rightarrow> Some (set_rows ''backupsTable'' (map (backup_row fmt) fs))
          | None \<Rightarrow> Some (set_rows ''backupsTable'' []) | _ \<Rightarrow> None))"

definition loadBackup :: "(string \<Rightarrow> string) \<Rightarrow> (dom, unit) prog" where
  "loadBackup fmt =
     io_seq (update (set_hidden ''backupAdminOnly'' False))
       (io_seq
         (io_bind (api (get_req ''/api/v1/backup/schedule''))
           (show_answer (\<lambda>a. case a of
              Some (PSchedule sc) \<Rightarrow>
                Some (set_input ''bk_interval'' (sc_interval sc) \<circ> set_value ''bk_retention'' (number_text (sc_retention sc)) \<circ>
                      set_text ''bk_last_run'' (if sc_last_run sc \<noteq> [] then ''Last scheduled backup: '' @ fmt (sc_last_run sc)
                        else ''No scheduled backup has run yet.''))
            | _ \<Rightarrow> None)))
         (loadBackupsList fmt))"

definition backup_path :: "backup_file \<Rightarrow> string \<Rightarrow> string" where
  "backup_path f rest = ''/api/v1/backups/'' @ encodeURIComponent (bf_name f) @ rest"

definition download_file_click :: "backup_file \<Rightarrow> dom \<Rightarrow> dom" where
  "download_file_click f = goto (backup_path f ''/download'')"

definition delete_backup_click :: "backup_file \<Rightarrow> ('s, unit) prog" where
  "delete_backup_click f =
     Confirm (''Delete backup '' @ bf_name f @ ''?'') (\<lambda>yes. if \<not> yes then Return ()
       else io_seq (api (delete_req (backup_path f []))) (start LoadBackupsList))"

definition download_backup_click :: "dom \<Rightarrow> dom" where
  "download_backup_click = goto ''/api/v1/backup/download''"

definition schedule_body :: "dom \<Rightarrow> json" where
  "schedule_body d = JObj [(''interval'', JStr (value_of d ''bk_interval'')),
     (''retention'', number_json (or_else (value_of d ''bk_retention'') ''0''))]"

definition on_schedule_submit :: "(dom, unit) prog" where
  "on_schedule_submit = submit_form ''/api/v1/backup/schedule'' schedule_body ''backupScheduleError'' (LoadAdmin ''backup'')"

section \<open>Saving what was loaded\<close>

definition bool_field :: "json \<Rightarrow> string \<Rightarrow> bool" where
  "bool_field j k = (case j of JObj kvs \<Rightarrow> (case map_of kvs k of Some (JBool b) \<Rightarrow> b | _ \<Rightarrow> False) | _ \<Rightarrow> False)"

definition read_latency :: "json \<Rightarrow> latency_settings" where
  "read_latency j = \<lparr>lt_enabled = bool_field j ''enabled'', lt_drive_load = str_field j ''drive_load'',
     lt_drive_unload = str_field j ''drive_unload'', lt_tape_positioning = str_field j ''tape_positioning'',
     lt_robot_move_tape = str_field j ''robot_move_tape'', lt_robot_move_scan = str_field j ''robot_move_scan'',
     lt_magazine_scan = str_field j ''magazine_scan'', lt_door_action = str_field j ''door_action''\<rparr>"

definition read_cleaning :: "json \<Rightarrow> cleaning_settings" where
  "read_cleaning j = \<lparr>cl_enabled = bool_field j ''enabled'', cl_mode = str_field j ''mode'', cl_max_uses = int_field j ''max_uses'',
     cl_mount_threshold = int_field j ''mount_threshold'', cl_duration = str_field j ''duration''\<rparr>"

lemmas read_defs = str_field_def int_field_def bool_field_def

definition latency_texts :: "latency_settings \<Rightarrow> string list" where
  "latency_texts ls = [lt_drive_load ls, lt_drive_unload ls, lt_tape_positioning ls, lt_robot_move_tape ls, lt_robot_move_scan ls,
     lt_magazine_scan ls, lt_door_action ls]"

lemma latency_resaved: "list_all one_line (latency_texts ls) \<Longrightarrow> read_latency (latency_body (fillLatencyForm ls d)) = ls"
  by (simp add: latency_texts_def read_latency_def latency_body_def fillLatencyForm_def fillLatencyDurations_def dom_defs read_defs)

lemma one_line_number_text [simp]: "one_line (number_text n)"
  by (simp add: number_text_def)

lemma int_or_zero_number_text [simp]: "int_or_zero (number_text n) = n"
proof (cases "n = 0")
  case True
  have "parse_int [] = None" by (simp add: parse_int_def strip_sign_def)
  with True show ?thesis by (simp add: int_or_zero_def number_text_def)
qed (simp add: int_or_zero_def number_text_def)

lemma cleaning_resaved:
  "cl_mode cs \<in> set cleaning_modes \<Longrightarrow> one_line (cl_duration cs) \<Longrightarrow> read_cleaning (cleaning_body (fillCleaningForm cs d)) = cs"
  by (auto simp: read_cleaning_def cleaning_body_def fillCleaningForm_def fillCleaningTunables_def dom_defs read_defs or_else_def
      cleaning_modes_def)

text \<open>A target the text form can hold.\<close>

definition clean_target :: "snmp_target \<Rightarrow> bool" where
  "clean_target t \<longleftrightarrow>
     CHR '':'' \<notin> set (tg_host t) \<and> CHR '':'' \<notin> set (tg_community t) \<and> newline \<notin> set (tg_host t) \<and>
     newline \<notin> set (tg_community t) \<and> tg_community t \<noteq> [] \<and> \<not> js_space (last (tg_community t)) \<and>
     (tg_host t \<noteq> [] \<longrightarrow> \<not> js_space (hd (tg_host t)))"

definition target_values :: "snmp_target \<Rightarrow> string \<times> json \<times> string" where
  "target_values t = (tg_host t, JNum (tg_port t), tg_community t)"

lemma newline_not_in_show_int: "newline \<notin> set (show_int i)"
proof -
  have "\<not> is_digit newline" by (simp add: newline_def is_digit_def)
  moreover have "newline \<noteq> CHR ''-''" by (simp add: newline_def)
  ultimately show ?thesis by (auto simp: show_int_def digit_not_in_show_nat)
qed

lemma trim_id:
  assumes "s \<noteq> []" "\<not> js_space (hd s)" "\<not> js_space (last s)"
  shows "trim s = s"
proof -
  have "dropWhile js_space s = s" using assms(1,2) by (cases s) auto
  moreover have "dropWhile js_space (rev s) = rev s" using assms(1,3) by (cases s rule: rev_cases) auto
  ultimately show ?thesis by (simp add: trim_def)
qed

lemma target_line_facts:
  assumes "clean_target t"
  shows "trim (target_line t) = target_line t" "target_line t \<noteq> []" "newline \<notin> set (target_line t)"
    "parse_target (target_line t) = target_values t"
proof -
  have colon: "\<not> js_space CHR '':''" "newline \<noteq> CHR '':''" by (simp_all add: js_space_def newline_def)
  show "trim (target_line t) = target_line t"
    using assms colon by (intro trim_id) (auto simp: target_line_def clean_target_def hd_append)
  show "target_line t \<noteq> []" by (simp add: target_line_def)
  show "newline \<notin> set (target_line t)"
    using assms colon newline_not_in_show_int by (auto simp: target_line_def clean_target_def)
  have "split_on CHR '':'' (target_line t) = [tg_host t, show_int (tg_port t), tg_community t]"
    using assms colon_not_in_show_int by (simp add: target_line_def clean_target_def split_on_sep split_on_absent)
  with assms show "parse_target (target_line t) = target_values t"
    by (simp add: parse_target_def target_values_def clean_target_def or_else_def)
qed

lemma targets_resaved:
  assumes "\<forall>t\<in>set ts. clean_target t"
  shows "parse_targets (targets_text ts) = map target_values ts"
proof (cases "ts = []")
  case True
  then show ?thesis by (simp add: parse_targets_def targets_text_def trim_def)
next
  case False
  have "split_on newline (targets_text ts) = map target_line ts"
    unfolding targets_text_def using False assms target_line_facts(3) by (intro split_on_join) auto
  moreover have "map trim (map target_line ts) = map target_line ts"
    using assms target_line_facts(1) by (simp cong: map_cong)
  moreover have "filter (\<lambda>l. l \<noteq> []) (map target_line ts) = map target_line ts"
    using target_line_facts(2) assms by (auto simp: filter_id_conv)
  ultimately have "parse_targets (targets_text ts) = map parse_target (map target_line ts)"
    by (simp only: parse_targets_def)
  with assms target_line_facts(4) show ?thesis by simp
qed

lemma split_first: "hd (split_on c s) = takeWhile (\<lambda>x. x \<noteq> c) s"
  by (induction s) (auto split: list.split)

lemma colon_host_lost:
  assumes "CHR '':'' \<in> set (tg_host t)"
  shows "fst (parse_target (target_line t)) \<noteq> tg_host t"
proof -
  have "CHR '':'' \<notin> set (hd (split_on CHR '':'' (target_line t)))"
    unfolding split_first by (auto dest: set_takeWhileD)
  moreover have "fst (parse_target (target_line t)) = hd (split_on CHR '':'' (target_line t))"
    by (simp add: parse_target_def Let_def hd_conv_nth)
  ultimately show ?thesis using assms by metis
qed

section \<open>The server's update\<close>

text \<open>
  \<open>Update\<close> (internal/api/settings.go): a field of the body replaces the setting, an absent or null one leaves it. What can
  refuse the body as a whole (a size, a duration or a log level that does not parse) is not modelled.
\<close>

definition json_field :: "json \<Rightarrow> string \<Rightarrow> json option" where
  "json_field j k = (case j of JObj kvs \<Rightarrow> (case map_of kvs k of Some v \<Rightarrow> if v = JNull then None else Some v | None \<Rightarrow> None) | _ \<Rightarrow> None)"

definition new_text :: "json \<Rightarrow> string \<Rightarrow> string \<Rightarrow> string" where
  "new_text j k old = (case json_field j k of Some (JStr s) \<Rightarrow> s | _ \<Rightarrow> old)"

definition new_flag :: "json \<Rightarrow> string \<Rightarrow> bool \<Rightarrow> bool" where
  "new_flag j k old = (case json_field j k of Some (JBool b) \<Rightarrow> b | _ \<Rightarrow> old)"

definition new_int :: "json \<Rightarrow> string \<Rightarrow> int \<Rightarrow> int" where
  "new_int j k old = (case json_field j k of Some (JNum i) \<Rightarrow> i | _ \<Rightarrow> old)"

definition read_target :: "json \<Rightarrow> snmp_target" where
  "read_target j = \<lparr>tg_host = str_field j ''host'', tg_port = int_field j ''port'', tg_community = str_field j ''community'',
     tg_version = str_field j ''version''\<rparr>"

definition settings_update :: "json \<Rightarrow> daemon_config \<Rightarrow> daemon_config" where
  "settings_update j c =
     c\<lparr>cfg_default_capacity := new_text j ''default_capacity'' (cfg_default_capacity c),
       cfg_poll_interval := new_text j ''poll_interval'' (cfg_poll_interval c),
       cfg_log_level := new_text j ''log_level'' (cfg_log_level c),
       cfg_snmp_enabled := new_flag j ''snmp_enabled'' (cfg_snmp_enabled c),
       cfg_enterprise_oid := new_text j ''snmp_enterprise_oid'' (cfg_enterprise_oid c),
       cfg_agent_address := new_text j ''snmp_agent_address'' (cfg_agent_address c),
       cfg_targets := (case json_field j ''snmp_targets'' of Some (JArr ts) \<Rightarrow> Some (map read_target ts) | _ \<Rightarrow> cfg_targets c),
       cfg_offsite_location := new_flag j ''offsite_location'' (cfg_offsite_location c),
       cfg_rotation_interval := new_text j ''offsite_rotation_interval'' (cfg_rotation_interval c),
       cfg_rotation_count := new_int j ''offsite_rotation_count'' (cfg_rotation_count c)\<rparr>"

definition settings_texts :: "daemon_config \<Rightarrow> string list" where
  "settings_texts c = [cfg_default_capacity c, cfg_poll_interval c, cfg_enterprise_oid c, cfg_agent_address c, cfg_rotation_interval c]"

text \<open>Every setting of the form, from the configuration it was filled with.\<close>

definition form_settings :: "daemon_config \<Rightarrow> daemon_config \<Rightarrow> daemon_config" where
  "form_settings cfg c =
     c\<lparr>cfg_default_capacity := cfg_default_capacity cfg, cfg_poll_interval := cfg_poll_interval cfg,
       cfg_log_level := or_else (cfg_log_level cfg) ''info'', cfg_snmp_enabled := cfg_snmp_enabled cfg,
       cfg_enterprise_oid := cfg_enterprise_oid cfg, cfg_agent_address := cfg_agent_address cfg,
       cfg_targets := Some (map (\<lambda>t. t\<lparr>tg_version := ''2c''\<rparr>) (or_nil (cfg_targets cfg))),
       cfg_offsite_location := cfg_offsite_location cfg, cfg_rotation_interval := cfg_rotation_interval cfg,
       cfg_rotation_count := cfg_rotation_count cfg\<rparr>"

lemma number_json_number_text: "number_json (or_else (number_text n) ''0'') = JNum n"
proof (cases "n = 0")
  case True
  have "number_json ''0'' = JNum 0" by code_simp
  with True show ?thesis by (simp add: number_text_def)
qed (simp add: number_text_def or_else_def)

lemma read_target_values: "read_target (target_json (target_values t)) = t\<lparr>tg_version := ''2c''\<rparr>"
  by (simp add: read_target_def target_json_def target_values_def str_field_def int_field_def)

lemma settings_resaved:
  assumes "list_all one_line (settings_texts cfg)" "cfg_log_level cfg \<in> insert [] (set log_levels)"
    and "\<forall>t\<in>set (or_nil (cfg_targets cfg)). clean_target t"
  shows "settings_update (settings_body (fill_settings cfg restart d)) c = form_settings cfg c"
proof -
  let ?d = "fill_settings cfg restart d"
  have texts: "value_of ?d ''s_default_capacity'' = cfg_default_capacity cfg" "value_of ?d ''s_poll_interval'' = cfg_poll_interval cfg"
    "value_of ?d ''s_snmp_oid'' = cfg_enterprise_oid cfg" "value_of ?d ''s_snmp_agent'' = cfg_agent_address cfg"
    "value_of ?d ''s_offsite_rotation_interval'' = cfg_rotation_interval cfg"
    "value_of ?d ''s_offsite_rotation_count'' = number_text (cfg_rotation_count cfg)"
    "value_of ?d ''s_snmp_targets'' = targets_text (or_nil (cfg_targets cfg))"
    using assms(1) by (simp_all add: fill_settings_def dom_defs settings_texts_def)
  have level: "value_of ?d ''s_log_level'' = or_else (cfg_log_level cfg) ''info''"
    using assms(2) by (auto simp: fill_settings_def dom_defs or_else_def log_levels_def)
  have flags: "checked_of ?d ''s_snmp_enabled'' = cfg_snmp_enabled cfg" "checked_of ?d ''s_offsite_location'' = cfg_offsite_location cfg"
    by (simp_all add: fill_settings_def dom_defs)
  have targets: "map (read_target \<circ> target_json) (map target_values ts) = map (\<lambda>t. t\<lparr>tg_version := ''2c''\<rparr>) ts" for ts
    by (simp add: read_target_values)
  show ?thesis
    using targets targets_resaved [OF assms(3)]
    by (simp add: settings_update_def settings_body_def form_settings_def texts level flags json_field_def new_text_def new_flag_def
        new_int_def number_json_number_text)
qed

lemma unknown_level_lost:
  assumes "cfg_log_level cfg \<notin> insert [] (set log_levels)"
  shows "cfg_log_level (settings_update (settings_body (fill_settings cfg restart d)) c) = []"
proof -
  have "value_of (fill_settings cfg restart d) ''s_log_level'' = []"
    using assms by (simp add: fill_settings_def dom_defs or_else_def)
  then show ?thesis by (simp add: settings_update_def settings_body_def json_field_def new_text_def)
qed

section \<open>Properties\<close>

text \<open>
  C32: Saving a settings page without touching it keeps the settings: the latency page in every field, the cleaning
  page when its mode is one of the two, and the general settings in every field when the SNMP targets' texts fit the
  one-line form (texts without line breaks): the server's update gives the settings the page was filled with, an empty log
  level becoming info and every target's version 2c. A target whose host has a colon (an IPv6 address) does not survive:
  saving the page again always changes it. Nor does a log level the list does not offer, such as the "warning" the
  server accepts: it is saved as the empty text.
\<close>

theorem resaving_settings_changes_nothing:
  "(list_all one_line (latency_texts ls) \<longrightarrow> read_latency (latency_body (fillLatencyForm ls d)) = ls) \<and>
   (cl_mode cs \<in> set cleaning_modes \<and> one_line (cl_duration cs) \<longrightarrow> read_cleaning (cleaning_body (fillCleaningForm cs d)) = cs) \<and>
   (list_all one_line (settings_texts cfg) \<and> cfg_log_level cfg \<in> insert [] (set log_levels) \<and>
      (\<forall>t\<in>set (or_nil (cfg_targets cfg)). clean_target t) \<longrightarrow>
      settings_update (settings_body (fill_settings cfg restart d)) c = form_settings cfg c) \<and>
   (CHR '':'' \<in> set (tg_host t) \<longrightarrow> parse_target (target_line t) \<noteq> target_values t) \<and>
   (cfg_log_level cfg \<notin> insert [] (set log_levels) \<longrightarrow>
      cfg_log_level (settings_update (settings_body (fill_settings cfg restart d)) c) = [])"
proof -
  have "parse_target (target_line t) \<noteq> target_values t" if "CHR '':'' \<in> set (tg_host t)"
    using colon_host_lost [OF that] by (metis fst_conv target_values_def)
  then show ?thesis using latency_resaved cleaning_resaved settings_resaved unknown_level_lost by meson
qed

definition sample_config :: daemon_config where
  "sample_config = \<lparr>cfg_default_capacity = ''10GiB'', cfg_poll_interval = ''5s'', cfg_log_level = ''warn'', cfg_snmp_enabled = True,
    cfg_enterprise_oid = ''1.3.6'', cfg_agent_address = ''127.0.0.1'',
    cfg_targets = Some [\<lparr>tg_host = ''nms'', tg_port = 162, tg_community = ''public'', tg_version = ''2c''\<rparr>],
    cfg_offsite_location = False, cfg_rotation_interval = [], cfg_rotation_count = 3, cfg_json = JNull\<rparr>"

theorem resaving_settings_changes_nothing_witness:
  "settings_update (settings_body (fill_settings sample_config None undefined)) sample_config = sample_config \<and>
   parse_target (target_line \<lparr>tg_host = ''::1'', tg_port = 162, tg_community = ''public'', tg_version = ''2c''\<rparr>) \<noteq>
     (''::1'', JNum 162, ''public'')"
proof -
  let ?v6 = "\<lparr>tg_host = ''::1'', tg_port = 162, tg_community = ''public'', tg_version = ''2c''\<rparr>"
  have clean: "\<forall>t\<in>set (or_nil (cfg_targets sample_config)). clean_target t"
    by (simp add: sample_config_def clean_target_def newline_def js_space_def)
  have texts: "list_all one_line (settings_texts sample_config)"
    by (simp add: sample_config_def settings_texts_def one_line_def line_break_def)
  have level: "cfg_log_level sample_config = ''warn''" by (simp add: sample_config_def)
  have same: "form_settings sample_config sample_config = sample_config"
    by (simp add: form_settings_def sample_config_def or_else_def)
  from resaving_settings_changes_nothing [where cfg = sample_config and c = sample_config and restart = None and d = undefined and t = ?v6]
  show ?thesis using clean texts level same by (simp add: target_values_def log_levels_def)
qed

end
