(* ===== verification/Service_Restart.thy ===== *)
theory Service_Restart
  imports Admin_Settings
begin

text \<open>
  Restore and reset, which end the daemon's process so that it starts again: app.js \<open>waitForServiceRestart\<close>,
  \<open>submitRestore\<close>, \<open>submitReset\<close>, the forms that call them and \<open>loadReset\<close>. The elements a caller passes are named
  by their ids. The pause of a second before each poll is left out: the rest of the page may change the state at
  each request anyway. \<open>setTimeout(boot, 500)\<close> starts \<open>boot\<close>.
\<close>

section \<open>Polling\<close>

text \<open>The loop with \<open>k\<close> attempts to go.\<close>

primrec poll :: "nat \<Rightarrow> ('s, bool) prog" where
  "poll 0 = Return False"
| "poll (Suc k) =
     Fetch (get_req ''/api/v1/auth/state'') (\<lambda>r. case r of
         NetworkError e \<Rightarrow> poll k
       | Answered code txt body \<Rightarrow> if http_ok code then Return True else poll k)"

definition maxAttempts :: nat where
  "maxAttempts = 40"

definition waitForServiceRestart :: "('s, bool) prog" where
  "waitForServiceRestart = poll maxAttempts"

section \<open>Restore\<close>

definition timed_out :: string where
  "timed_out = ''Timed out waiting for the service to come back. Reload the page manually once it's back up.''"

definition when_back :: "string \<Rightarrow> string \<Rightarrow> (dom, unit) prog" where
  "when_back status_el msg =
     io_bind waitForServiceRestart (\<lambda>is_back.
       if is_back then io_seq (update (set_text status_el msg)) (start Boot)
       else update (set_text status_el timed_out))"

text \<open>Reading the chosen file fails with a message, or gives its bytes, which are the body of the request.\<close>

definition restore_request :: "string \<Rightarrow> request" where
  "restore_request bytes = post_req ''/api/v1/restore'' (JStr bytes)"

definition restore_accepted :: string where
  "restore_accepted = ''Restore accepted. The service is restarting - waiting for it to come back (this can take a few seconds)...''"

definition refused :: "string \<Rightarrow> string \<Rightarrow> string \<Rightarrow> (dom, bool) prog" where
  "refused status_el error_el msg =
     io_seq (update (set_text status_el [] \<circ> set_text error_el msg)) (Return False)"

definition upload :: "string + string \<Rightarrow> (dom, bool) prog" where
  "upload file = (case file of Inl e \<Rightarrow> io_throw e | Inr bytes \<Rightarrow> io_seq (api (restore_request bytes)) (Return True))"

definition submitRestore :: "string + string \<Rightarrow> string \<Rightarrow> string \<Rightarrow> (dom, unit) prog" where
  "submitRestore file status_el error_el =
     io_seq (update (set_text status_el ''Uploading backup...'' \<circ> set_text error_el []))
       (io_bind (io_catch (upload file) (refused status_el error_el)) (\<lambda>ok.
          if \<not> ok then Return ()
          else io_seq (update (set_text status_el restore_accepted))
            (when_back status_el ''Service is back. You will need to sign in again - reloading...'')))"

definition restore_warning :: string where
  "restore_warning = ''This replaces the entire database and restarts the service. Continue?''"

text \<open>The restore form of the Admin page and the restore button of wizard step 1; None when no file is chosen.\<close>

definition restore_click :: "(string + string) option \<Rightarrow> string \<Rightarrow> string \<Rightarrow> (dom, unit) prog" where
  "restore_click file status_el error_el =
     (case file of
        None \<Rightarrow> update (set_text error_el ''Choose a backup file first.'')
      | Some f \<Rightarrow> Confirm restore_warning (\<lambda>yes. if \<not> yes then Return () else submitRestore f status_el error_el))"

definition on_restore_submit :: "(string + string) option \<Rightarrow> (dom, unit) prog" where
  "on_restore_submit file = restore_click file ''restoreStatus'' ''restoreError''"

definition on_wizard_restore :: "(string + string) option \<Rightarrow> (dom, unit) prog" where
  "on_wizard_restore file = restore_click file ''wizardRestoreStatus'' ''wizardRestoreError''"

section \<open>Reset\<close>

definition updateResetSubmitEnabled :: "dom \<Rightarrow> dom" where
  "updateResetSubmitEnabled d = set_disabled ''resetSubmitBtn'' (value_of d ''resetConfirmName'' \<noteq> resetExpectedName d) d"

definition clear_reset_form :: "dom \<Rightarrow> dom" where
  "clear_reset_form =
     set_checked ''resetDeleteVolumes'' False \<circ> set_value ''resetConfirmName'' [] \<circ> set_text ''resetError'' [] \<circ>
     set_text ''resetStatus'' []"

definition expect_name :: "payload option \<Rightarrow> dom \<Rightarrow> dom" where
  "expect_name a d =
     (let n = or_else (case a of Some (PStatus st) \<Rightarrow> st_name st | _ \<Rightarrow> []) ''RESET''
      in updateResetSubmitEnabled (set_text ''resetExpectedName'' n (d\<lparr>resetExpectedName := n\<rparr>)))"

definition loadReset :: "(dom, unit) prog" where
  "loadReset = io_seq (update clear_reset_form) (io_bind (api (get_req ''/api/v1/status'')) (\<lambda>a. update (expect_name a)))"

definition reset_request :: "string \<Rightarrow> bool \<Rightarrow> request" where
  "reset_request confirm_name delete_volumes =
     post_req ''/api/v1/reset'' (JObj [(''confirm_name'', JStr confirm_name), (''delete_volumes'', JBool delete_volumes)])"

definition reset_accepted :: string where
  "reset_accepted = ''Reset accepted. The service is restarting - waiting for it to come back (this can take a few seconds)...''"

definition submitReset :: "string \<Rightarrow> bool \<Rightarrow> string \<Rightarrow> string \<Rightarrow> (dom, unit) prog" where
  "submitReset confirm_name delete_volumes status_el error_el =
     io_seq (update (set_text status_el ''Resetting...'' \<circ> set_text error_el []))
       (io_bind (io_catch (io_seq (api (reset_request confirm_name delete_volumes)) (Return True)) (refused status_el error_el)) (\<lambda>ok.
          if \<not> ok then Return ()
          else io_seq (update (set_text status_el reset_accepted)) (when_back status_el ''Service is back. Reloading...'')))"

definition reset_warning :: "bool \<Rightarrow> string" where
  "reset_warning delete_volumes =
     (if delete_volumes then
        ''This permanently deletes the entire VTL, all users/API tokens, AND every cartridge file on disk. This cannot be undone except from the automatic safety backup. Continue?''
      else ''This permanently deletes the entire VTL and all users/API tokens, and restarts the service. Continue?'')"

definition on_reset_submit :: "(dom, unit) prog" where
  "on_reset_submit =
     Get (\<lambda>d.
       let confirm_name = value_of d ''resetConfirmName''; delete_volumes = checked_of d ''resetDeleteVolumes'' in
       if confirm_name \<noteq> resetExpectedName d then update (set_text ''resetError'' ''Typed name does not match.'')
       else Confirm (reset_warning delete_volumes) (\<lambda>yes. if \<not> yes then Return ()
         else submitReset confirm_name delete_volumes ''resetStatus'' ''resetError''))"

section \<open>Runs\<close>

text \<open>What a run of the loop has seen: failures only, up to a last success or to the last attempt.\<close>

lemma poll_run:
  assumes "exec R (poll k) s tr ts s' r"
  shows "\<exists>b. r = Done b \<and> ts = [] \<and> requests tr = replicate (length (answers tr)) (get_req ''/api/v1/auth/state'') \<and>
     length (answers tr) \<le> k \<and>
     (if b then \<exists>as a. answers tr = as @ [a] \<and> ok_answer a \<and> (\<forall>x\<in>set as. \<not> ok_answer x)
      else length (answers tr) = k \<and> (\<forall>x\<in>set (answers tr). \<not> ok_answer x))"
  using assms
proof (induction k arbitrary: s tr)
  case 0
  then show ?case by (auto intro!: exI [of _ False])
next
  case (Suc k)
  then obtain a s1 tr1 where tr: "tr = SFetch (get_req ''/api/v1/auth/state'') a # tr1" and
    run: "exec R (case a of NetworkError e \<Rightarrow> poll k
       | Answered code txt body \<Rightarrow> if http_ok code then Return True else poll k) s1 tr1 ts s' r" by auto
  show ?case
  proof (cases "ok_answer a")
    case True
    then have "tr1 = []" "ts = []" "r = Done True" using run by (auto simp: ok_answer_def split: response.splits)
    with True tr show ?thesis by (intro exI [of _ True]) simp
  next
    case False
    then have "exec R (poll k) s1 tr1 ts s' r" using run by (auto simp: ok_answer_def split: response.splits)
    from Suc.IH [OF this] obtain b where b: "r = Done b" "ts = []"
      "requests tr1 = replicate (length (answers tr1)) (get_req ''/api/v1/auth/state'')" "length (answers tr1) \<le> k"
      "if b then \<exists>as a. answers tr1 = as @ [a] \<and> ok_answer a \<and> (\<forall>x\<in>set as. \<not> ok_answer x)
       else length (answers tr1) = k \<and> (\<forall>x\<in>set (answers tr1). \<not> ok_answer x)" by blast
    show ?thesis
    proof (cases b)
      case True
      with b(5) obtain as z where "answers tr1 = as @ [z]" "ok_answer z" "\<forall>x\<in>set as. \<not> ok_answer x" by auto
      with b(1-4) True False tr show ?thesis
        by (intro exI [of _ True]) (auto intro!: exI [of _ "a # as"])
    next
      case False
      with b \<open>\<not> ok_answer a\<close> tr show ?thesis by (intro exI [of _ False]) simp
    qed
  qed
qed

text \<open>The loop runs to its end on every sequence of answers.\<close>

lemma poll_ends:
  "\<exists>n\<le>k. \<exists>b. exec (=) (poll k) s (map (\<lambda>i. SFetch (get_req ''/api/v1/auth/state'') (f i)) [0..<n]) [] s (Done b)"
proof (induction k arbitrary: f)
  case (Suc k)
  let ?q = "get_req ''/api/v1/auth/state''"
  show ?case
  proof (cases "ok_answer (f 0)")
    case True
    then have "exec (=) (poll (Suc k)) s [SFetch ?q (f 0)] [] s (Done True)"
      by (auto simp: ok_answer_def split: response.splits)
    then show ?thesis by (intro exI [of _ 1] conjI exI [of _ True]) simp_all
  next
    case False
    from Suc.IH [of "\<lambda>i. f (Suc i)"] obtain n b where n: "n \<le> k"
      "exec (=) (poll k) s (map (\<lambda>i. SFetch ?q (f (Suc i))) [0..<n]) [] s (Done b)" by blast
    have "map (\<lambda>i. SFetch ?q (f i)) [0..<Suc n] = SFetch ?q (f 0) # map (\<lambda>i. SFetch ?q (f (Suc i))) [0..<n]"
      by (simp only: map_upt_Suc)
    moreover have "exec (=) (poll (Suc k)) s (SFetch ?q (f 0) # map (\<lambda>i. SFetch ?q (f (Suc i))) [0..<n]) [] s (Done b)"
      using False n(2) by (auto simp: ok_answer_def split: response.splits)
    ultimately show ?thesis using n(1) by (intro exI [of _ "Suc n"] conjI exI [of _ b]) simp_all
  qed
qed auto

lemma answers_polls: "answers (map (\<lambda>i. SFetch q (f i)) [0..<n]) = map f [0..<n]"
  by (induction n) simp_all

text \<open>Both submissions: a request, and the wait when it is accepted.\<close>

definition restart_after :: "request \<Rightarrow> (dom \<Rightarrow> dom) \<Rightarrow> (dom \<Rightarrow> dom) \<Rightarrow> string \<Rightarrow> string \<Rightarrow> string \<Rightarrow> (dom, unit) prog" where
  "restart_after q begin_text accepted_text status_el error_el msg =
     io_seq (update begin_text)
       (io_bind (io_catch (io_seq (api q) (Return True)) (refused status_el error_el)) (\<lambda>ok.
          if \<not> ok then Return () else io_seq (update accepted_text) (when_back status_el msg)))"

lemma submits_restart:
  "\<exists>g h msg. submitRestore (Inr bytes) se ee = restart_after (restore_request bytes) g h se ee msg"
  "\<exists>g h msg. submitReset n v se ee = restart_after (reset_request n v) g h se ee msg"
  unfolding submitRestore_def submitReset_def restart_after_def upload_def sum.case by blast+

lemma ok_answer_facts:
  assumes "ok_answer a"
  shows "answer_starts a = []" "\<exists>b. answer_outcome a = Done b"
  using assms by (cases a; auto simp: ok_answer_def http_ok_def)+

text \<open>A run whose request is accepted and that then sees one good answer among the next forty.\<close>

lemma exec_when_back:
  "exec R (when_back se msg) s tr ts s' r \<longleftrightarrow>
     (\<exists>b s1. exec R waitForServiceRestart s tr [] s1 (Done b) \<and> r = Done () \<and> ts = (if b then [Boot] else []) \<and>
        s' = set_text se (if b then msg else timed_out) s1)"
proof -
  have done_empty: "\<exists>b. r' = Done b \<and> ts' = []" if "exec R waitForServiceRestart s tr' ts' s1 r'" for tr' ts' s1 r'
    using poll_run [OF that [unfolded waitForServiceRestart_def]] by blast
  show ?thesis
  proof
    assume "exec R (when_back se msg) s tr ts s' r"
    then show "\<exists>b s1. exec R waitForServiceRestart s tr [] s1 (Done b) \<and> r = Done () \<and> ts = (if b then [Boot] else []) \<and>
        s' = set_text se (if b then msg else timed_out) s1"
      unfolding when_back_def exec_bind
    proof (elim disjE exE conjE)
      fix b s1 tr1 tr2 ts1 ts2
      assume "exec R waitForServiceRestart s tr1 ts1 s1 (Done b)"
        "exec R (if b then io_seq (update (set_text se msg)) (start Boot)
           else update (set_text se timed_out))
           s1 tr2 ts2 s' r" "tr = tr1 @ tr2" "ts = ts1 @ ts2"
      with done_empty show ?thesis
        by (intro exI [of _ b] exI [of _ s1]) (cases b; fastforce simp: io_seq_def exec_bind)
    qed (use done_empty in blast)
  next
    assume "\<exists>b s1. exec R waitForServiceRestart s tr [] s1 (Done b) \<and> r = Done () \<and> ts = (if b then [Boot] else []) \<and>
        s' = set_text se (if b then msg else timed_out) s1"
    then obtain b s1 where *: "exec R waitForServiceRestart s tr [] s1 (Done b)" "r = Done ()" "ts = (if b then [Boot] else [])"
      "s' = set_text se (if b then msg else timed_out) s1" by blast
    have "exec R (if b then io_seq (update (set_text se msg)) (start Boot)
           else update (set_text se timed_out))
           s1 [] ts s' r" using *(2-4) by (simp add: io_seq_def exec_bind)
    from exec_bindI [where k = "\<lambda>b. if b then io_seq (update (set_text se msg)) (start Boot)
           else update (set_text se timed_out)",
        OF *(1) this]
    show "exec R (when_back se msg) s tr ts s' r" by (simp add: when_back_def)
  qed
qed

lemma exec_refused:
  "exec R (io_catch (io_bind (api_answer a) (\<lambda>_. Return True)) (refused se ee)) s tr ts s' r \<longleftrightarrow>
     tr = [] \<and>
     (if ok_answer a then ts = [] \<and> s' = s \<and> r = Done True
      else ts = answer_starts a \<and> r = Done False \<and> (\<exists>e. answer_outcome a = Failed e \<and> s' = set_text se [] (set_text ee e s)))"
  by (cases a) (auto simp: api_answer_def ok_answer_def refused_def io_seq_def update_def http_ok_def)

lemma exec_restart_after:
  "exec R (restart_after q g h se ee msg) s tr ts s' r \<longleftrightarrow>
     (\<exists>a s1 tr2. R (g s) s1 \<and> tr = SFetch q a # tr2 \<and>
        (if ok_answer a then exec R (when_back se msg) (h s1) tr2 ts s' r
         else tr2 = [] \<and> ts = answer_starts a \<and> r = Done () \<and>
           (\<exists>e. answer_outcome a = Failed e \<and> s' = set_text se [] (set_text ee e s1))))"
proof -
  have eq: "restart_after q g h se ee msg = Get (\<lambda>s. Set_State (g s) (Fetch q (\<lambda>a.
     io_bind (io_catch (io_bind (api_answer a) (\<lambda>_. Return True)) (refused se ee)) (\<lambda>ok.
          if \<not> ok then Return () else io_seq (update h) (when_back se msg)))))"
    by (simp add: restart_after_def io_seq_def update_def api_def)
  have step: "exec R (io_bind (io_catch (io_bind (api_answer a) (\<lambda>_. Return True)) (refused se ee)) (\<lambda>ok.
          if \<not> ok then Return () else io_seq (update h) (when_back se msg))) s1 tr2 ts s' r \<longleftrightarrow>
       (if ok_answer a then exec R (when_back se msg) (h s1) tr2 ts s' r
         else tr2 = [] \<and> ts = answer_starts a \<and> r = Done () \<and>
           (\<exists>e. answer_outcome a = Failed e \<and> s' = set_text se [] (set_text ee e s1)))" for a s1 tr2
  proof (cases "ok_answer a")
    case True
    then have "\<And>tr ts s' r. exec R (io_catch (io_bind (api_answer a) (\<lambda>_. Return True)) (refused se ee)) s1 tr ts s' r \<longleftrightarrow>
       tr = [] \<and> ts = [] \<and> s' = s1 \<and> r = Done True" by (auto simp: exec_refused)
    moreover have "exec R (io_seq (update h) (when_back se msg)) s1 tr2 ts s' r \<longleftrightarrow> exec R (when_back se msg) (h s1) tr2 ts s' r"
      by (simp add: io_seq_def update_def)
    ultimately show ?thesis using True unfolding exec_bind by auto
  next
    case False
    then have "\<And>tr ts s' r. exec R (io_catch (io_bind (api_answer a) (\<lambda>_. Return True)) (refused se ee)) s1 tr ts s' r \<longleftrightarrow>
       tr = [] \<and> ts = answer_starts a \<and> r = Done False \<and> (\<exists>e. answer_outcome a = Failed e \<and> s' = set_text se [] (set_text ee e s1))"
      by (simp add: exec_refused)
    with False show ?thesis unfolding exec_bind by auto
  qed
  show ?thesis unfolding eq exec_simps step by auto
qed

lemma restart_requests:
  assumes "exec R (restart_after q g h se ee msg) s tr ts s' r"
  shows "\<exists>a tr2. tr = SFetch q a # tr2 \<and> (\<forall>p\<in>set (requests tr2). req_method p = ''GET'')"
proof -
  from assms obtain a s1 tr2 where tr: "tr = SFetch q a # tr2" and
    rest: "tr2 = [] \<or> exec R (when_back se msg) (h s1) tr2 ts s' r"
    by (auto simp: exec_restart_after split: if_splits)
  have "\<forall>p\<in>set (requests tr2). req_method p = ''GET''" if "exec R (when_back se msg) (h s1) tr2 ts s' r"
  proof -
    from that obtain b s2 where "exec R (poll maxAttempts) (h s1) tr2 [] s2 (Done b)"
      by (auto simp: exec_when_back waitForServiceRestart_def)
    from poll_run [OF this] have "requests tr2 = replicate (length (answers tr2)) (get_req ''/api/v1/auth/state'')" by blast
    then show ?thesis by (metis get_req_def in_set_replicate request.select_convs(1))
  qed
  with rest tr show ?thesis by auto
qed

lemma restart_boots:
  assumes "ok_answer (f 0)" "1 \<le> i" "i \<le> 40" "ok_answer (f i)"
  shows "\<exists>tr s'. exec (=) (restart_after q g h se ee msg) s tr [Boot] s' (Done ()) \<and> answers tr = map f [0..<length (answers tr)]"
    and "exec R (restart_after q g h se ee msg) s tr ts s' r \<Longrightarrow> answers tr = map f [0..<length (answers tr)] \<Longrightarrow>
      ts = [Boot] \<and> r = Done ()"
proof -
  note a = ok_answer_facts [OF assms(1)]
  obtain n b where run: "n \<le> 40"
    "exec (=) waitForServiceRestart (h (g s)) (map (\<lambda>j. SFetch (get_req ''/api/v1/auth/state'') (f (Suc j))) [0..<n]) [] (h (g s)) (Done b)"
    using poll_ends [of maxAttempts "h (g s)" "\<lambda>j. f (Suc j)"] by (auto simp: waitForServiceRestart_def maxAttempts_def)
  have b
    using poll_run [OF run(2) [unfolded waitForServiceRestart_def]] assms(2-4)
    by (auto simp: answers_polls maxAttempts_def split: if_splits dest!: spec [of _ "i - 1"] bspec [of _ _ "i - 1"])
  from run(2) \<open>b\<close> have "exec (=) (when_back se msg) (h (g s))
     (map (\<lambda>j. SFetch (get_req ''/api/v1/auth/state'') (f (Suc j))) [0..<n]) [Boot] (set_text se msg (h (g s))) (Done ())"
    by (auto simp: exec_when_back intro!: exI [of _ True])
  with assms(1) have "exec (=) (restart_after q g h se ee msg) s
     (SFetch q (f 0) # map (\<lambda>j. SFetch (get_req ''/api/v1/auth/state'') (f (Suc j))) [0..<n]) [Boot] (set_text se msg (h (g s))) (Done ())"
    by (simp add: exec_restart_after)
  then show "\<exists>tr s'. exec (=) (restart_after q g h se ee msg) s tr [Boot] s' (Done ()) \<and> answers tr = map f [0..<length (answers tr)]"
    by (intro exI conjI, assumption) (simp add: answers_polls map_upt_Suc del: upt_Suc)
  show "ts = [Boot] \<and> r = Done ()" if run: "exec R (restart_after q g h se ee msg) s tr ts s' r"
    and seen: "answers tr = map f [0..<length (answers tr)]"
  proof -
    from run obtain a s1 tr2 where tr: "tr = SFetch q a # tr2" and rest:
      "if ok_answer a then exec R (when_back se msg) (h s1) tr2 ts s' r
       else tr2 = [] \<and> ts = answer_starts a \<and> r = Done () \<and>
         (\<exists>e. answer_outcome a = Failed e \<and> s' = set_text se [] (set_text ee e s1))"
      by (auto simp: exec_restart_after)
    from seen tr have "a # answers tr2 = map f [0..<Suc (length (answers tr2))]" by simp
    then have a: "a = f 0" and later: "answers tr2 = map (\<lambda>j. f (Suc j)) [0..<length (answers tr2)]"
      by (simp_all add: map_upt_Suc del: upt_Suc)
    from rest a assms(1) obtain b s2 where b: "exec R (poll maxAttempts) (h s1) tr2 [] s2 (Done b)" "r = Done ()"
      "ts = (if b then [Boot] else [])"
      by (auto simp: exec_when_back waitForServiceRestart_def)
    have b
    proof (rule ccontr)
      assume "\<not> b"
      with poll_run [OF b(1)] have "length (answers tr2) = 40" "\<forall>x\<in>set (answers tr2). \<not> ok_answer x"
        by (auto simp: maxAttempts_def)
      moreover from this(1) later have "answers tr2 ! (i - 1) = f i" using assms(2,3) by (metis (no_types, lifting) One_nat_def
        Suc_le_eq Suc_pred add_0 diff_zero le_simps(2) length_upt nth_map nth_upt)
      ultimately show False using assms(2-4) by (metis One_nat_def Suc_le_eq Suc_pred le_simps(2) nth_mem)
    qed
    with b show ?thesis by simp
  qed
qed

text \<open>The form with the name typed in, or not.\<close>

definition sample_form :: "string \<Rightarrow> dom" where
  "sample_form nm = \<lparr>value_of = (\<lambda>_. nm), checked_of = (\<lambda>_. False), text_of = (\<lambda>_. []), disabled_of = (\<lambda>_. False),
     hidden_of = (\<lambda>_. False), rows_of = (\<lambda>_. []), location = [], latencyDefaults = None, cleaningDefaults = None,
     cleaningCurrentSettings = None, resetExpectedName = ''RESET'', dom_app = initial_app,
     dashboard_shown = None, event_items = []\<rparr>"

section \<open>Properties\<close>

text \<open>
  C10: Waiting for the daemon ends, whatever it answers: on every sequence of answers the loop finishes after at most
  forty polls, with success exactly when one of the first forty answers is a 2xx, and then at the first such answer.
\<close>

theorem waiting_for_restart_ends:
  "\<exists>n b. exec (=) waitForServiceRestart s (map (\<lambda>i. SFetch (get_req ''/api/v1/auth/state'') (f i)) [0..<n]) [] s (Done b) \<and>
     n \<le> 40 \<and> (b \<longleftrightarrow> (\<exists>i<40. ok_answer (f i))) \<and>
     (if b then 0 < n \<and> ok_answer (f (n - 1)) \<and> (\<forall>i<n - 1. \<not> ok_answer (f i)) else n = 40)"
proof -
  obtain n b where run: "n \<le> 40"
    "exec (=) waitForServiceRestart s (map (\<lambda>i. SFetch (get_req ''/api/v1/auth/state'') (f i)) [0..<n]) [] s (Done b)"
    using poll_ends [of maxAttempts s f] by (auto simp: waitForServiceRestart_def maxAttempts_def)
  have facts: "if b then \<exists>as a. map f [0..<n] = as @ [a] \<and> ok_answer a \<and> (\<forall>x\<in>set as. \<not> ok_answer x)
      else n = 40 \<and> (\<forall>i<n. \<not> ok_answer (f i))"
    using poll_run [OF run(2) [unfolded waitForServiceRestart_def]] by (auto simp: answers_polls maxAttempts_def)
  show ?thesis
  proof (cases b)
    case True
    with facts obtain as a where as: "map f [0..<n] = as @ [a]" "ok_answer a" "\<forall>x\<in>set as. \<not> ok_answer x" by auto
    then have "0 < n" by (cases n) auto
    then obtain m where m: "n = Suc m" by (cases n) auto
    with as(1) have "as = map f [0..<m]" "a = f m" by auto
    with run(1) m as(2) have "\<exists>i<40. ok_answer (f i)" by (intro exI [of _ m]) simp
    with as run m True \<open>as = map f [0..<m]\<close> \<open>a = f m\<close> show ?thesis by (intro exI [of _ n] exI [of _ True]) auto
  next
    case False
    with facts run show ?thesis by (intro exI [of _ n] exI [of _ False]) auto
  qed
qed

theorem waiting_for_restart_ends_witness:
  "\<exists>n. exec (=) waitForServiceRestart (sample_form []) (map (\<lambda>i. SFetch (get_req ''/api/v1/auth/state'')
      (if i = 2 then Answered 200 [] None else NetworkError ''Failed to fetch'')) [0..<n]) [] (sample_form []) (Done True)"
proof -
  let ?f = "\<lambda>i::nat. if i = 2 then Answered 200 [] (None :: payload option) else NetworkError ''Failed to fetch''"
  have "\<exists>i<40. ok_answer (?f i)" by (rule exI [of _ 2]) (simp add: ok_answer_def)
  with waiting_for_restart_ends [of "sample_form []" ?f] show ?thesis by auto
qed

text \<open>
  C11: Once a restore or a reset is accepted and the daemon answers again within the forty polls, the page always
  starts over: such a run exists for every schedule of answers, and whatever the rest of the page does meanwhile,
  every run that sees these answers starts \<open>boot\<close>, once, and ends without an error.
\<close>

theorem restart_leads_to_boot:
  assumes "p = submitRestore (Inr bytes) se ee \<or> p = submitReset n v se ee"
    and "ok_answer (f 0)" "1 \<le> i" "i \<le> 40" "ok_answer (f i)"
  shows "(\<exists>tr s'. exec (=) p s tr [Boot] s' (Done ()) \<and> answers tr = map f [0..<length (answers tr)]) \<and>
    (\<forall>tr ts s' r. exec R p s tr ts s' r \<and> answers tr = map f [0..<length (answers tr)] \<longrightarrow> ts = [Boot] \<and> r = Done ())"
proof -
  from assms(1) obtain q g h msg where p: "p = restart_after q g h se ee msg" using submits_restart by metis
  show ?thesis unfolding p using restart_boots [OF assms(2-5)] by blast
qed

theorem restart_leads_to_boot_witness:
  "\<exists>tr s'. exec (=) (submitReset ''RESET'' True ''resetStatus'' ''resetError'') (sample_form []) tr [Boot] s' (Done ())"
  using restart_leads_to_boot [of "submitReset ''RESET'' True ''resetStatus'' ''resetError''" "[]" "''resetStatus''" "''resetError''"
      "''RESET''" True "\<lambda>i. if i = 0 \<or> i = 3 then Answered 204 [] None else NetworkError ''Failed to fetch''" 3 "sample_form []" "(=)"]
  by (auto simp: ok_answer_def)

text \<open>
  C16: Nothing is reset unless the name on the page was typed and the warning confirmed: a run of the form that sends a
  request sends \<open>POST /reset\<close> first, with exactly the expected name and the state of the check box, after a confirmed
  warning that names the cartridge files when they are to be deleted. On a wrong name the run sends nothing, asks
  nothing, and says so.
\<close>

theorem reset_needs_confirmation:
  assumes "exec R on_reset_submit s tr ts s' r"
  shows "if value_of s ''resetConfirmName'' \<noteq> resetExpectedName s
     then tr = [] \<and> ts = [] \<and> s' = set_text ''resetError'' ''Typed name does not match.'' s
     else requests tr \<noteq> [] \<longrightarrow>
       take 1 tr = [SConfirm (reset_warning (checked_of s ''resetDeleteVolumes'')) True] \<and>
       hd (requests tr) = reset_request (resetExpectedName s) (checked_of s ''resetDeleteVolumes'') \<and>
       (\<forall>q\<in>set (tl (requests tr)). req_method q = ''GET'')"
proof (cases "value_of s ''resetConfirmName'' = resetExpectedName s")
  case False
  with assms show ?thesis by (auto simp: on_reset_submit_def)
next
  case True
  let ?n = "resetExpectedName s" and ?v = "checked_of s ''resetDeleteVolumes''"
  obtain g h msg where submit: "submitReset ?n ?v ''resetStatus'' ''resetError'' =
      restart_after (reset_request ?n ?v) g h ''resetStatus'' ''resetError'' msg" using submits_restart by metis
  from assms True obtain yes tr1 where tr: "tr = SConfirm (reset_warning ?v) yes # tr1" and
    run: "exec R (if \<not> yes then Return () else submitReset ?n ?v ''resetStatus'' ''resetError'') s tr1 ts s' r"
    unfolding on_reset_submit_def Let_def exec_simps True by auto
  show ?thesis
  proof (cases yes)
    case False
    with run tr True show ?thesis by simp
  next
    case confirmed: True
    with run obtain a tr2 where tr1: "tr1 = SFetch (reset_request ?n ?v) a # tr2" and "\<forall>q\<in>set (requests tr2). req_method q = ''GET''"
      unfolding submit using restart_requests by force
    with tr confirmed True show ?thesis by simp
  qed
qed

theorem reset_needs_confirmation_witness:
  "requests [SConfirm (reset_warning False) True, SFetch (reset_request ''RESET'' False) (NetworkError ''Failed to fetch'')]
     = [reset_request ''RESET'' False]"
proof -
  let ?tr = "[SConfirm (reset_warning False) True, SFetch (reset_request ''RESET'' False) (NetworkError ''Failed to fetch'')]"
  have "\<exists>s'. exec (=) on_reset_submit (sample_form ''RESET'') ?tr [] s' (Done ())"
    by (simp add: on_reset_submit_def submitReset_def sample_form_def Let_def io_seq_def update_def api_def api_answer_def
        refused_def exec_bind exec_catch)
      (rule exI, rule exI [of _ True], simp, rule exI [of _ False], simp)
  then show ?thesis using reset_needs_confirmation [of "(=)" "sample_form ''RESET''" ?tr "[]" _ "Done ()"]
    by (auto simp: sample_form_def)
qed

end
