(* ===== verification/Page_Loaders.thy ===== *)
theory Page_Loaders
  imports Service_Restart
begin

text \<open>
  The functions that fill the page from the server: \<open>refresh\<close> and \<open>renderEvents\<close> of the dashboard, the two
  background loaders started at sign-in, and the dispatch from a section of the Admin view to its loader (app.js
  \<open>loadAdmin\<close>, \<open>loadAdminExtra\<close>). \<open>fmt\<close> is how the browser prints a date. What \<open>refresh\<close> draws is
  \<open>renderDashboard\<close> of the state at that moment.
\<close>

section \<open>Background loaders\<close>

definition tape_types_of :: "payload option \<Rightarrow> tape_type_info list" where
  "tape_types_of a = (case a of Some (PTapeTypes ts) \<Rightarrow> ts | _ \<Rightarrow> [])"

definition tape_sets_of :: "payload option \<Rightarrow> tape_set_config list" where
  "tape_sets_of a = (case a of Some (PTapeSets ts) \<Rightarrow> ts | _ \<Rightarrow> [])"

definition by_type_name :: "tape_type_info list \<Rightarrow> string \<rightharpoonup> string" where
  "by_type_name ts = fold (\<lambda>t m. m(tt_name t \<mapsto> formatBarcodeFormat t)) ts Map.empty"

definition family_map :: "tape_set_config list \<Rightarrow> tape_type_info list \<Rightarrow> string \<rightharpoonup> string" where
  "family_map sets types =
     fold (\<lambda>s m. m(tsc_name s \<mapsto>
         or_else (case by_type_name types (tsc_tape_type s) of None \<Rightarrow> [] | Some f \<Rightarrow> f) (tsc_tape_type s))) sets Map.empty"

definition on_app :: "(app \<Rightarrow> app) \<Rightarrow> dom \<Rightarrow> dom" where
  "on_app f d = d\<lparr>dom_app := f (dom_app d)\<rparr>"

definition loadTapeSetFamilyMap :: "(dom, unit) prog" where
  "loadTapeSetFamilyMap =
     io_catch
       (io_bind (api_all [get_req ''/api/v1/tape-sets'', get_req ''/api/v1/tape-types'']) (\<lambda>as.
          update (on_app (\<lambda>s. s\<lparr>tapeSetFamily := family_map (tape_sets_of (as ! 0)) (tape_types_of (as ! 1))\<rparr>))))
       (\<lambda>e. Return ())"

definition last_run_of :: "payload option \<Rightarrow> string option" where
  "last_run_of a = (case a of Some (PSchedule sc) \<Rightarrow> if sc_last_run sc = [] then None else Some (sc_last_run sc) | _ \<Rightarrow> None)"

definition loadBackupLastRun :: "(dom, unit) prog" where
  "loadBackupLastRun =
     io_catch
       (io_bind (api (get_req ''/api/v1/backup/schedule'')) (\<lambda>a. update (on_app (\<lambda>s. s\<lparr>backupLastRun := last_run_of a\<rparr>))))
       (\<lambda>e. update (on_app (\<lambda>s. s\<lparr>backupLastRun := None\<rparr>)))"

section \<open>Events\<close>

definition event_item_of :: "(string \<Rightarrow> string) \<Rightarrow> log_event \<Rightarrow> event_item" where
  "event_item_of fmt e =
     (let sev = lower (or_else (ev_severity e) ''information''); outcome = lower (or_else (ev_outcome e) ''success'');
          parts = [outcome, sev] @ (if ev_category e \<noteq> [] then [ev_category e] else []) @
            (if ev_actor e \<noteq> [] then [''user='' @ ev_actor e] else []) @
            (if ev_source_ip e \<noteq> [] then [''ip='' @ ev_source_ip e] else [])
      in \<lparr>item_time = fmt (ev_time e), item_code = or_else (ev_code e) (or_else (ev_type e) ''SYSTEM.EVENT.SUCCESS''),
          item_class = ''meta '' @ sev @ '' '' @ outcome, item_meta = join '' /'' parts, item_message = ev_message e\<rparr>)"

definition renderEvents :: "(string \<Rightarrow> string) \<Rightarrow> log_event list \<Rightarrow> dom \<Rightarrow> dom" where
  "renderEvents fmt es d = d\<lparr>event_items := map (event_item_of fmt) (take 100 es)\<rparr>"

section \<open>Refresh\<close>

definition draw_dashboard :: "dom \<Rightarrow> dom" where
  "draw_dashboard d =
     (case renderDashboard (dom_app d) of
        None \<Rightarrow> d
      | Some v \<Rightarrow> on_app rendered_app (set_hidden ''offsite'' (db_offsite v = None) (d\<lparr>dashboard_shown := Some v\<rparr>)))"

definition with_status :: "status option \<Rightarrow> dom \<Rightarrow> dom" where
  "with_status st = on_app (\<lambda>s. s\<lparr>status_of := st\<rparr>)"

definition with_libraries :: "logical_library list \<Rightarrow> dom \<Rightarrow> dom" where
  "with_libraries ls = on_app (\<lambda>s. s\<lparr>logicalLibraries := ls\<rparr>)"

definition wants_libraries :: "dom \<Rightarrow> bool" where
  "wants_libraries d \<longleftrightarrow> showLibraryColors (dom_app d) \<or> hideUnassigned (dom_app d)"

definition fetch_libraries :: "(dom, unit) prog" where
  "fetch_libraries =
     Get (\<lambda>d. if wants_libraries d
       then io_bind (api (get_req ''/api/v1/logical-libraries'')) (\<lambda>a. update (with_libraries (libraries_of a)))
       else update (with_libraries []))"

definition events_of :: "payload option \<Rightarrow> log_event list" where
  "events_of a = (case a of Some (PEvents es) \<Rightarrow> es | _ \<Rightarrow> [])"

definition refresh :: "(string \<Rightarrow> string) \<Rightarrow> (dom, unit) prog" where
  "refresh fmt =
     Get (\<lambda>d. if hidden_of d ''view-dashboard'' then Return ()
       else io_catch
         (io_bind (api (get_req ''/api/v1/status'')) (\<lambda>a.
            io_seq (update (with_status (status_of_answer a)))
              (io_seq fetch_libraries
                (io_seq (update draw_dashboard)
                  (io_bind (api (get_req ''/api/v1/events'')) (\<lambda>b. update (renderEvents fmt (events_of b))))))))
         (\<lambda>e. Return ()))"

section \<open>The Admin view\<close>

definition loadAdminExtra :: "string \<Rightarrow> (dom, unit) prog" where
  "loadAdminExtra sect =
     (if sect = ''drive-types'' then loadDriveTypes
      else if sect = ''tape-types'' then loadTapeTypes
      else if sect = ''tape-sets'' then loadTapeSets
      else if sect = ''drives'' then loadDrives
      else if sect = ''magazines'' then loadMagazines
      else if sect = ''mailboxes'' then loadMailboxes
      else if sect = ''logical-libraries'' then loadLogicalLibraries
      else Return ())"

definition loadAdmin :: "(string \<Rightarrow> string) \<Rightarrow> string \<Rightarrow> (dom, unit) prog" where
  "loadAdmin fmt sect =
     (if sect = ''users'' then loadUsers fmt
      else if sect = ''tokens'' then loadTokens fmt
      else if sect = ''settings'' then loadSettings
      else if sect = ''latency'' then loadLatencySettings
      else if sect = ''prometheus'' then loadPrometheusSettings
      else if sect = ''telemetry'' then loadTelemetrySettings
      else if sect = ''cleaning-tapes'' then loadCleaningAdmin
      else if sect = ''security'' then loadSecuritySettings
      else if sect = ''backup'' then loadBackup fmt
      else if sect = ''reset'' then loadReset
      else loadAdminExtra sect)"

text \<open>The program behind each task that runs on this page; the screens' own are in Boot and Wizard_View.\<close>

fun run_task :: "(string \<Rightarrow> string) \<Rightarrow> task \<Rightarrow> (dom, unit) prog option" where
  "run_task fmt Refresh = Some (refresh fmt)"
| "run_task fmt LoadTapeSetFamilyMap = Some loadTapeSetFamilyMap"
| "run_task fmt LoadBackupLastRun = Some loadBackupLastRun"
| "run_task fmt (LoadAdmin sect) = Some (loadAdmin fmt sect)"
| "run_task fmt LoadCleaningSettings = Some loadCleaningSettings"
| "run_task fmt LoadCleaningTapes = Some loadCleaningTapes"
| "run_task fmt LoadBackupsList = Some (loadBackupsList fmt)"
| "run_task fmt t = None"

section \<open>Loading only reads\<close>

definition reads :: "request \<Rightarrow> bool" where
  "reads q \<longleftrightarrow> req_method q = ''GET'' \<and> req_body q = JNull"

abbreviation reads_only :: "('s, 'a) prog \<Rightarrow> bool" where
  "reads_only m \<equiv> sends (\<lambda>_. True) reads m"

lemma reads_get [simp]: "reads (get_req p)"
  by (simp add: reads_def get_req_def)

lemmas loader_defs = loadUsers_def loadTokens_def loadDriveTypes_def loadTapeTypes_def loadTapeSets_def loadDrives_def
  loadMagazines_def loadMailboxes_def loadLogicalLibraries_def loadSettings_def loadLatencySettings_def
  loadPrometheusSettings_def loadTelemetrySettings_def loadSecuritySettings_def loadCleaningSettings_def
  loadCleaningTapes_def loadCleaningAdmin_def loadBackupsList_def loadBackup_def loadReset_def
  loadTapeSetFamilyMap_def loadBackupLastRun_def fetch_libraries_def refresh_def

lemma sends_cleaning_tapes [sends_intros]:
  "sends I P (case a of Some (PStatus st) \<Rightarrow> update (f st) | _ \<Rightarrow> io_throw e)"
  by (auto intro!: sends_update sends_throw split: option.split payload.split)

lemma sends_answer [sends_intros]: "sends I P (show_answer f a)"
  by (rule sends_show)

lemma loaders_read:
  "reads_only (loadUsers fmt)" "reads_only (loadTokens fmt)" "reads_only loadDriveTypes" "reads_only loadTapeTypes"
  "reads_only loadTapeSets" "reads_only loadDrives" "reads_only loadMagazines" "reads_only loadMailboxes"
  "reads_only loadLogicalLibraries" "reads_only loadSettings" "reads_only loadLatencySettings"
  "reads_only loadPrometheusSettings" "reads_only loadTelemetrySettings" "reads_only loadSecuritySettings"
  "reads_only loadCleaningSettings" "reads_only loadCleaningTapes" "reads_only loadCleaningAdmin"
  "reads_only (loadBackupsList fmt)" "reads_only (loadBackup fmt)" "reads_only loadReset"
  "reads_only loadTapeSetFamilyMap" "reads_only loadBackupLastRun" "reads_only (refresh fmt)"
  unfolding loader_defs by (intro sends_intros; simp)+

section \<open>Overlapping refreshes\<close>

definition status_answer :: "status \<Rightarrow> payload response" where
  "status_answer st = Answered 200 [] (Some (PStatus st))"

text \<open>A refresh whose status request is answered with \<open>st\<close>, after the page went from \<open>d\<close> to \<open>d1\<close>.\<close>

definition refreshed :: "(string \<Rightarrow> string) \<Rightarrow> status \<Rightarrow> dom \<Rightarrow> dom" where
  "refreshed fmt st d = renderEvents fmt [] (draw_dashboard (with_libraries [] (with_status (Some st) d)))"

lemma fetch_libraries_run:
  assumes "R d d"
  shows "\<exists>tr. exec R fetch_libraries d tr [] (with_libraries [] d) (Done ())"
proof (cases "wants_libraries d")
  case True
  have "exec R fetch_libraries d [SFetch (get_req ''/api/v1/logical-libraries'') (Answered 200 [] (Some (PLibraries [])))] []
     (with_libraries [] d) (Done ())"
    using True assms by (auto simp: fetch_libraries_def api_def api_answer_def libraries_of_def update_def)
  then show ?thesis by blast
next
  case False
  then have "exec R fetch_libraries d [] [] (with_libraries [] d) (Done ())" by (simp add: fetch_libraries_def)
  then show ?thesis by blast
qed

lemma exec_api_ok:
  assumes "R s s1"
  shows "exec R (api q) s [SFetch q (Answered 200 [] body)] [] s1 (Done body)"
  using assms by (auto simp: exec_api http_ok_def)

lemma refreshed_status: "status_of (dom_app (refreshed fmt st d)) = Some st"
  by (simp add: refreshed_def renderEvents_def draw_dashboard_def with_libraries_def with_status_def on_app_def dom_defs
      rendered_app_def Let_def split: option.split)

lemma status_simps [simp]:
  "status_of (dom_app (with_status st d)) = st" "status_of (dom_app (with_libraries ls d)) = status_of (dom_app d)"
  "status_of (dom_app (draw_dashboard d)) = status_of (dom_app d)"
  "status_of (dom_app (renderEvents fmt es d)) = status_of (dom_app d)"
  by (simp_all add: with_status_def with_libraries_def on_app_def draw_dashboard_def renderEvents_def rendered_app_def dom_defs
      Let_def split: option.split)

lemma refresh_run:
  assumes shown: "\<not> hidden_of d ''view-dashboard''" and "R d d1"
    and idle: "\<And>x. status_of (dom_app x) = Some st \<Longrightarrow> R x x"
  shows "\<exists>tr. exec R (refresh fmt) d tr [] (refreshed fmt st d1) (Done ()) \<and> (\<exists>as. answers tr = status_answer st # as)"
proof -
  let ?d2 = "with_status (Some st) d1"
  let ?d3 = "draw_dashboard (with_libraries [] ?d2)"
  obtain tr where libs: "exec R fetch_libraries ?d2 tr [] (with_libraries [] ?d2) (Done ())"
    using fetch_libraries_run [of R ?d2] idle by auto
  have "R ?d3 ?d3" by (rule idle) simp
  then have events: "exec R (io_bind (api (get_req ''/api/v1/events'')) (\<lambda>b. update (renderEvents fmt (events_of b)))) ?d3
      [SFetch (get_req ''/api/v1/events'') (Answered 200 [] (Some (PEvents [])))] [] (refreshed fmt st d1) (Done ())"
    by (auto simp: api_def api_answer_def events_of_def refreshed_def update_def)
  then have drawn: "exec R (io_seq (update draw_dashboard)
       (io_bind (api (get_req ''/api/v1/events'')) (\<lambda>b. update (renderEvents fmt (events_of b))))) (with_libraries [] ?d2)
      [SFetch (get_req ''/api/v1/events'') (Answered 200 [] (Some (PEvents [])))] [] (refreshed fmt st d1) (Done ())"
    by (simp add: exec_update_seq)
  let ?tr = "tr @ [SFetch (get_req ''/api/v1/events'') (Answered 200 [] (Some (PEvents [])))]"
  let ?rest = "\<lambda>a. io_seq (update (with_status (status_of_answer a))) (io_seq fetch_libraries (io_seq (update draw_dashboard)
      (io_bind (api (get_req ''/api/v1/events'')) (\<lambda>b. update (renderEvents fmt (events_of b))))))"
  have "exec R (io_seq fetch_libraries (io_seq (update draw_dashboard)
      (io_bind (api (get_req ''/api/v1/events'')) (\<lambda>b. update (renderEvents fmt (events_of b)))))) ?d2 ?tr ([] @ [])
      (refreshed fmt st d1) (Done ())"
    by (rule exec_seqI [OF libs drawn])
  then have "exec R (?rest (Some (PStatus st))) d1 ?tr [] (refreshed fmt st d1) (Done ())"
    by (simp only: exec_update_seq status_of_answer_def option.case payload.case append_Nil)
  then have "exec R (io_bind (api (get_req ''/api/v1/status'')) ?rest) d ([SFetch (get_req ''/api/v1/status'') (status_answer st)] @ ?tr)
      ([] @ []) (refreshed fmt st d1) (Done ())"
    unfolding status_answer_def by (rule exec_bindI [OF exec_api_ok [where R = R, OF assms(2)]])
  then have "exec R (refresh fmt) d ([SFetch (get_req ''/api/v1/status'') (status_answer st)] @ ?tr) [] (refreshed fmt st d1) (Done ())"
    using shown by (auto simp: refresh_def exec_catch)
  then show ?thesis by (intro exI conjI, assumption) simp
qed

lemma fetch_libraries_keeps: "keeps (\<lambda>x. status_of (dom_app x) = st) fetch_libraries"
  unfolding fetch_libraries_def
proof (rule keeps_Get)
  fix d
  show "keeps (\<lambda>x. status_of (dom_app x) = st) (if wants_libraries d
      then io_bind (api (get_req ''/api/v1/logical-libraries'')) (\<lambda>a. update (with_libraries (libraries_of a)))
      else update (with_libraries []))"
    by (cases "wants_libraries d") (simp_all add: keeps_bind keeps_api keeps_update)
qed

lemma after_status_keeps:
  "keeps (\<lambda>x. status_of (dom_app x) = st)
     (io_seq fetch_libraries (io_seq (update draw_dashboard)
       (io_bind (api (get_req ''/api/v1/events'')) (\<lambda>b. update (renderEvents fmt (events_of b))))))"
  by (intro keeps_seq keeps_bind keeps_api fetch_libraries_keeps keeps_update) simp_all

text \<open>A refresh whose status request is answered shows the status of that answer, whatever the page shows by then.\<close>

lemma refresh_shows_answer:
  assumes run: "exec R (refresh fmt) d tr ts d' r" and shown: "\<not> hidden_of d ''view-dashboard''"
    and first: "answers tr = status_answer st # as"
    and others: "\<And>x y. status_of (dom_app x) = Some st \<Longrightarrow> R x y \<Longrightarrow> status_of (dom_app y) = Some st"
  shows "status_of (dom_app d') = Some st"
proof -
  let ?tail = "io_seq fetch_libraries (io_seq (update draw_dashboard)
      (io_bind (api (get_req ''/api/v1/events'')) (\<lambda>b. update (renderEvents fmt (events_of b)))))"
  let ?K = "\<lambda>a. io_seq (update (with_status (status_of_answer a))) ?tail"
  obtain r1 where body: "exec R (io_bind (api (get_req ''/api/v1/status'')) ?K) d tr ts d' r1"
    using run shown by (auto simp: refresh_def exec_catch)
  have "\<exists>s1 tr2 ts2. exec R (?K (Some (PStatus st))) s1 tr2 ts2 d' r1"
    using body [unfolded exec_bind]
  proof (elim disjE exE conjE)
    fix a s1 tr1 tr2 ts1 ts2
    assume api: "exec R (api (get_req ''/api/v1/status'')) d tr1 ts1 s1 (Done a)"
      and rest: "exec R (?K a) s1 tr2 ts2 d' r1" and tr: "tr = tr1 @ tr2"
    from api obtain p where p: "tr1 = [SFetch (get_req ''/api/v1/status'') p]" "Done a = answer_outcome p"
      by (auto simp: exec_api)
    with first tr have "p = status_answer st" by simp
    with p(2) have "a = Some (PStatus st)" by (simp add: status_answer_def http_ok_def)
    with rest show ?thesis by blast
  next
    fix e
    assume "exec R (api (get_req ''/api/v1/status'')) d tr ts d' (Failed e)"
    then obtain p where p: "tr = [SFetch (get_req ''/api/v1/status'') p]" "Failed e = answer_outcome p"
      by (auto simp: exec_api)
    with first have "p = status_answer st" by simp
    with p(2) show ?thesis by (simp add: status_answer_def http_ok_def)
  qed
  then obtain s1 tr2 ts2 where "exec R ?tail (with_status (Some st) s1) tr2 ts2 d' r1"
    by (auto simp only: exec_update_seq status_of_answer_def option.case payload.case)
  from keepsD [OF after_status_keeps this] others show ?thesis by simp
qed

section \<open>Properties\<close>

text \<open>
  C17: Looking at the page never changes the library: whatever the answers, every loader of the Admin view, the dashboard's
  refresh and the background loaders send nothing but GET requests without a body.
\<close>

theorem page_loads_only_read:
  assumes "run_task fmt t = Some m" and "exec R m s tr ts s' r"
  shows "\<forall>q\<in>set (requests tr). req_method q = ''GET'' \<and> req_body q = JNull"
proof -
  have "reads_only (loadAdminExtra sect)" "reads_only (loadAdmin fmt sect)" for sect
    unfolding loadAdminExtra_def loadAdmin_def by (intro sends_if loaders_read sends_Return)+
  with assms(1) have "reads_only m" using loaders_read by (cases t) auto
  from sendsD [OF this assms(2) entered_True] show ?thesis by (simp add: reads_def)
qed

theorem page_loads_only_read_witness:
  "requests [SFetch (get_req ''/api/v1/users'') (NetworkError ''Failed to fetch'')] = [\<lparr>req_method = ''GET'', req_path = ''/api/v1/users'', req_body = JNull\<rparr>]"
proof -
  let ?q = "get_req ''/api/v1/users''"
  have "exec (=) (loadAdmin id ''users'') (sample_form []) [SFetch ?q (NetworkError ''Failed to fetch'')] [] (sample_form [])
      (Failed ''Failed to fetch'')"
    by (simp add: loadAdmin_def loadUsers_def api_def api_answer_def)
  from page_loads_only_read [OF _ this, of id "LoadAdmin ''users''"] show ?thesis
    by (simp add: get_req_def)
qed



end
