(* ===== verification/Card_Drag.thy ===== *)
theory Card_Drag
  imports Panels Drag_Drop Dashboard_View
begin

text \<open>
  A cartridge card dragged on the dashboard. The card lies in a panel, and both listen: \<open>wireDraggable\<close> puts listeners on
  the card, \<open>initDashboardUI\<close> puts its own on the container of the panels, and an event that starts at the card (or, while
  it is dragged, at what lies under the pointer) reaches the container after it, unless a listener stops it on the way. None
  of the listeners of app.js does.
\<close>

section \<open>Propagation\<close>

record ('p, 'z) drag_page =
  dp_layout :: layout
  dp_drag :: "('p, 'z) drag_state"

text \<open>A listener changes the page and says whether it calls \<open>stopPropagation\<close>; \<open>dispatch\<close> calls them from the target
  outwards.\<close>

type_synonym 's listener = "'s \<Rightarrow> 's \<times> bool"

fun dispatch :: "'s listener list \<Rightarrow> 's \<Rightarrow> 's" where
  "dispatch [] s = s"
| "dispatch (f # fs) s = (case f s of (s', stopped) \<Rightarrow> if stopped then s' else dispatch fs s')"

section \<open>The listeners\<close>

text \<open>Of the card with payload \<open>p\<close> (\<open>wireDraggable\<close>).\<close>

definition card_dragstart :: "('z \<Rightarrow> 'p \<Rightarrow> bool) \<Rightarrow> 'p \<Rightarrow> ('p, 'z) drag_page listener" where
  "card_dragstart accepts p s = (s\<lparr>dp_drag := on_dragstart accepts p (dp_drag s)\<rparr>, False)"

definition card_dragend :: "('p, 'z) drag_page listener" where
  "card_dragend s = (s\<lparr>dp_drag := on_dragend (dp_drag s)\<rparr>, False)"

text \<open>Of a drop zone under the pointer (\<open>wireDropZone\<close>): its \<open>dragover\<close> only allows the drop.\<close>

definition zone_dragenter :: "('z \<Rightarrow> 'p \<Rightarrow> bool) \<Rightarrow> 'z \<Rightarrow> ('p, 'z) drag_page listener" where
  "zone_dragenter accepts z s = (s\<lparr>dp_drag := on_dragenter accepts z (dp_drag s)\<rparr>, False)"

definition zone_dragover :: "('p, 'z) drag_page listener" where
  "zone_dragover s = (s, False)"

text \<open>Of the container: the panel \<open>closest\<close> to the target is \<open>i\<close>, or \<open>t\<close>.\<close>

definition container_dragstart :: "string \<Rightarrow> ('p, 'z) drag_page listener" where
  "container_dragstart i s = (s\<lparr>dp_layout := on_panel_dragstart i (dp_layout s)\<rparr>, False)"

definition container_dragover :: "string \<Rightarrow> bool \<Rightarrow> ('p, 'z) drag_page listener" where
  "container_dragover t before s = (s\<lparr>dp_layout := on_panel_dragover t before (dp_layout s)\<rparr>, False)"

definition container_dragend :: "('p, 'z) drag_page listener" where
  "container_dragend s = (s\<lparr>dp_layout := on_panel_dragend (dp_layout s)\<rparr>, False)"

section \<open>One drag\<close>

text \<open>
  The card is picked up in panel \<open>i\<close> and held over zone \<open>z\<close> of panel \<open>t\<close>, in the panel's upper half when \<open>before\<close>; the page
  when it is let go, and after the drag.
\<close>

definition cartridge_held ::
    "('z \<Rightarrow> 'p \<Rightarrow> bool) \<Rightarrow> 'p \<Rightarrow> string \<Rightarrow> 'z \<Rightarrow> string \<Rightarrow> bool \<Rightarrow> ('p, 'z) drag_page \<Rightarrow> ('p, 'z) drag_page" where
  "cartridge_held accepts p i z t before s =
     dispatch [zone_dragover, container_dragover t before]
       (dispatch [zone_dragenter accepts z] (dispatch [card_dragstart accepts p, container_dragstart i] s))"

definition cartridge_dragged ::
    "('z \<Rightarrow> 'p \<Rightarrow> bool) \<Rightarrow> 'p \<Rightarrow> string \<Rightarrow> 'z \<Rightarrow> string \<Rightarrow> bool \<Rightarrow> ('p, 'z) drag_page \<Rightarrow> ('p, 'z) drag_page" where
  "cartridge_dragged accepts p i z t before s =
     dispatch [card_dragend, container_dragend] (cartridge_held accepts p i z t before s)"

lemmas drag_listeners = card_dragstart_def card_dragend_def zone_dragenter_def zone_dragover_def container_dragstart_def
  container_dragover_def container_dragend_def

lemma dragged_layout:
  "dp_layout (cartridge_dragged accepts p i z t before s) =
     on_panel_dragend (on_panel_dragover t before (on_panel_dragstart i (dp_layout s)))"
  by (simp add: cartridge_dragged_def cartridge_held_def drag_listeners)

lemma held_payload: "dragPayload (dp_drag (cartridge_held accepts p i z t before s)) = Some p"
  by (simp add: cartridge_held_def drag_listeners on_dragstart_def on_dragenter_def)

lemma dragged_payload: "dragPayload (dp_drag (cartridge_dragged accepts p i z t before s)) = None"
  by (simp add: cartridge_dragged_def drag_listeners on_dragend_def)

section \<open>Properties\<close>

text \<open>
  C36: Dragging a cartridge also drags the panel it lies in: the card's \<open>dragstart\<close> bubbles to the container's own listener.
  So a cartridge taken from a card in one panel to a drop zone in another is dropped there when the zone accepts it, and
  besides its whole panel has moved next to the other one, and the new order of the panels is stored.
\<close>

theorem cartridge_drag_moves_panel:
  assumes "distinct (map panel_id (panels (dp_layout s)))" and "i \<in> set (map panel_id (panels (dp_layout s)))"
    and "t \<in> set (map panel_id (panels (dp_layout s)))" and "i \<noteq> t"
    and "l' = dp_layout (cartridge_dragged accepts p i z t before s)"
  shows "on_drop_payload accepts z (dp_drag (cartridge_held accepts p i z t before s)) = (if accepts z p then Some p else None) \<and>
     (\<exists>xs ys. filter (\<lambda>j. j \<noteq> i) (map panel_id (panels (dp_layout s))) = xs @ t # ys \<and>
       map panel_id (panels l') = xs @ (if before then [i, t] else [t, i]) @ ys) \<and>
     localStorage l' panelOrderKey = Some (string_array (filter (\<lambda>j. j \<noteq> []) (map panel_id (panels l'))))"
proof -
  have "on_drop_payload accepts z (dp_drag (cartridge_held accepts p i z t before s)) = (if accepts z p then Some p else None)"
    by (simp add: on_drop_payload_def held_payload)
  then show ?thesis
    using panel_drag_moves_panel [OF assms(1-4), of before] unfolding assms(5) dragged_layout by blast
qed

text \<open>A loaded tape of magazine M1 dropped on the grid of the outside panel.\<close>

definition fresh_page :: "(drag_item, string) drag_page" where
  "fresh_page = \<lparr>dp_layout = fresh_layout dashboard_panels Map.empty,
     dp_drag = \<lparr>dragPayload = None, dropZones = [''outsideGrid''], zone_classes = (\<lambda>_. [])\<rparr>\<rparr>"

definition outside_accepts :: "string \<Rightarrow> drag_item \<Rightarrow> bool" where
  "outside_accepts z p \<longleftrightarrow> (case p of LoadedDrag m a bc \<Rightarrow> True | TapeDrag bc \<Rightarrow> False)"

theorem cartridge_drag_moves_panel_witness:
  "on_drop_payload outside_accepts ''outsideGrid'' (dp_drag (cartridge_held outside_accepts (LoadedDrag ''M1'' 1 ''A00001L8'')
       ''slots'' ''outsideGrid'' ''outside'' True fresh_page)) = Some (LoadedDrag ''M1'' 1 ''A00001L8'') \<and>
   map panel_id (panels (dp_layout (cartridge_dragged outside_accepts (LoadedDrag ''M1'' 1 ''A00001L8'')
       ''slots'' ''outsideGrid'' ''outside'' True fresh_page))) =
     [''slots'', ''outside'', ''offsite'', ''library-status'', ''drives'', ''ioslots'']"
proof -
  have ids: "map panel_id (panels (dp_layout fresh_page)) = dashboard_panels"
    by (simp add: fresh_page_def fresh_layout_def html_panel_def o_def)
  have xs: "xs = [] \<and> ys = [''offsite'', ''library-status'', ''drives'', ''ioslots'']"
    if "filter (\<lambda>j. j \<noteq> ''slots'') dashboard_panels = xs @ ''outside'' # ys" for xs ys
    using that by (auto simp: dashboard_panels_def Cons_eq_append_conv)
  have accepted: "outside_accepts ''outsideGrid'' (LoadedDrag ''M1'' 1 ''A00001L8'')" by (simp add: outside_accepts_def)
  have "distinct dashboard_panels" "''slots'' \<in> set dashboard_panels" "''outside'' \<in> set dashboard_panels"
    by (simp_all add: dashboard_panels_def)
  then show ?thesis
    using cartridge_drag_moves_panel [of fresh_page "''slots''" "''outside''" _ outside_accepts "LoadedDrag ''M1'' 1 ''A00001L8''"
        "''outsideGrid''" True, unfolded ids, OF _ _ _ _ refl] accepted xs
    by (fastforce simp: dashboard_panels_def)
qed

end
