(* ===== verification/Spec2Isabelle.thy ===== *)
theory Spec2Isabelle
  imports Prelude Api_Types Keyed_Store Staged_Queue Door_Commit Move_Options Js_Numbers Cartridge_Label
    Drive_Status Drag_Drop Library_Owners Effects Backend Wizard_Data Wizard_Board Wizard_Submit
    Wizard_Server Wizard_View Dialogs Assignment_Board Live_Stream
    Busy_Marks Dashboard_Actions Dashboard_View Bareos_Config Panels Boot Admin_Page Admin_Catalog Admin_Topology Admin_Settings
    Service_Restart Page_Loaders Card_Drag
begin

text \<open>gotochanger\<close>

end
